theory Spec2Isabelle
  imports Main "HOL-Library.AList" "HOL-Library.Char_ord" "HOL-Library.List_Lexorder"
begin

section \<open>Subscription requests and subscription keys\<close>

text \<open>
  \<^verbatim>\<open>types.SubscriptionRequest\<close>. Go strings are byte sequences, here \<open>string\<close>; an
  absent JSON field decodes to the empty string. The three pointer fields are \<open>None\<close>
  when nil.
\<close>

record SubscriptionRequest =
  Type :: string
  User :: string
  Coin :: string
  Interval :: string
  Dex :: string
  NSigFigs :: "int option"
  Mantissa :: "int option"
  AggregateByTime :: "bool option"

text \<open>
  \<^verbatim>\<open>createSubscriptionKey\<close> of proxy.go (the connector has a copy with the same body):
  the type, then every non-empty field of user, coin, interval, dex, each after a dash.
\<close>

definition createSubscriptionKey :: "SubscriptionRequest \<Rightarrow> string" where
  "createSubscriptionKey sub =
     (let key = Type sub;
          key = (if User sub \<noteq> [] then key @ ''-'' @ User sub else key);
          key = (if Coin sub \<noteq> [] then key @ ''-'' @ Coin sub else key);
          key = (if Interval sub \<noteq> [] then key @ ''-'' @ Interval sub else key);
          key = (if Dex sub \<noteq> [] then key @ ''-'' @ Dex sub else key)
      in key)"

section \<open>Decimal printing\<close>

text \<open>
  Go's \<^verbatim>\<open>int\<close> and \<^verbatim>\<open>int64\<close> are 64-bit two's complement integers: a sum that leaves
  the range wraps around. They are modelled as \<open>int\<close>, and \<open>wrap64\<close> is written
  wherever the source adds.
\<close>

definition wrap64 :: "int \<Rightarrow> int" where
  "wrap64 x = (x + 2 ^ 63) mod 2 ^ 64 - 2 ^ 63"

text \<open>
  \<^verbatim>\<open>strconv.Itoa\<close> and the \<^verbatim>\<open>%d\<close> verb of \<^verbatim>\<open>fmt.Sprintf\<close>: the decimal digits of
  an integer, with a leading minus sign for a negative one.
\<close>

fun digits :: "nat \<Rightarrow> string" where
  "digits n = (if n < 10 then [''0123456789'' ! n]
               else digits (n div 10) @ [''0123456789'' ! (n mod 10)])"

declare digits.simps [simp del]

definition Itoa :: "int \<Rightarrow> string" where
  "Itoa i = (if i < 0 then ''-'' @ digits (nat (- i)) else digits (nat i))"

section \<open>Asset fetcher (asset\_fetcher.go)\<close>

record AssetInfo =
  Index :: int
  Name :: string
  SzDecimals :: int
  MaxLeverage :: int
  IsSpot :: bool
  TokenIndex :: int

text \<open>
  The three lookup tables of \<^verbatim>\<open>AssetFetcher\<close>. The Go maps hold pointers to records
  that are never written after they are built, so the tables hold the records.
\<close>

record AssetFetcher =
  perpAssets :: "int \<rightharpoonup> AssetInfo"
  spotAssets :: "int \<rightharpoonup> AssetInfo"
  assetsByName :: "string \<rightharpoonup> AssetInfo"
  lastUpdated :: int

definition NewAssetFetcher :: AssetFetcher where
  "NewAssetFetcher =
     \<lparr>perpAssets = Map.empty, spotAssets = Map.empty, assetsByName = Map.empty,
      lastUpdated = 0\<rparr>"

text \<open>One element of \<^verbatim>\<open>HyperliquidMetaResponse.Universe\<close>.\<close>

record PerpMeta =
  pm_name :: string
  pm_szDecimals :: int
  pm_maxLeverage :: int

text \<open>The elements of \<^verbatim>\<open>HyperliquidSpotMetaResponse.Tokens\<close> and \<^verbatim>\<open>.Universe\<close>.\<close>

record SpotToken =
  tk_name :: string
  tk_index :: int
  tk_szDecimals :: int

record SpotPair =
  sp_name :: string
  sp_tokens :: "int list"
  sp_index :: int

record HyperliquidSpotMetaResponse =
  Tokens :: "SpotToken list"
  Universe :: "SpotPair list"

text \<open>
  What one \<^verbatim>\<open>http.Post\<close> to the metadata endpoint gives: no response at all, or a
  status code with the body as the JSON decoder reads it (\<open>None\<close> when decoding fails).
\<close>

datatype 'a http_result = NoResponse | Response int "'a option"

datatype fetch_error = RequestFailed | BadStatus int | DecodeFailed

text \<open>
  The loop of \<^verbatim>\<open>fetchPerpetuals\<close>: the record of the i-th universe element is stored
  under index i and under its name, over whatever the tables held there.
\<close>

fun storePerpetuals :: "int \<Rightarrow> PerpMeta list \<Rightarrow> AssetFetcher \<Rightarrow> AssetFetcher" where
  "storePerpetuals i [] af = af"
| "storePerpetuals i (asset # rest) af =
     (let assetInfo = \<lparr>Index = i, Name = pm_name asset, SzDecimals = pm_szDecimals asset,
                        MaxLeverage = pm_maxLeverage asset, IsSpot = False, TokenIndex = 0\<rparr>
      in storePerpetuals (i + 1) rest
           (af\<lparr>perpAssets := (perpAssets af)(i \<mapsto> assetInfo),
               assetsByName := (assetsByName af)(pm_name asset \<mapsto> assetInfo)\<rparr>))"

definition fetchPerpetuals ::
  "PerpMeta list http_result \<Rightarrow> AssetFetcher \<Rightarrow> fetch_error option \<times> AssetFetcher" where
  "fetchPerpetuals resp af =
     (case resp of
        NoResponse \<Rightarrow> (Some RequestFailed, af)
      | Response status body \<Rightarrow>
          if status \<noteq> 200 then (Some (BadStatus status), af)
          else (case body of
                  None \<Rightarrow> (Some DecodeFailed, af)
                | Some universe \<Rightarrow> (None, storePerpetuals 0 universe af)))"

text \<open>\<^verbatim>\<open>tokenMap\<close>: later tokens overwrite earlier ones; a missing index reads as "".\<close>

fun buildTokenMap :: "SpotToken list \<Rightarrow> (int \<rightharpoonup> string) \<Rightarrow> (int \<rightharpoonup> string)" where
  "buildTokenMap [] m = m"
| "buildTokenMap (token # rest) m = buildTokenMap rest (m(tk_index token \<mapsto> tk_name token))"

definition tokenName :: "(int \<rightharpoonup> string) \<Rightarrow> int \<Rightarrow> string" where
  "tokenName m i = (case m i of None \<Rightarrow> [] | Some n \<Rightarrow> n)"

definition spotAssetName :: "(int \<rightharpoonup> string) \<Rightarrow> SpotPair \<Rightarrow> string" where
  "spotAssetName tokenMap pair =
     (case sp_tokens pair of
        t0 # t1 # others \<Rightarrow>
          if t0 = 1 \<and> tokenName tokenMap 1 \<noteq> [] then tokenName tokenMap t0 @ ''/USDC''
          else if t0 \<noteq> 0 \<and> t0 \<noteq> 1 then ''@'' @ Itoa (sp_index pair)
          else sp_name pair
      | short \<Rightarrow> sp_name pair)"

fun storeSpotPairs :: "(int \<rightharpoonup> string) \<Rightarrow> SpotPair list \<Rightarrow> AssetFetcher \<Rightarrow> AssetFetcher" where
  "storeSpotPairs tokenMap [] af = af"
| "storeSpotPairs tokenMap (pair # rest) af =
     (let assetName = spotAssetName tokenMap pair;
          assetInfo = \<lparr>Index = wrap64 (10000 + sp_index pair), Name = assetName,
                        SzDecimals = 0, MaxLeverage = 0, IsSpot = True,
                        TokenIndex = sp_index pair\<rparr>
      in storeSpotPairs tokenMap rest
           (af\<lparr>spotAssets := (spotAssets af)(wrap64 (10000 + sp_index pair) \<mapsto> assetInfo),
               assetsByName := (assetsByName af)(assetName \<mapsto> assetInfo)\<rparr>))"

definition fetchSpotAssets ::
  "HyperliquidSpotMetaResponse http_result \<Rightarrow> AssetFetcher \<Rightarrow> fetch_error option \<times> AssetFetcher"
  where
  "fetchSpotAssets resp af =
     (case resp of
        NoResponse \<Rightarrow> (Some RequestFailed, af)
      | Response status body \<Rightarrow>
          if status \<noteq> 200 then (Some (BadStatus status), af)
          else (case body of
                  None \<Rightarrow> (Some DecodeFailed, af)
                | Some spotResp \<Rightarrow>
                    (None, storeSpotPairs (buildTokenMap (Tokens spotResp) Map.empty)
                             (Universe spotResp) af)))"

text \<open>
  \<^verbatim>\<open>fetchAssets\<close>: the perpetuals, then the spot pairs, then the time stamp. Each step
  writes into the fetcher it is given, so a failure of the second step returns the
  fetcher as the first step left it.
\<close>

definition fetchAssets ::
  "int \<Rightarrow> PerpMeta list http_result \<Rightarrow> HyperliquidSpotMetaResponse http_result \<Rightarrow>
   AssetFetcher \<Rightarrow> fetch_error option \<times> AssetFetcher" where
  "fetchAssets now perpResp spotResp af =
     (case fetchPerpetuals perpResp af of
        (Some err, af1) \<Rightarrow> (Some err, af1)
      | (None, af1) \<Rightarrow>
          (case fetchSpotAssets spotResp af1 of
             (Some err, af2) \<Rightarrow> (Some err, af2)
           | (None, af2) \<Rightarrow> (None, af2\<lparr>lastUpdated := now\<rparr>)))"

text \<open>\<^verbatim>\<open>GetAssetByID\<close>: the pair (asset, exists) of the source is an option.\<close>

definition GetAssetByID :: "AssetFetcher \<Rightarrow> int \<Rightarrow> AssetInfo option" where
  "GetAssetByID af assetID =
     (case perpAssets af assetID of
        Some asset \<Rightarrow> Some asset
      | None \<Rightarrow>
          (case spotAssets af assetID of Some asset \<Rightarrow> Some asset | None \<Rightarrow> None))"

section \<open>Local node reader (replica\_cmds variant)\<close>

record WsTrade =
  trade_Coin :: string
  Side :: string
  Px :: string
  Sz :: string
  Hash :: string
  Time :: int
  TID :: int
  Users :: "string \<times> string"

record Order =
  Asset :: int
  IsBuy :: bool
  Price :: string
  Size :: string
  ReduceOnly :: bool
  TIF :: string
  ClientOrderID :: string

record Cancel =
  cancel_Asset :: int
  Cloid :: string

record ActionData =
  action_Type :: string
  Orders :: "Order list"
  Cancels :: "Cancel list"
  Grouping :: string
  action_Time :: int

record SignedAction =
  VaultAddress :: string
  Action :: ActionData
  Nonce :: int

record SignedActionBundle =
  bundle_Hash :: string
  SignedActions :: "SignedAction list"
  Broadcaster :: string
  BroadcasterNonce :: int

text \<open>
  An element of a \<^verbatim>\<open>signed_action_bundles\<close> entry is dynamically typed JSON. The code
  marshals the second element again and decodes it as a \<^verbatim>\<open>SignedActionBundle\<close>; an
  element is modelled by what that decoding gives.
\<close>

datatype bundle_item = Undecodable | Bundle SignedActionBundle

record HyperliquidNodeBlock =
  block_Time :: string
  SignedActionBundles :: "bundle_item list list"
  Round :: int
  ParentRound :: int
  Proposer :: string

text \<open>
  The reader. File positions are \<^verbatim>\<open>int64\<close> in the source; they are only ever sums
  of a position and lengths, so they are natural numbers here. \<^verbatim>\<open>blocksChan\<close> is a
  buffered channel of capacity 1000, modelled by its queue.
\<close>

record LocalNodeReader =
  isRunning :: bool
  blocksChan :: "HyperliquidNodeBlock list"
  lastReadFiles :: "string \<rightharpoonup> nat"
  latestBlocks :: "HyperliquidNodeBlock list"
  latestTrades :: "string \<rightharpoonup> WsTrade list"
  latestPrices :: "string \<rightharpoonup> string"
  assetFetcher :: "AssetFetcher option"

definition NewLocalNodeReader :: "AssetFetcher option \<Rightarrow> LocalNodeReader" where
  "NewLocalNodeReader af =
     \<lparr>isRunning = False, blocksChan = [], lastReadFiles = Map.empty, latestBlocks = [],
      latestTrades = Map.empty, latestPrices = Map.empty, assetFetcher = af\<rparr>"

definition getAssetSymbol :: "LocalNodeReader \<Rightarrow> int \<Rightarrow> string" where
  "getAssetSymbol r assetID =
     (case assetFetcher r of
        None \<Rightarrow> ''ASSET_'' @ Itoa assetID
      | Some af \<Rightarrow>
          (case GetAssetByID af assetID of
             Some asset \<Rightarrow> Name asset
           | None \<Rightarrow>
               (case GetAssetByID af (wrap64 (10000 + assetID)) of
                  Some asset \<Rightarrow> Name asset
                | None \<Rightarrow>
                    if assetID > 0 \<and> assetID < 1000 then ''@'' @ Itoa assetID
                    else ''ASSET_'' @ Itoa assetID)))"

text \<open>
  The clock and the RFC 3339 parser are outside the program: \<open>now\<close> is the reading of
  \<^verbatim>\<open>time.Now()\<close> in nanoseconds, \<open>parseTime\<close> gives the milliseconds of a time stamp
  or \<open>None\<close> where \<^verbatim>\<open>time.Parse\<close> fails.
\<close>

definition parseBlockTime :: "(string \<Rightarrow> int option) \<Rightarrow> int \<Rightarrow> string \<Rightarrow> int" where
  "parseBlockTime parseTime now timeStr =
     (case parseTime timeStr of None \<Rightarrow> now div 1000000 | Some t \<Rightarrow> t)"

text \<open>The body of the loop of \<^verbatim>\<open>processOrders\<close>, for one order.\<close>

definition processOrder ::
  "(string \<Rightarrow> int option) \<Rightarrow> int \<Rightarrow> string \<Rightarrow> string \<Rightarrow> Order \<Rightarrow> LocalNodeReader \<Rightarrow>
   LocalNodeReader" where
  "processOrder parseTime now blockTime userAddress order r =
     (let symbol = getAssetSymbol r (Asset order);
          trade = \<lparr>trade_Coin = symbol, Side = ''buy'', Px = Price order, Sz = Size order,
                    Hash = ClientOrderID order, Time = parseBlockTime parseTime now blockTime,
                    TID = now, Users = (userAddress, [])\<rparr>;
          trade = (if \<not> IsBuy order then trade\<lparr>Side := ''sell''\<rparr> else trade);
          trades = (case latestTrades r symbol of None \<Rightarrow> [] | Some ts \<Rightarrow> ts) @ [trade];
          trades = (if length trades > 1000 then drop (length trades - 1000) trades
                    else trades)
      in r\<lparr>latestTrades := (latestTrades r)(symbol \<mapsto> trades),
            latestPrices := (latestPrices r)(symbol \<mapsto> Price order)\<rparr>)"

definition processOrders ::
  "(string \<Rightarrow> int option) \<Rightarrow> int \<Rightarrow> Order list \<Rightarrow> string \<Rightarrow> string \<Rightarrow> LocalNodeReader \<Rightarrow>
   LocalNodeReader" where
  "processOrders parseTime now orders blockTime userAddress r =
     (if orders = [] then r
      else fold (processOrder parseTime now blockTime userAddress) orders r)"

text \<open>\<^verbatim>\<open>processCancellations\<close> resolves each symbol and logs it: no state changes.\<close>

definition processCancellations ::
  "Cancel list \<Rightarrow> string \<Rightarrow> string \<Rightarrow> LocalNodeReader \<Rightarrow> LocalNodeReader" where
  "processCancellations cancels blockTime userAddress r = r"

definition processSignedAction ::
  "(string \<Rightarrow> int option) \<Rightarrow> int \<Rightarrow> SignedAction \<Rightarrow> string \<Rightarrow> LocalNodeReader \<Rightarrow>
   LocalNodeReader" where
  "processSignedAction parseTime now action blockTime r =
     (if action_Type (Action action) = ''order''
        then processOrders parseTime now (Orders (Action action)) blockTime
               (VaultAddress action) r
      else if action_Type (Action action) = ''cancelByCloid''
        then processCancellations (Cancels (Action action)) blockTime (VaultAddress action) r
      else r)"

definition processSignedActionBundle ::
  "(string \<Rightarrow> int option) \<Rightarrow> int \<Rightarrow> bundle_item list \<Rightarrow> string \<Rightarrow> LocalNodeReader \<Rightarrow>
   LocalNodeReader" where
  "processSignedActionBundle parseTime now bundleArray blockTime r =
     (if length bundleArray < 2 then r
      else (case bundleArray ! 1 of
              Undecodable \<Rightarrow> r
            | Bundle bundle \<Rightarrow>
                fold (\<lambda>signedAction. processSignedAction parseTime now signedAction blockTime)
                  (SignedActions bundle) r))"

definition processBlock ::
  "(string \<Rightarrow> int option) \<Rightarrow> int \<Rightarrow> HyperliquidNodeBlock \<Rightarrow> LocalNodeReader \<Rightarrow>
   LocalNodeReader" where
  "processBlock parseTime now block r =
     (let blocks = latestBlocks r @ [block];
          blocks = (if length blocks > 100 then drop (length blocks - 100) blocks else blocks);
          r = r\<lparr>latestBlocks := blocks\<rparr>;
          r = fold (\<lambda>bundle. processSignedActionBundle parseTime now bundle (block_Time block))
                (SignedActionBundles block) r
      in if length (blocksChan r) < 1000 then r\<lparr>blocksChan := blocksChan r @ [block]\<rparr>
         else r)"

subsection \<open>Incremental reading of a block file\<close>

text \<open>\<^verbatim>\<open>strings.Split(content, "\n")\<close>: one more piece than there are newlines.\<close>

fun Split :: "string \<Rightarrow> string list" where
  "Split [] = [[]]"
| "Split (c # cs) =
     (if c = CHR 0x0A then [] # Split cs
      else (case Split cs of [] \<Rightarrow> [[c]] | l # ls \<Rightarrow> (c # l) # ls))"

text \<open>
  \<^verbatim>\<open>strings.TrimSpace\<close> removes, at both ends, the characters for which
  \<^verbatim>\<open>unicode.IsSpace\<close> holds. A Go string is a sequence of bytes read as UTF-8, and the
  white space characters are: the six of ASCII (tab, line feed, vertical tab, form feed,
  carriage return, space), U+0085 and U+00A0, written in two bytes, and U+1680, U+2000 to
  U+200A, U+2028, U+2029, U+202F, U+205F and U+3000, written in three. A byte sequence
  that is not the UTF-8 form of one of these decodes to another character, or to the
  error character for ill-formed bytes, and stops the trimming. At the right end the
  decoder looks back for the lead byte, which here is to match the same sequences
  against the end of the string.
\<close>

definition asciiSpace :: "char \<Rightarrow> bool" where
  "asciiSpace b \<longleftrightarrow> b \<in> {CHR 0x09, CHR 0x0A, CHR 0x0B, CHR 0x0C, CHR 0x0D, CHR 0x20}"

definition space2 :: "char \<Rightarrow> char \<Rightarrow> bool" where
  "space2 b0 b1 \<longleftrightarrow> b0 = CHR 0xC2 \<and> b1 \<in> {CHR 0x85, CHR 0xA0}"

definition space3 :: "char \<Rightarrow> char \<Rightarrow> char \<Rightarrow> bool" where
  "space3 b0 b1 b2 \<longleftrightarrow>
     b0 = CHR 0xE1 \<and> b1 = CHR 0x9A \<and> b2 = CHR 0x80
     \<or> b0 = CHR 0xE2 \<and> b1 = CHR 0x80 \<and>
        b2 \<in> {CHR 0x80, CHR 0x81, CHR 0x82, CHR 0x83, CHR 0x84, CHR 0x85, CHR 0x86, CHR 0x87,
              CHR 0x88, CHR 0x89, CHR 0x8A, CHR 0xA8, CHR 0xA9, CHR 0xAF}
     \<or> b0 = CHR 0xE2 \<and> b1 = CHR 0x81 \<and> b2 = CHR 0x9F
     \<or> b0 = CHR 0xE3 \<and> b1 = CHR 0x80 \<and> b2 = CHR 0x80"

fun TrimLeftSpace :: "string \<Rightarrow> string" where
  "TrimLeftSpace (b0 # b1 # b2 # s) =
     (if asciiSpace b0 then TrimLeftSpace (b1 # b2 # s)
      else if space2 b0 b1 then TrimLeftSpace (b2 # s)
      else if space3 b0 b1 b2 then TrimLeftSpace s
      else b0 # b1 # b2 # s)"
| "TrimLeftSpace [b0, b1] =
     (if asciiSpace b0 then TrimLeftSpace [b1]
      else if space2 b0 b1 then []
      else [b0, b1])"
| "TrimLeftSpace [b0] = (if asciiSpace b0 then [] else [b0])"
| "TrimLeftSpace [] = []"

text \<open>The same from the right end, on the reversed string: \<open>b0\<close> is the last byte.\<close>

fun trimReversed :: "string \<Rightarrow> string" where
  "trimReversed (b0 # b1 # b2 # s) =
     (if asciiSpace b0 then trimReversed (b1 # b2 # s)
      else if space2 b1 b0 then trimReversed (b2 # s)
      else if space3 b2 b1 b0 then trimReversed s
      else b0 # b1 # b2 # s)"
| "trimReversed [b0, b1] =
     (if asciiSpace b0 then trimReversed [b1]
      else if space2 b1 b0 then []
      else [b0, b1])"
| "trimReversed [b0] = (if asciiSpace b0 then [] else [b0])"
| "trimReversed [] = []"

definition TrimRightSpace :: "string \<Rightarrow> string" where
  "TrimRightSpace s = rev (trimReversed (rev s))"

definition TrimSpace :: "string \<Rightarrow> string" where
  "TrimSpace s = TrimRightSpace (TrimLeftSpace s)"

text \<open>
  The loop over the lines of \<^verbatim>\<open>readBlockFile\<close>. The index test \<^verbatim>\<open>i < len(lines)-1\<close>
  is \<open>rest \<noteq> []\<close>, and \<open>truncated\<close> is the condition
  \<^verbatim>\<open>bytesRead == int(remainingSize) && fromPos+int64(bytesRead) < stat.Size()\<close>, whose
  negation is the test that guards the last increment.
  \<open>unmarshal\<close> is \<^verbatim>\<open>json.Unmarshal\<close> into a \<^verbatim>\<open>HyperliquidNodeBlock\<close>.
\<close>

fun processLines ::
  "(string \<Rightarrow> HyperliquidNodeBlock option) \<Rightarrow> (string \<Rightarrow> int option) \<Rightarrow> int \<Rightarrow> bool \<Rightarrow>
   string list \<Rightarrow> nat \<Rightarrow> LocalNodeReader \<Rightarrow> nat \<times> LocalNodeReader" where
  "processLines unmarshal parseTime now truncated [] newPos r = (newPos, r)"
| "processLines unmarshal parseTime now truncated (raw # rest) newPos r =
     (let line = TrimSpace raw in
      if line = [] then processLines unmarshal parseTime now truncated rest newPos r
      else
        let newPos = (if rest \<noteq> [] then newPos + (length line + 1) else newPos) in
        if rest = [] \<and> truncated then processLines unmarshal parseTime now truncated rest newPos r
        else
          (case unmarshal line of
             None \<Rightarrow> processLines unmarshal parseTime now truncated rest newPos r
           | Some block \<Rightarrow>
               let r = processBlock parseTime now block r;
                   newPos = (if rest = [] \<and> \<not> truncated then newPos + length line else newPos)
               in processLines unmarshal parseTime now truncated rest newPos r))"

text \<open>
  \<^verbatim>\<open>readBlockFile\<close>. \<open>content\<close> is the file as it is on disk at the time of the call,
  \<open>avail\<close> the number of bytes \<^verbatim>\<open>file.Read\<close> is ready to deliver (at least the buffer
  size for an ordinary read; 0 stands for a read that fails). The local variables of the
  source that the statements below speak about are definitions of their own.
\<close>

definition remainingSize :: "string \<Rightarrow> nat \<Rightarrow> nat" where
  "remainingSize content fromPos =
     (if length content - fromPos > 100 * 1024 * 1024 then 100 * 1024 * 1024
      else length content - fromPos)"

definition bytesRead :: "string \<Rightarrow> nat \<Rightarrow> nat \<Rightarrow> nat" where
  "bytesRead content avail fromPos = min avail (remainingSize content fromPos)"

definition chunkRead :: "string \<Rightarrow> nat \<Rightarrow> nat \<Rightarrow> string" where
  "chunkRead content avail fromPos = take (bytesRead content avail fromPos) (drop fromPos content)"

definition capHit :: "string \<Rightarrow> nat \<Rightarrow> nat \<Rightarrow> bool" where
  "capHit content avail fromPos \<longleftrightarrow>
     bytesRead content avail fromPos = remainingSize content fromPos \<and>
     fromPos + bytesRead content avail fromPos < length content"

definition readBlockFile ::
  "(string \<Rightarrow> HyperliquidNodeBlock option) \<Rightarrow> (string \<Rightarrow> int option) \<Rightarrow> int \<Rightarrow>
   string \<Rightarrow> string \<Rightarrow> nat \<Rightarrow> nat \<Rightarrow> LocalNodeReader \<Rightarrow> LocalNodeReader" where
  "readBlockFile unmarshal parseTime now filePath content avail fromPos r =
     (if length content \<le> fromPos then r
      else if bytesRead content avail fromPos = 0 then r
      else
        let lines = Split (chunkRead content avail fromPos);
            (newPos, r) = processLines unmarshal parseTime now (capHit content avail fromPos)
                            lines fromPos r
        in r\<lparr>lastReadFiles := (lastReadFiles r)(filePath \<mapsto> newPos)\<rparr>)"

text \<open>
  \<^verbatim>\<open>lastReadPos, exists := r.lastReadFiles[filePath]\<close>: a path that is not in the table
  reads as position 0.
\<close>

definition lastReadPos :: "LocalNodeReader \<Rightarrow> string \<Rightarrow> nat" where
  "lastReadPos r filePath = (case lastReadFiles r filePath of None \<Rightarrow> 0 | Some pos \<Rightarrow> pos)"

text \<open>
  \<^verbatim>\<open>scanBlockFiles\<close>. The directory is the list of its plain files, each with its
  content and the bytes a read delivers, or \<open>None\<close> where \<^verbatim>\<open>os.Stat\<close> fails. Files are
  visited in the order of \<^verbatim>\<open>sort.Strings\<close> on their names. \<open>scanFile\<close> is the body of
  the loop.
\<close>

definition scanFile ::
  "(string \<Rightarrow> HyperliquidNodeBlock option) \<Rightarrow> (string \<Rightarrow> int option) \<Rightarrow> int \<Rightarrow>
   string \<Rightarrow> string \<times> (string \<times> nat) option \<Rightarrow> LocalNodeReader \<Rightarrow> LocalNodeReader" where
  "scanFile unmarshal parseTime now dirPath entry r =
     (let filePath = dirPath @ ''/'' @ fst entry in
      case snd entry of
        None \<Rightarrow> r
      | Some (content, avail) \<Rightarrow>
          if lastReadFiles r filePath = None \<or> length content > lastReadPos r filePath
          then readBlockFile unmarshal parseTime now filePath content avail
                 (lastReadPos r filePath) r
          else r)"

definition scanBlockFiles ::
  "(string \<Rightarrow> HyperliquidNodeBlock option) \<Rightarrow> (string \<Rightarrow> int option) \<Rightarrow> int \<Rightarrow>
   string \<Rightarrow> (string \<times> (string \<times> nat) option) list \<Rightarrow> LocalNodeReader \<Rightarrow> LocalNodeReader"
  where
  "scanBlockFiles unmarshal parseTime now dirPath entries r =
     fold (scanFile unmarshal parseTime now dirPath) (sort_key fst entries) r"


section \<open>Upstream connector: request/response correlation\<close>

record PostRequestBody =
  post_Type :: string
  Payload :: string

record PostResponse =
  resp_ID :: int
  resp_Type :: string
  resp_Payload :: string

text \<open>
  The \<^verbatim>\<open>json.RawMessage\<close> of a frame, by what the program puts there: bytes relayed
  from the source, the answer to a subscribe or unsubscribe (method and subscription), the
  error answer and the answer to a POST, an all-mids map, one trade.
\<close>

datatype data =
    NoData
  | RawData string
  | SubscriptionData string SubscriptionRequest
  | PostErrorData int string
  | PostResponseData PostResponse
  | AllMidsData "(string \<times> string) list"
  | TradeData WsTrade

record WSMessage =
  Method :: string
  msg_Subscription :: "SubscriptionRequest option"
  Channel :: string
  Data :: data
  ID :: "int option"
  Request :: "PostRequestBody option"

text \<open>
  The fields of \<^verbatim>\<open>Connector\<close> that requests touch. \<^verbatim>\<open>outgoingMessages\<close> is a buffered
  channel of capacity 1000; a slot of \<^verbatim>\<open>postRequests\<close> is a channel of capacity 1,
  modelled by its buffer. \<^verbatim>\<open>nextRequestID\<close> is an \<^verbatim>\<open>int64\<close>: its increment wraps.
\<close>

record Connector =
  isConnected :: bool
  outgoingMessages :: "WSMessage list"
  subscriptions :: "string \<rightharpoonup> SubscriptionRequest"
  postRequests :: "int \<rightharpoonup> PostResponse list"
  nextRequestID :: int

definition NewConnector :: Connector where
  "NewConnector =
     \<lparr>isConnected = False, outgoingMessages = [], subscriptions = Map.empty,
      postRequests = Map.empty, nextRequestID = 1\<rparr>"

datatype conn_error = NotConnected | SendTimeout | RequestTimeout


text \<open>
  \<^verbatim>\<open>sendMessage\<close>: the message enters the outgoing buffer at once when there is room;
  otherwise the select waits five seconds, and \<open>drained\<close> says whether the write pump
  takes a message off the buffer within that time.
\<close>

definition sendMessage :: "bool \<Rightarrow> WSMessage \<Rightarrow> Connector \<Rightarrow> conn_error option \<times> Connector"
  where
  "sendMessage drained message c =
     (if length (outgoingMessages c) < 1000
      then (None, c\<lparr>outgoingMessages := outgoingMessages c @ [message]\<rparr>)
      else if drained
      then (None, c\<lparr>outgoingMessages := tl (outgoingMessages c) @ [message]\<rparr>)
      else (Some SendTimeout, c))"

definition Subscribe ::
  "bool \<Rightarrow> SubscriptionRequest \<Rightarrow> Connector \<Rightarrow> conn_error option \<times> Connector" where
  "Subscribe drained subscription c =
     (if \<not> isConnected c then (Some NotConnected, c)
      else sendMessage drained
             \<lparr>Method = ''subscribe'', msg_Subscription = Some subscription, Channel = [],
              Data = NoData, ID = None, Request = None\<rparr>
             (c\<lparr>subscriptions :=
                  (subscriptions c)(createSubscriptionKey subscription \<mapsto> subscription)\<rparr>))"

definition Unsubscribe ::
  "bool \<Rightarrow> SubscriptionRequest \<Rightarrow> Connector \<Rightarrow> conn_error option \<times> Connector" where
  "Unsubscribe drained subscription c =
     (if \<not> isConnected c then (Some NotConnected, c)
      else sendMessage drained
             \<lparr>Method = ''unsubscribe'', msg_Subscription = Some subscription, Channel = [],
              Data = NoData, ID = None, Request = None\<rparr>
             (c\<lparr>subscriptions :=
                  (subscriptions c)(createSubscriptionKey subscription := None)\<rparr>))"

text \<open>
  \<^verbatim>\<open>handlePostResponse\<close>, run by the read pump: \<open>parsed\<close> is the frame as
  \<^verbatim>\<open>json.Unmarshal\<close> reads it into a \<^verbatim>\<open>PostResponse\<close>. The send on the slot does
  not block: a response for a slot that already holds one is dropped.
\<close>

definition handlePostResponse :: "int \<Rightarrow> PostResponse option \<Rightarrow> Connector \<Rightarrow> Connector" where
  "handlePostResponse requestID parsed c =
     (case postRequests c requestID of
        None \<Rightarrow> c
      | Some responseChan \<Rightarrow>
          (case parsed of
             None \<Rightarrow> c
           | Some response \<Rightarrow>
               if length responseChan < 1
               then c\<lparr>postRequests := (postRequests c)(requestID \<mapsto> responseChan @ [response])\<rparr>
               else c))"

text \<open>
  The read pump runs beside the callers: \<open>readPumpPosts\<close> is what it does with a
  sequence of POST frames, each given by its id and by what \<^verbatim>\<open>json.Unmarshal\<close> reads.
\<close>

definition readPumpPosts :: "(int \<times> PostResponse option) list \<Rightarrow> Connector \<Rightarrow> Connector" where
  "readPumpPosts frames c = fold (\<lambda>(i, parsed). handlePostResponse i parsed) frames c"

text \<open>
  \<^verbatim>\<open>PostRequest\<close> in its steps. \<open>postRegister\<close> is the section under \<^verbatim>\<open>postMu\<close> that
  takes the id and creates the slot, \<open>postMessage\<close> the frame that is sent, and
  \<open>postCleanup\<close> the deferred function.
  \<open>arrivals\<close> are the POST frames that the read pump handles while the call runs: first
  those it handles after the lock is released and before the request has entered the
  outgoing queue, second those it handles from then on until the thirty-second timer of
  the final select fires. The select returns the response in the slot if there is one,
  and the timeout otherwise.
\<close>

definition postRegister :: "Connector \<Rightarrow> int \<times> Connector" where
  "postRegister c =
     (let requestID = nextRequestID c
      in (requestID, c\<lparr>nextRequestID := wrap64 (requestID + 1),
                       postRequests := (postRequests c)(requestID \<mapsto> [])\<rparr>))"

definition postCleanup :: "int \<Rightarrow> Connector \<Rightarrow> Connector" where
  "postCleanup requestID c = c\<lparr>postRequests := (postRequests c)(requestID := None)\<rparr>"

definition postMessage :: "int \<Rightarrow> string \<Rightarrow> string \<Rightarrow> WSMessage" where
  "postMessage requestID requestType payload =
     \<lparr>Method = ''post'', msg_Subscription = None, Channel = [], Data = NoData,
      ID = Some requestID, Request = Some \<lparr>post_Type = requestType, Payload = payload\<rparr>\<rparr>"

definition PostRequest ::
  "bool \<Rightarrow> (int \<times> PostResponse option) list \<times> (int \<times> PostResponse option) list \<Rightarrow>
   string \<Rightarrow> string \<Rightarrow> Connector \<Rightarrow> (conn_error + PostResponse) \<times> Connector" where
  "PostRequest drained arrivals requestType payload c =
     (if \<not> isConnected c then (Inl NotConnected, c)
      else
        let (requestID, c) = postRegister c;
            c = readPumpPosts (fst arrivals) c;
            message = postMessage requestID requestType payload
        in case sendMessage drained message c of
             (Some err, c) \<Rightarrow> (Inl err, postCleanup requestID c)
           | (None, c) \<Rightarrow>
               let c = readPumpPosts (snd arrivals) c
               in (case postRequests c requestID of
                     Some (response # queued) \<Rightarrow> (Inr response, postCleanup requestID c)
                   | Some [] \<Rightarrow> (Inl RequestTimeout, postCleanup requestID c)
                   | None \<Rightarrow> (Inl RequestTimeout, postCleanup requestID c)))"

text \<open>
  A run of successive calls, each with its environment, and the request ids they are
  assigned in order (a call on a disconnected connector is assigned none).
\<close>

fun postCalls ::
  "(bool \<times> ((int \<times> PostResponse option) list \<times> (int \<times> PostResponse option) list)
      \<times> string \<times> string) list \<Rightarrow>
   Connector \<Rightarrow>
   int list \<times> Connector" where
  "postCalls [] c = ([], c)"
| "postCalls ((drained, arrivals, requestType, payload) # calls) c =
     (let assigned = (if isConnected c then [fst (postRegister c)] else []);
          (ids, c') = postCalls calls (snd (PostRequest drained arrivals requestType payload c))
      in (assigned @ ids, c'))"

section \<open>Client sessions and the hub (client.go)\<close>

text \<open>
  A \<^verbatim>\<open>*Client\<close> is a reference; the clients themselves live in a store. \<^verbatim>\<open>Send\<close> is a
  buffered channel of capacity 256, modelled by its queue (oldest frame first) and a flag
  that says whether it has been closed. What is put on it are marshalled frames: bytes
  relayed as they came, a \<^verbatim>\<open>WSMessage\<close>, or the error map.
\<close>

type_synonym client_ref = nat

datatype frame = Bytes string | Message WSMessage | ErrorMap string int

record Client =
  Send :: "frame list"
  SendClosed :: bool
  Subscriptions :: "string \<rightharpoonup> SubscriptionRequest"

definition NewClient :: Client where
  "NewClient = \<lparr>Send = [], SendClosed = False, Subscriptions = Map.empty\<rparr>"

text \<open>
  A send on a closed channel panics, also inside a select. A plain send on a full
  channel blocks until the write pump makes room; in this model of one handler at a
  time that is a result of its own.
\<close>

datatype fault = SendOnClosedChannel | BlockedOnFullChannel

definition bindF :: "fault + 'a \<Rightarrow> ('a \<Rightarrow> fault + 'b) \<Rightarrow> fault + 'b" where
  "bindF m f = (case m of Inl e \<Rightarrow> Inl e | Inr x \<Rightarrow> f x)"

text \<open>\<^verbatim>\<open>select { case c.Send <- data: ... default: ... }\<close>: the flag says which case ran.\<close>

definition trySend ::
  "client_ref \<Rightarrow> frame \<Rightarrow> (client_ref \<Rightarrow> Client) \<Rightarrow> fault + (bool \<times> (client_ref \<Rightarrow> Client))"
  where
  "trySend c data store =
     (if SendClosed (store c) then Inl SendOnClosedChannel
      else if length (Send (store c)) < 256
      then Inr (True, store(c := (store c)\<lparr>Send := Send (store c) @ [data]\<rparr>))
      else Inr (False, store))"

text \<open>\<^verbatim>\<open>c.Send <- data\<close> outside a select.\<close>

definition blockingSend ::
  "client_ref \<Rightarrow> frame \<Rightarrow> (client_ref \<Rightarrow> Client) \<Rightarrow> fault + (client_ref \<Rightarrow> Client)" where
  "blockingSend c data store =
     (if SendClosed (store c) then Inl SendOnClosedChannel
      else if length (Send (store c)) < 256
      then Inr (store(c := (store c)\<lparr>Send := Send (store c) @ [data]\<rparr>))
      else Inl BlockedOnFullChannel)"

section \<open>The proxy and its subscription registry (proxy.go)\<close>

text \<open>
  \<^verbatim>\<open>globalSubscriptions\<close> is a Go map that the publisher ranges over, in an order the
  language leaves open: it is an association list here, and a statement about every
  registry covers every order. \<^verbatim>\<open>Clients\<close>, a set of references, is a list for the
  same reason. Goroutines that were started and have not run yet are part of the state.
\<close>

record SubscriptionInfo =
  Subscription :: SubscriptionRequest
  Clients :: "client_ref list"
  LastMessage :: "frame option"
  LastUpdate :: int

datatype goroutine =
    UpstreamSubscribe client_ref SubscriptionRequest
  | UpstreamUnsubscribe SubscriptionRequest

record Proxy =
  hubClients :: "client_ref list"
  clients :: "client_ref \<Rightarrow> Client"
  allocated :: nat
  globalSubscriptions :: "(string \<times> SubscriptionInfo) list"
  useLocalNode :: bool
  hlConnector :: "Connector option"
  localNodeReader :: "LocalNodeReader option"
  goroutines :: "goroutine list"
  MessagesForwarded :: int
  PostRequestsHandled :: int

definition NewProxy :: "bool \<Rightarrow> Proxy" where
  "NewProxy enableLocalNode =
     \<lparr>hubClients = [], clients = (\<lambda>c. NewClient), allocated = 0, globalSubscriptions = [],
      useLocalNode = enableLocalNode,
      hlConnector = (if enableLocalNode then None else Some NewConnector),
      localNodeReader = (if enableLocalNode then Some (NewLocalNodeReader None) else None),
      goroutines = [], MessagesForwarded = 0, PostRequestsHandled = 0\<rparr>"

subsection \<open>The hub loop\<close>

text \<open>
  \<^verbatim>\<open>ServeWS\<close> builds a new client, whose reference is fresh, and hands it to the
  register case of \<^verbatim>\<open>Hub.Run\<close>.
\<close>

definition ServeWS :: "Proxy \<Rightarrow> Proxy" where
  "ServeWS p =
     (let c = allocated p
      in p\<lparr>allocated := Suc c, clients := (clients p)(c := NewClient),
            hubClients := (if c \<in> set (hubClients p) then hubClients p
                           else hubClients p @ [c])\<rparr>)"

text \<open>The unregister case of \<^verbatim>\<open>Hub.Run\<close>.\<close>

definition hubUnregister :: "client_ref \<Rightarrow> Proxy \<Rightarrow> Proxy" where
  "hubUnregister c p =
     (if c \<in> set (hubClients p)
      then p\<lparr>hubClients := removeAll c (hubClients p),
              clients := (clients p)(c := (clients p c)\<lparr>SendClosed := True\<rparr>)\<rparr>
      else p)"

text \<open>The broadcast case of \<^verbatim>\<open>Hub.Run\<close>: a client that cannot take the message is closed
  and dropped from the active set.\<close>

fun hubBroadcast :: "frame \<Rightarrow> client_ref list \<Rightarrow> Proxy \<Rightarrow> fault + Proxy" where
  "hubBroadcast message [] p = Inr p"
| "hubBroadcast message (c # cs) p =
     (case trySend c message (clients p) of
        Inl e \<Rightarrow> Inl e
      | Inr (True, store) \<Rightarrow> hubBroadcast message cs (p\<lparr>clients := store\<rparr>)
      | Inr (False, store) \<Rightarrow>
          hubBroadcast message cs
            (p\<lparr>clients := store(c := (store c)\<lparr>SendClosed := True\<rparr>),
               hubClients := removeAll c (hubClients p)\<rparr>))"

text \<open>One round of \<^verbatim>\<open>writePump\<close>: the first frame and all that are queued behind it go
  out in one write.\<close>

definition writePump :: "client_ref \<Rightarrow> Proxy \<Rightarrow> Proxy" where
  "writePump c p = p\<lparr>clients := (clients p)(c := (clients p c)\<lparr>Send := []\<rparr>)\<rparr>"

subsection \<open>Replies to one client\<close>

text \<open>\<^verbatim>\<open>Client.SendMessage\<close>: a non-blocking send whose error the callers ignore.\<close>

definition SendMessage :: "client_ref \<Rightarrow> frame \<Rightarrow> Proxy \<Rightarrow> fault + Proxy" where
  "SendMessage c message p =
     (case trySend c message (clients p) of
        Inl e \<Rightarrow> Inl e
      | Inr (sent, store) \<Rightarrow> Inr (p\<lparr>clients := store\<rparr>))"

definition sendErrorToClient :: "int \<Rightarrow> client_ref \<Rightarrow> string \<Rightarrow> Proxy \<Rightarrow> fault + Proxy" where
  "sendErrorToClient now c errorMsg p = SendMessage c (ErrorMap errorMsg now) p"

definition sendPostErrorToClient :: "client_ref \<Rightarrow> int \<Rightarrow> string \<Rightarrow> Proxy \<Rightarrow> fault + Proxy"
  where
  "sendPostErrorToClient c requestID errorMsg p =
     SendMessage c
       (Message \<lparr>Method = [], msg_Subscription = None, Channel = ''post'',
                 Data = PostErrorData requestID errorMsg, ID = None, Request = None\<rparr>) p"

definition subscriptionResponse :: "string \<Rightarrow> SubscriptionRequest \<Rightarrow> frame" where
  "subscriptionResponse method sub =
     Message \<lparr>Method = [], msg_Subscription = None, Channel = ''subscriptionResponse'',
              Data = SubscriptionData method sub, ID = None, Request = None\<rparr>"

definition tradesMessage :: "WsTrade \<Rightarrow> frame" where
  "tradesMessage trade =
     Message \<lparr>Method = [], msg_Subscription = None, Channel = ''trades'',
              Data = TradeData trade, ID = None, Request = None\<rparr>"

subsection \<open>Subscribe and unsubscribe\<close>

definition GetLatestTrades :: "LocalNodeReader \<Rightarrow> string \<Rightarrow> nat \<Rightarrow> WsTrade list" where
  "GetLatestTrades r coin limit =
     (case latestTrades r coin of
        None \<Rightarrow> []
      | Some trades \<Rightarrow>
          if limit > 0 \<and> length trades > limit then drop (length trades - limit) trades
          else trades)"

definition localCoins :: "string list" where
  "localCoins = [''BTC'', ''ETH'', ''SOL'', ''MATIC'', ''ARB'', ''OP'', ''AVAX'', ''ATOM'',
                 ''NEAR'', ''APT'', ''LTC'', ''BCH'', ''XRP'', ''SUI'', ''SEI'']"

definition allPrices :: "LocalNodeReader \<Rightarrow> (string \<times> string) list" where
  "allPrices r =
     List.map_filter (\<lambda>coin. map_option (Pair coin) (latestPrices r coin)) localCoins"

fun sendTrades :: "client_ref \<Rightarrow> WsTrade list \<Rightarrow> Proxy \<Rightarrow> fault + Proxy" where
  "sendTrades c [] p = Inr p"
| "sendTrades c (trade # trades) p =
     (case blockingSend c (tradesMessage trade) (clients p) of
        Inl e \<Rightarrow> Inl e
      | Inr store \<Rightarrow> sendTrades c trades (p\<lparr>clients := store\<rparr>))"

definition sendInitialLocalNodeData ::
  "LocalNodeReader \<Rightarrow> client_ref \<Rightarrow> SubscriptionRequest \<Rightarrow> Proxy \<Rightarrow> fault + Proxy" where
  "sendInitialLocalNodeData r c sub p =
     (if Type sub = ''allMids''
      then (if allPrices r \<noteq> []
            then SendMessage c
                   (Message \<lparr>Method = [], msg_Subscription = None, Channel = ''allMids'',
                             Data = AllMidsData (allPrices r), ID = None, Request = None\<rparr>) p
            else Inr p)
      else if Type sub = ''trades''
      then (if Coin sub \<noteq> [] then sendTrades c (GetLatestTrades r (Coin sub) 5) p else Inr p)
      else Inr p)"

text \<open>
  The two statements that \<^verbatim>\<open>handleUnsubscribe\<close> and the clean-up of the publisher run
  on an entry: take the client out of its set and delete the entry when the set is
  empty.
\<close>

definition dropClient ::
  "client_ref \<Rightarrow> string \<Rightarrow> (string \<times> SubscriptionInfo) list \<Rightarrow>
   (string \<times> SubscriptionInfo) list" where
  "dropClient c key registry =
     (case map_of registry key of
        None \<Rightarrow> registry
      | Some subInfo \<Rightarrow>
          let remaining = removeAll c (Clients subInfo)
          in if remaining = [] then AList.delete key registry
             else AList.update key (subInfo\<lparr>Clients := remaining\<rparr>) registry)"

text \<open>
  \<^verbatim>\<open>handleSubscribe\<close> in its steps. \<open>registerSubscription\<close> is the section under the
  registry lock followed by \<^verbatim>\<open>c.AddSubscription\<close>: the entry is created when the key
  is new, the client joins its set, and the goroutine that subscribes upstream is
  started, not run (it is \<open>runGoroutine\<close> below). \<open>sendInitialData\<close> is the end of the
  function: the snapshot of the local node, or the last message of the entry, which is
  sent with a plain send.
\<close>

definition registerSubscription ::
  "int \<Rightarrow> client_ref \<Rightarrow> SubscriptionRequest \<Rightarrow> Proxy \<Rightarrow> Proxy" where
  "registerSubscription now c sub p =
     (let key = createSubscriptionKey sub;
          existing = map_of (globalSubscriptions p) key;
          subInfo = (case existing of
                       None \<Rightarrow> \<lparr>Subscription = sub, Clients = [], LastMessage = None,
                                LastUpdate = now\<rparr>
                     | Some found \<Rightarrow> found);
          started = (if existing = None \<and> \<not> useLocalNode p \<and> hlConnector p \<noteq> None
                     then [UpstreamSubscribe c sub] else []);
          subInfo = subInfo\<lparr>Clients := (if c \<in> set (Clients subInfo) then Clients subInfo
                                          else Clients subInfo @ [c])\<rparr>
      in p\<lparr>globalSubscriptions := AList.update key subInfo (globalSubscriptions p),
            goroutines := goroutines p @ started,
            clients := (clients p)
              (c := (clients p c)\<lparr>Subscriptions :=
                                     (Subscriptions (clients p c))(key \<mapsto> sub)\<rparr>)\<rparr>)"

definition sendInitialData ::
  "client_ref \<Rightarrow> SubscriptionRequest \<Rightarrow> Proxy \<Rightarrow> fault + Proxy" where
  "sendInitialData c sub p =
     (case (useLocalNode p, localNodeReader p) of
        (True, Some r) \<Rightarrow> sendInitialLocalNodeData r c sub p
      | other \<Rightarrow>
          (case map_of (globalSubscriptions p) (createSubscriptionKey sub) of
             None \<Rightarrow> Inr p
           | Some subInfo \<Rightarrow>
               (case LastMessage subInfo of
                  None \<Rightarrow> Inr p
                | Some lastMessage \<Rightarrow>
                    (case blockingSend c lastMessage (clients p) of
                       Inl e \<Rightarrow> Inl e
                     | Inr store \<Rightarrow> Inr (p\<lparr>clients := store\<rparr>)))))"

definition handleSubscribe ::
  "int \<Rightarrow> client_ref \<Rightarrow> SubscriptionRequest option \<Rightarrow> Proxy \<Rightarrow> fault + Proxy" where
  "handleSubscribe now c subscription p =
     (case subscription of
        None \<Rightarrow> sendErrorToClient now c ''Missing subscription details'' p
      | Some sub \<Rightarrow>
          bindF (SendMessage c (subscriptionResponse ''subscribe'' sub)
                   (registerSubscription now c sub p))
            (sendInitialData c sub))"

text \<open>
  \<^verbatim>\<open>handleUnsubscribe\<close>: \<open>removeSubscription\<close> is the section under the lock followed
  by \<^verbatim>\<open>c.RemoveSubscription\<close>; when the entry goes, the goroutine that unsubscribes
  upstream is started.
\<close>

definition removeSubscription :: "client_ref \<Rightarrow> SubscriptionRequest \<Rightarrow> Proxy \<Rightarrow> Proxy" where
  "removeSubscription c sub p =
     (let key = createSubscriptionKey sub;
          registry = dropClient c key (globalSubscriptions p);
          started = (if map_of (globalSubscriptions p) key \<noteq> None
                        \<and> map_of registry key = None
                        \<and> \<not> useLocalNode p \<and> hlConnector p \<noteq> None
                     then [UpstreamUnsubscribe sub] else [])
      in p\<lparr>globalSubscriptions := registry,
            goroutines := goroutines p @ started,
            clients := (clients p)
              (c := (clients p c)\<lparr>Subscriptions :=
                                     (Subscriptions (clients p c))(key := None)\<rparr>)\<rparr>)"

definition handleUnsubscribe ::
  "int \<Rightarrow> client_ref \<Rightarrow> SubscriptionRequest option \<Rightarrow> Proxy \<Rightarrow> fault + Proxy" where
  "handleUnsubscribe now c subscription p =
     (case subscription of
        None \<Rightarrow> sendErrorToClient now c ''Missing subscription details'' p
      | Some sub \<Rightarrow>
          SendMessage c (subscriptionResponse ''unsubscribe'' sub) (removeSubscription c sub p))"

subsection \<open>Publishing: \<^verbatim>\<open>forwardMessageToClients\<close>\<close>

text \<open>
  \<^verbatim>\<open>clientsToRemove\<close> maps a client to the keys of the entries where the send did not
  go through, in the order they were met.
\<close>

definition markForRemoval ::
  "client_ref \<Rightarrow> string \<Rightarrow> (client_ref \<times> string list) list \<Rightarrow>
   (client_ref \<times> string list) list" where
  "markForRemoval c key clientsToRemove =
     (case map_of clientsToRemove c of
        None \<Rightarrow> clientsToRemove @ [(c, [key])]
      | Some keys \<Rightarrow> AList.update c (keys @ [key]) clientsToRemove)"

text \<open>The inner loop over the clients of one entry.\<close>

fun forwardToClients ::
  "string \<Rightarrow> frame \<Rightarrow> client_ref list \<Rightarrow>
   (client_ref \<Rightarrow> Client) \<times> nat \<times> (client_ref \<times> string list) list \<Rightarrow>
   fault + (client_ref \<Rightarrow> Client) \<times> nat \<times> (client_ref \<times> string list) list" where
  "forwardToClients key data [] acc = Inr acc"
| "forwardToClients key data (c # cs) (store, forwardedCount, clientsToRemove) =
     (case trySend c data store of
        Inl e \<Rightarrow> Inl e
      | Inr (True, store) \<Rightarrow>
          forwardToClients key data cs (store, forwardedCount + 1, clientsToRemove)
      | Inr (False, store) \<Rightarrow>
          forwardToClients key data cs
            (store, forwardedCount, markForRemoval c key clientsToRemove))"

text \<open>The outer loop over the registry: an entry of the channel's type gets the message
  as its last message and is forwarded to.\<close>

fun forwardToEntries ::
  "string \<Rightarrow> frame \<Rightarrow> int \<Rightarrow> (string \<times> SubscriptionInfo) list \<Rightarrow>
   (client_ref \<Rightarrow> Client) \<times> nat \<times> (client_ref \<times> string list) list \<Rightarrow>
   fault + (string \<times> SubscriptionInfo) list \<times>
           (client_ref \<Rightarrow> Client) \<times> nat \<times> (client_ref \<times> string list) list" where
  "forwardToEntries channel data now [] acc = Inr ([], acc)"
| "forwardToEntries channel data now ((key, subInfo) # entries) acc =
     (if Type (Subscription subInfo) = channel
      then (case forwardToClients key data (Clients subInfo) acc of
              Inl e \<Rightarrow> Inl e
            | Inr acc \<Rightarrow>
                (case forwardToEntries channel data now entries acc of
                   Inl e \<Rightarrow> Inl e
                 | Inr (entries, acc) \<Rightarrow>
                     Inr ((key, subInfo\<lparr>LastMessage := Some data, LastUpdate := now\<rparr>)
                            # entries, acc)))
      else (case forwardToEntries channel data now entries acc of
              Inl e \<Rightarrow> Inl e
            | Inr (entries, acc) \<Rightarrow> Inr ((key, subInfo) # entries, acc)))"

text \<open>The clean-up loop: for each marked client, for each of its keys.\<close>

definition cleanUp ::
  "(client_ref \<times> string list) list \<Rightarrow> (string \<times> SubscriptionInfo) list \<Rightarrow>
   (string \<times> SubscriptionInfo) list" where
  "cleanUp clientsToRemove registry =
     fold (\<lambda>(client, subscriptionKeys) registry.
             fold (dropClient client) subscriptionKeys registry)
       clientsToRemove registry"

definition forwardMessageToClients :: "int \<Rightarrow> string \<Rightarrow> frame \<Rightarrow> Proxy \<Rightarrow> fault + Proxy" where
  "forwardMessageToClients now channel data p =
     (case forwardToEntries channel data now (globalSubscriptions p) (clients p, 0, []) of
        Inl e \<Rightarrow> Inl e
      | Inr (registry, store, forwardedCount, clientsToRemove) \<Rightarrow>
          Inr (p\<lparr>globalSubscriptions := cleanUp clientsToRemove registry,
                 clients := store,
                 MessagesForwarded := wrap64 (MessagesForwarded p + int forwardedCount)\<rparr>))"

subsection \<open>Frames from a client\<close>

definition errorText :: "conn_error \<Rightarrow> string" where
  "errorText e =
     (case e of
        NotConnected \<Rightarrow> ''not connected to Hyperliquid''
      | SendTimeout \<Rightarrow> ''send timeout''
      | RequestTimeout \<Rightarrow> ''request timeout'')"

definition handlePostRequest ::
  "bool \<Rightarrow> (int \<times> PostResponse option) list \<times> (int \<times> PostResponse option) list \<Rightarrow>
   int \<Rightarrow> client_ref \<Rightarrow> WSMessage \<Rightarrow> Proxy \<Rightarrow>
   fault + Proxy" where
  "handlePostRequest drained arrivals now c msg p =
     (case (Request msg, ID msg) of
        (Some request, Some requestID) \<Rightarrow>
          if useLocalNode p
          then sendPostErrorToClient c requestID
                 ''POST requests not supported in local node mode'' p
          else (case hlConnector p of
                  None \<Rightarrow> sendPostErrorToClient c requestID
                            ''Hyperliquid connector not available'' p
                | Some connector \<Rightarrow>
                    (case PostRequest drained arrivals (post_Type request) (Payload request)
                            connector of
                       (Inl err, connector) \<Rightarrow>
                         sendPostErrorToClient c requestID (errorText err)
                           (p\<lparr>hlConnector := Some connector\<rparr>)
                     | (Inr response, connector) \<Rightarrow>
                         bindF (SendMessage c
                                  (Message \<lparr>Method = [], msg_Subscription = None,
                                            Channel = ''post'', Data = PostResponseData response,
                                            ID = None, Request = None\<rparr>)
                                  (p\<lparr>hlConnector := Some connector\<rparr>))
                           (\<lambda>p. Inr (p\<lparr>PostRequestsHandled := wrap64 (PostRequestsHandled p + 1)\<rparr>))))
      | incomplete \<Rightarrow> sendErrorToClient now c ''Invalid POST request format'' p)"

text \<open>
  \<^verbatim>\<open>handleClientMessage\<close>. \<open>unmarshal\<close> is \<^verbatim>\<open>json.Unmarshal\<close> into a
  \<^verbatim>\<open>WSMessage\<close>: \<open>None\<close> for bytes that do not decode.
\<close>

definition handleClientMessage ::
  "(string \<Rightarrow> WSMessage option) \<Rightarrow> bool \<Rightarrow>
   (int \<times> PostResponse option) list \<times> (int \<times> PostResponse option) list \<Rightarrow> int \<Rightarrow>
   client_ref \<Rightarrow> string \<Rightarrow> Proxy \<Rightarrow> fault + Proxy" where
  "handleClientMessage unmarshal drained arrivals now c data p =
     (case unmarshal data of
        None \<Rightarrow> sendErrorToClient now c ''Invalid message format'' p
      | Some msg \<Rightarrow>
          if Method msg = ''subscribe'' then handleSubscribe now c (msg_Subscription msg) p
          else if Method msg = ''unsubscribe''
            then handleUnsubscribe now c (msg_Subscription msg) p
          else if Method msg = ''post'' then handlePostRequest drained arrivals now c msg p
          else sendErrorToClient now c (''Unknown method: '' @ Method msg) p)"

subsection \<open>Goroutines and runs\<close>

text \<open>
  The bodies of the two goroutines. A failed upstream subscribe tells the client and
  deletes the entry of the key.
\<close>

definition runGoroutine :: "bool \<Rightarrow> int \<Rightarrow> goroutine \<Rightarrow> Proxy \<Rightarrow> fault + Proxy" where
  "runGoroutine drained now g p =
     (case hlConnector p of
        None \<Rightarrow> Inr p
      | Some connector \<Rightarrow>
          (case g of
             UpstreamSubscribe c sub \<Rightarrow>
               (case Subscribe drained sub connector of
                  (None, connector) \<Rightarrow> Inr (p\<lparr>hlConnector := Some connector\<rparr>)
                | (Some err, connector) \<Rightarrow>
                    bindF (sendErrorToClient now c (''Failed to subscribe: '' @ errorText err)
                             (p\<lparr>hlConnector := Some connector\<rparr>))
                      (\<lambda>p. Inr (p\<lparr>globalSubscriptions :=
                                     AList.delete (createSubscriptionKey sub)
                                       (globalSubscriptions p)\<rparr>)))
           | UpstreamUnsubscribe sub \<Rightarrow>
               Inr (p\<lparr>hlConnector := Some (snd (Unsubscribe drained sub connector))\<rparr>)))"

text \<open>
  What can happen to a running proxy, one event at a time: a client connects; its read
  pump ends and unregisters it; a frame of a connected client is handled; the scheduler
  runs the i-th waiting goroutine; the source publishes a message on a channel; a write
  pump empties a queue. A frame can still be handled after its client was unregistered.
\<close>

datatype event =
    Connects
  | Leaves client_ref
  | Frame client_ref string int bool
      "(int \<times> PostResponse option) list \<times> (int \<times> PostResponse option) list"
  | Scheduled nat bool int
  | Publishes string frame int
  | Writes client_ref

definition step :: "(string \<Rightarrow> WSMessage option) \<Rightarrow> event \<Rightarrow> Proxy \<Rightarrow> fault + Proxy" where
  "step unmarshal ev p =
     (case ev of
        Connects \<Rightarrow> Inr (ServeWS p)
      | Leaves c \<Rightarrow> Inr (hubUnregister c p)
      | Frame c data now drained arrivals \<Rightarrow>
          if c < allocated p then handleClientMessage unmarshal drained arrivals now c data p
          else Inr p
      | Scheduled i drained now \<Rightarrow>
          if i < length (goroutines p)
          then runGoroutine drained now (goroutines p ! i)
                 (p\<lparr>goroutines := take i (goroutines p) @ drop (Suc i) (goroutines p)\<rparr>)
          else Inr p
      | Publishes channel data now \<Rightarrow> forwardMessageToClients now channel data p
      | Writes c \<Rightarrow> Inr (writePump c p))"

fun run :: "(string \<Rightarrow> WSMessage option) \<Rightarrow> event list \<Rightarrow> Proxy \<Rightarrow> fault + Proxy" where
  "run unmarshal [] p = Inr p"
| "run unmarshal (ev # evs) p =
     (case step unmarshal ev p of Inl e \<Rightarrow> Inl e | Inr p \<Rightarrow> run unmarshal evs p)"

section \<open>Notions used in the statements\<close>

text \<open>The pairs (client, key) that \<^verbatim>\<open>clientsToRemove\<close> records.\<close>

definition markedPairs :: "(client_ref \<times> string list) list \<Rightarrow> (client_ref \<times> string) set" where
  "markedPairs clientsToRemove = {(c, key). \<exists>keys. (c, keys) \<in> set clientsToRemove \<and> key \<in> set keys}"

text \<open>A queue that takes no further frame: open, and at its capacity.\<close>

definition queueFull :: "Client \<Rightarrow> bool" where
  "queueFull cl \<longleftrightarrow> \<not> SendClosed cl \<and> length (Send cl) = 256"

text \<open>
  The registry as a map. The association list stands for a Go map, so its keys are
  distinct; \<open>noEmptyEntry\<close> says that no entry has an empty set of clients.
\<close>

definition entryOf :: "Proxy \<Rightarrow> string \<Rightarrow> SubscriptionInfo option" where
  "entryOf p key = map_of (globalSubscriptions p) key"

definition noEmptyEntry :: "(string \<times> SubscriptionInfo) list \<Rightarrow> bool" where
  "noEmptyEntry registry \<longleftrightarrow>
     distinct (map fst registry) \<and> list_all (\<lambda>(key, subInfo). Clients subInfo \<noteq> []) registry"


text \<open>The registry with the published message stored in every entry of the channel's type.\<close>

definition withLastMessage ::
  "string \<Rightarrow> frame \<Rightarrow> int \<Rightarrow> (string \<times> SubscriptionInfo) list \<Rightarrow>
   (string \<times> SubscriptionInfo) list" where
  "withLastMessage channel data now registry =
     map (\<lambda>(key, subInfo).
            (key, if Type (Subscription subInfo) = channel
                  then subInfo\<lparr>LastMessage := Some data, LastUpdate := now\<rparr>
                  else subInfo))
       registry"

text \<open>The deliveries a publish on the channel attempts: client and key of its entry.\<close>

definition deliveries ::
  "string \<Rightarrow> (string \<times> SubscriptionInfo) list \<Rightarrow> (client_ref \<times> string) set" where
  "deliveries channel registry =
     {(c, key). \<exists>subInfo. (key, subInfo) \<in> set registry
                 \<and> Type (Subscription subInfo) = channel \<and> c \<in> set (Clients subInfo)}"

text \<open>The second proxy is the first one except for the outbound queue of the client.\<close>

definition sameButQueue :: "client_ref \<Rightarrow> Proxy \<Rightarrow> Proxy \<Rightarrow> bool" where
  "sameButQueue c p p' \<longleftrightarrow>
     (\<exists>queue. p' = p\<lparr>clients := (clients p)(c := (clients p c)\<lparr>Send := queue\<rparr>)\<rparr>)"

text \<open>Every entry of the second registry comes from an entry of the first under the same
  key, with the same subscription and no new client.\<close>

definition shrinksTo ::
  "(string \<times> SubscriptionInfo) list \<Rightarrow> (string \<times> SubscriptionInfo) list \<Rightarrow> bool" where
  "shrinksTo registry registry' \<longleftrightarrow>
     (\<forall>key subInfo'. map_of registry' key = Some subInfo' \<longrightarrow>
        (\<exists>subInfo. map_of registry key = Some subInfo
           \<and> Subscription subInfo' = Subscription subInfo
           \<and> set (Clients subInfo') \<subseteq> set (Clients subInfo)))"

text \<open>The event is a frame of another session that asks to subscribe under the key.\<close>

definition subscribesOther ::
  "(string \<Rightarrow> WSMessage option) \<Rightarrow> client_ref \<Rightarrow> string \<Rightarrow> event \<Rightarrow> bool" where
  "subscribesOther unmarshal c key ev =
     (case ev of
        Frame c' data now drained arrivals \<Rightarrow>
          c' \<noteq> c \<and>
          (case unmarshal data of
             None \<Rightarrow> False
           | Some msg \<Rightarrow>
               Method msg = ''subscribe'' \<and>
               (case msg_Subscription msg of
                  None \<Rightarrow> False
                | Some sub \<Rightarrow> createSubscriptionKey sub = key))
      | other \<Rightarrow> False)"

text \<open>The entry under the key, if there is one, holds no client but this one.\<close>

definition onlyClient :: "client_ref \<Rightarrow> string \<Rightarrow> (string \<times> SubscriptionInfo) list \<Rightarrow> bool" where
  "onlyClient c key registry \<longleftrightarrow>
     (case map_of registry key of
        None \<Rightarrow> True
      | Some subInfo \<Rightarrow> set (Clients subInfo) \<subseteq> {c})"

text \<open>
  \<^verbatim>\<open>r.latestTrades[symbol]\<close> as the source reads it: a symbol that is not in the map
  gives the empty slice.
\<close>

definition ringOf :: "LocalNodeReader \<Rightarrow> string \<Rightarrow> WsTrade list" where
  "ringOf r coin = (case latestTrades r coin of None \<Rightarrow> [] | Some ts \<Rightarrow> ts)"

text \<open>The orders among a list whose asset the reader resolves to the coin.\<close>

definition ordersOf :: "LocalNodeReader \<Rightarrow> string \<Rightarrow> Order list \<Rightarrow> Order list" where
  "ordersOf r coin orders = filter (\<lambda>order. getAssetSymbol r (Asset order) = coin) orders"



section \<open>Sample data\<close>

text \<open>Metadata answers and tables used in the concrete statements below.\<close>

definition sampleBTC :: PerpMeta where
  "sampleBTC = \<lparr>pm_name = ''BTC'', pm_szDecimals = 5, pm_maxLeverage = 50\<rparr>"

definition sampleETH :: PerpMeta where
  "sampleETH = \<lparr>pm_name = ''ETH'', pm_szDecimals = 4, pm_maxLeverage = 50\<rparr>"

definition sampleSOL :: PerpMeta where
  "sampleSOL = \<lparr>pm_name = ''SOL'', pm_szDecimals = 2, pm_maxLeverage = 20\<rparr>"

definition sampleSpotMeta :: HyperliquidSpotMetaResponse where
  "sampleSpotMeta =
     \<lparr>Tokens = [\<lparr>tk_name = ''USDC'', tk_index = 0, tk_szDecimals = 8\<rparr>,
                \<lparr>tk_name = ''PURR'', tk_index = 1, tk_szDecimals = 0\<rparr>],
      Universe = [\<lparr>sp_name = ''PURR/USDC'', sp_tokens = [1, 0], sp_index = 5\<rparr>]\<rparr>"

text \<open>The tables after a first refresh that answered BTC and ETH and the spot pair 5.\<close>

definition sampleTables :: AssetFetcher where
  "sampleTables =
     snd (fetchAssets 0 (Response 200 (Some [sampleBTC, sampleETH]))
            (Response 200 (Some sampleSpotMeta)) NewAssetFetcher)"

definition sampleOrder :: Order where
  "sampleOrder = \<lparr>Asset = 0, IsBuy = True, Price = ''100.5'', Size = ''2.0'',
                   ReduceOnly = False, TIF = ''Gtc'', ClientOrderID = []\<rparr>"

text \<open>A second order, a sale of ETH, and an action that carries both orders.\<close>

definition sampleSell :: Order where
  "sampleSell = \<lparr>Asset = 1, IsBuy = False, Price = ''3000'', Size = ''0.1'',
                  ReduceOnly = False, TIF = ''Gtc'', ClientOrderID = []\<rparr>"

definition sampleAction2 :: SignedAction where
  "sampleAction2 =
     \<lparr>VaultAddress = [],
      Action = \<lparr>action_Type = ''order'', Orders = [sampleOrder, sampleSell], Cancels = [],
                Grouping = ''na'', action_Time = 0\<rparr>,
      Nonce = 2\<rparr>"

text \<open>A connector that has connected, and two answers of the upstream to request 1.\<close>

definition sampleConnected :: Connector where
  "sampleConnected = NewConnector\<lparr>isConnected := True\<rparr>"

definition sampleAnswer :: PostResponse where
  "sampleAnswer = \<lparr>resp_ID = 1, resp_Type = ''info'', resp_Payload = ''[1]''\<rparr>"

definition sampleLateAnswer :: PostResponse where
  "sampleLateAnswer = \<lparr>resp_ID = 1, resp_Type = ''error'', resp_Payload = ''late''\<rparr>"

text \<open>
  A decoder for the concrete statements: it accepts the text \<open>{}\<close>, which
  \<^verbatim>\<open>json.Unmarshal\<close> decodes into a block with every field zero, and nothing else.
\<close>

definition sampleUnmarshal :: "string \<Rightarrow> HyperliquidNodeBlock option" where
  "sampleUnmarshal line =
     (if line = ''{}''
      then Some \<lparr>block_Time = [], SignedActionBundles = [], Round = 0, ParentRound = 0,
                 Proposer = []\<rparr>
      else None)"

definition sampleReader :: LocalNodeReader where
  "sampleReader = (NewLocalNodeReader (Some sampleTables))\<lparr>isRunning := True\<rparr>"

text \<open>
  A proxy in upstream mode with one session, reference 0, subscribed to the trades of BTC
  and to all mids, whose outbound queue holds 256 frames that its write pump has not
  taken yet.
\<close>

definition sampleTradesBTC :: SubscriptionRequest where
  "sampleTradesBTC = \<lparr>Type = ''trades'', User = [], Coin = ''BTC'', Interval = [], Dex = [],
                       NSigFigs = None, Mantissa = None, AggregateByTime = None\<rparr>"

definition sampleAllMids :: SubscriptionRequest where
  "sampleAllMids = \<lparr>Type = ''allMids'', User = [], Coin = [], Interval = [], Dex = [],
                     NSigFigs = None, Mantissa = None, AggregateByTime = None\<rparr>"

definition sampleFullProxy :: Proxy where
  "sampleFullProxy =
     (NewProxy False)
       \<lparr>hubClients := [0],
        clients := (\<lambda>c. NewClient)
          (0 := \<lparr>Send = replicate 256 (Bytes ''x''), SendClosed = False,
                 Subscriptions = [''trades-BTC'' \<mapsto> sampleTradesBTC,
                                  ''allMids'' \<mapsto> sampleAllMids]\<rparr>),
        allocated := 1,
        globalSubscriptions :=
          [(''trades-BTC'', \<lparr>Subscription = sampleTradesBTC, Clients = [0],
                              LastMessage = None, LastUpdate = 0\<rparr>),
           (''allMids'', \<lparr>Subscription = sampleAllMids, Clients = [0],
                           LastMessage = None, LastUpdate = 0\<rparr>)]\<rparr>"

text \<open>Two subscriptions with different fields: a user "a-b", and a user "a" with coin "b".\<close>

definition sampleDashedUser :: SubscriptionRequest where
  "sampleDashedUser = \<lparr>Type = ''userFills'', User = ''a-b'', Coin = [], Interval = [], Dex = [],
                        NSigFigs = None, Mantissa = None, AggregateByTime = None\<rparr>"

definition sampleUserAndCoin :: SubscriptionRequest where
  "sampleUserAndCoin = \<lparr>Type = ''userFills'', User = ''a'', Coin = ''b'', Interval = [], Dex = [],
                         NSigFigs = None, Mantissa = None, AggregateByTime = None\<rparr>"


text \<open>A decoder that reads two frames: "S" subscribes to all mids, "U" unsubscribes.\<close>

definition sampleDecode :: "string \<Rightarrow> WSMessage option" where
  "sampleDecode data =
     (if data = ''S''
      then Some \<lparr>Method = ''subscribe'', msg_Subscription = Some sampleAllMids, Channel = [],
                 Data = NoData, ID = None, Request = None\<rparr>
      else if data = ''U''
      then Some \<lparr>Method = ''unsubscribe'', msg_Subscription = Some sampleAllMids, Channel = [],
                 Data = NoData, ID = None, Request = None\<rparr>
      else None)"

text \<open>A spot answer with one pair that is neither the first nor the PURR pair: its name is @7.\<close>

definition sampleSpotMeta7 :: HyperliquidSpotMetaResponse where
  "sampleSpotMeta7 =
     \<lparr>Tokens = [], Universe = [\<lparr>sp_name = ''HYPE/USDC'', sp_tokens = [150, 0], sp_index = 7\<rparr>]\<rparr>"


section \<open>The asset tables across a refresh\<close>

lemma wrap64_in_range: "- (2 ^ 63) \<le> x \<Longrightarrow> x < 2 ^ 63 \<Longrightarrow> wrap64 x = x"
  by (simp add: wrap64_def)

lemma storePerpetuals_spot: "spotAssets (storePerpetuals i us af) = spotAssets af"
  by (induction i us af rule: storePerpetuals.induct) (simp_all add: Let_def)

lemma storePerpetuals_lastUpdated: "lastUpdated (storePerpetuals i us af) = lastUpdated af"
  by (induction i us af rule: storePerpetuals.induct) (simp_all add: Let_def)

lemma storePerpetuals_append:
  "storePerpetuals i (xs @ ys) af
     = storePerpetuals (i + int (length xs)) ys (storePerpetuals i xs af)"
  by (induction i xs af rule: storePerpetuals.induct) (simp_all add: Let_def add.assoc)

lemma storePerpetuals_perp_other:
  "k < i \<or> i + int (length us) \<le> k \<Longrightarrow> perpAssets (storePerpetuals i us af) k = perpAssets af k"
  by (induction i us af rule: storePerpetuals.induct) (auto simp: Let_def)

lemma storePerpetuals_perp_stored:
  "perpAssets (storePerpetuals i (before @ asset # after) af) (i + int (length before)) =
     Some \<lparr>Index = i + int (length before), Name = pm_name asset,
           SzDecimals = pm_szDecimals asset, MaxLeverage = pm_maxLeverage asset,
           IsSpot = False, TokenIndex = 0\<rparr>"
  by (simp add: storePerpetuals_append Let_def storePerpetuals_perp_other)

lemma storePerpetuals_name_other:
  "n \<notin> pm_name ` set us \<Longrightarrow> assetsByName (storePerpetuals i us af) n = assetsByName af n"
  by (induction i us af rule: storePerpetuals.induct) (auto simp: Let_def)

lemma storePerpetuals_name_stored:
  "pm_name asset \<notin> pm_name ` set after \<Longrightarrow>
   assetsByName (storePerpetuals i (before @ asset # after) af) (pm_name asset) =
     Some \<lparr>Index = i + int (length before), Name = pm_name asset,
           SzDecimals = pm_szDecimals asset, MaxLeverage = pm_maxLeverage asset,
           IsSpot = False, TokenIndex = 0\<rparr>"
  by (simp add: storePerpetuals_append Let_def storePerpetuals_name_other)

lemma storeSpotPairs_perp: "perpAssets (storeSpotPairs tm ps af) = perpAssets af"
  by (induction tm ps af rule: storeSpotPairs.induct) (simp_all add: Let_def)

lemma storeSpotPairs_lastUpdated: "lastUpdated (storeSpotPairs tm ps af) = lastUpdated af"
  by (induction tm ps af rule: storeSpotPairs.induct) (simp_all add: Let_def)

lemma storeSpotPairs_append:
  "storeSpotPairs tm (xs @ ys) af = storeSpotPairs tm ys (storeSpotPairs tm xs af)"
  by (induction tm xs af rule: storeSpotPairs.induct) (simp_all add: Let_def)

lemma storeSpotPairs_spot_other:
  "k \<notin> (\<lambda>p. wrap64 (10000 + sp_index p)) ` set ps \<Longrightarrow>
   spotAssets (storeSpotPairs tm ps af) k = spotAssets af k"
  by (induction tm ps af rule: storeSpotPairs.induct) (auto simp: Let_def)

lemma storeSpotPairs_spot_stored:
  "wrap64 (10000 + sp_index pair) \<notin> (\<lambda>p. wrap64 (10000 + sp_index p)) ` set after \<Longrightarrow>
   spotAssets (storeSpotPairs tm (before @ pair # after) af) (wrap64 (10000 + sp_index pair)) =
     Some \<lparr>Index = wrap64 (10000 + sp_index pair), Name = spotAssetName tm pair,
           SzDecimals = 0, MaxLeverage = 0, IsSpot = True, TokenIndex = sp_index pair\<rparr>"
  by (simp add: storeSpotPairs_append Let_def storeSpotPairs_spot_other)

lemma storeSpotPairs_name_other:
  "n \<notin> spotAssetName tm ` set ps \<Longrightarrow>
   assetsByName (storeSpotPairs tm ps af) n = assetsByName af n"
  by (induction tm ps af rule: storeSpotPairs.induct) (auto simp: Let_def)

lemma storeSpotPairs_name_stored:
  "spotAssetName tm pair \<notin> spotAssetName tm ` set after \<Longrightarrow>
   assetsByName (storeSpotPairs tm (before @ pair # after) af) (spotAssetName tm pair) =
     Some \<lparr>Index = wrap64 (10000 + sp_index pair), Name = spotAssetName tm pair,
           SzDecimals = 0, MaxLeverage = 0, IsSpot = True, TokenIndex = sp_index pair\<rparr>"
  by (simp add: storeSpotPairs_append Let_def storeSpotPairs_name_other)

text \<open>The three outcomes of a refresh, by what the two requests answered.\<close>

lemma fetchAssets_perp_fails:
  "\<forall>u. perpResp \<noteq> Response 200 (Some u) \<Longrightarrow>
   \<exists>err. fetchAssets now perpResp spotResp af = (Some err, af)"
  by (cases perpResp)
     (auto simp: fetchAssets_def fetchPerpetuals_def split: option.splits)

lemma fetchAssets_spot_fails:
  "\<forall>m. spotResp \<noteq> Response 200 (Some m) \<Longrightarrow>
   \<exists>err. fetchAssets now (Response 200 (Some u)) spotResp af
            = (Some err, storePerpetuals 0 u af)"
  by (cases spotResp)
     (auto simp: fetchAssets_def fetchPerpetuals_def fetchSpotAssets_def split: option.splits)

lemma fetchAssets_both:
  "fetchAssets now (Response 200 (Some u)) (Response 200 (Some m)) af
     = (None, (storeSpotPairs (buildTokenMap (Tokens m) Map.empty) (Universe m)
                 (storePerpetuals 0 u af))\<lparr>lastUpdated := now\<rparr>)"
  by (simp add: fetchAssets_def fetchPerpetuals_def fetchSpotAssets_def)

lemma fetchAssets_perp_table:
  "perpAssets (snd (fetchAssets now (Response 200 (Some u)) spotResp af))
     = perpAssets (storePerpetuals 0 u af)"
proof (cases "\<exists>m. spotResp = Response 200 (Some m)")
  case True
  then show ?thesis by (auto simp: fetchAssets_both storeSpotPairs_perp)
next
  case False
  then have "\<forall>m. spotResp \<noteq> Response 200 (Some m)" by simp
  from fetchAssets_spot_fails [OF this, of now u af] show ?thesis by auto
qed

lemmas sample_asset_defs =
  sampleTables_def sampleBTC_def sampleETH_def sampleSOL_def sampleSpotMeta_def
  fetchAssets_def fetchPerpetuals_def fetchSpotAssets_def NewAssetFetcher_def
  spotAssetName_def tokenName_def wrap64_def Let_def

text \<open>
  C4, as the specification states it, fails. A refresh that answers SOL alone, over tables
  that hold BTC and ETH, succeeds and still leaves the ETH record under id 1 and the BTC
  record under its symbol; and a refresh whose perpetuals request answers SOL and whose
  spot request gets no response returns an error after it has overwritten id 0.
\<close>

theorem refresh_wholesale_counterexample:
  "fst (fetchAssets 1 (Response 200 (Some [sampleSOL])) (Response 200 (Some sampleSpotMeta))
          sampleTables) = None
   \<and> perpAssets (snd (fetchAssets 1 (Response 200 (Some [sampleSOL]))
                        (Response 200 (Some sampleSpotMeta)) sampleTables)) 1
       = Some \<lparr>Index = 1, Name = ''ETH'', SzDecimals = 4, MaxLeverage = 50, IsSpot = False,
               TokenIndex = 0\<rparr>
   \<and> assetsByName (snd (fetchAssets 1 (Response 200 (Some [sampleSOL]))
                          (Response 200 (Some sampleSpotMeta)) sampleTables)) ''BTC''
       = Some \<lparr>Index = 0, Name = ''BTC'', SzDecimals = 5, MaxLeverage = 50, IsSpot = False,
               TokenIndex = 0\<rparr>
   \<and> fst (fetchAssets 1 (Response 200 (Some [sampleSOL])) NoResponse sampleTables)
       = Some RequestFailed
   \<and> perpAssets sampleTables 0
       = Some \<lparr>Index = 0, Name = ''BTC'', SzDecimals = 5, MaxLeverage = 50, IsSpot = False,
               TokenIndex = 0\<rparr>
   \<and> perpAssets (snd (fetchAssets 1 (Response 200 (Some [sampleSOL])) NoResponse
                        sampleTables)) 0
       = Some \<lparr>Index = 0, Name = ''SOL'', SzDecimals = 2, MaxLeverage = 20, IsSpot = False,
               TokenIndex = 0\<rparr>"
  by (simp add: sample_asset_defs)

text \<open>
  C4 as amended. A refresh merges what it fetched into the tables it finds; nothing is
  cleared. With \<open>af'\<close> the fetcher after the refresh of \<open>af\<close>:

  \<^item> When the perpetuals request does not answer a universe (no response, a status other
    than 200, a body that does not decode), the refresh returns an error and \<open>af'\<close> is
    \<open>af\<close>: the three tables and the time stamp are as before.
  \<^item> When it answers a universe, the record of the element at position i is stored under
    id i of the non-spot table, and every id from the length of the universe on (and every
    negative one) holds what it held before, whatever the spot request does.
  \<^item> When the spot request then does not answer, the refresh returns an error with the
    spot table and the time stamp as before and the perpetuals merged: the symbol table
    holds, under the name of an element that no later element shares, the record of that
    element, and under every other symbol what it held before.
  \<^item> When both answer, the refresh succeeds and sets the time stamp. The spot table
    holds, under the id of a pair that no later pair shares, the record of that pair, and
    under every id that is not the id of a fetched pair what it held before. The symbol
    table holds, under the name of a pair that no later pair shares, the record of that
    pair; under the name of a universe element that no later element and no pair shares,
    the record of that element; under every other symbol what it held before.

  The id of a spot pair is 10000 + its index in 64-bit arithmetic, which is that sum for
  every index below \<open>2^63 - 10000\<close>.
\<close>

theorem fetchAssets_merges:
  "((\<forall>u. perpResp \<noteq> Response 200 (Some u)) \<longrightarrow>
      fst (fetchAssets now perpResp spotResp af) \<noteq> None
      \<and> snd (fetchAssets now perpResp spotResp af) = af)
   \<and> (perpResp = Response 200 (Some universe) \<longrightarrow>
        (universe = before @ asset # after \<longrightarrow>
           perpAssets (snd (fetchAssets now perpResp spotResp af)) (int (length before)) =
             Some \<lparr>Index = int (length before), Name = pm_name asset,
                   SzDecimals = pm_szDecimals asset, MaxLeverage = pm_maxLeverage asset,
                   IsSpot = False, TokenIndex = 0\<rparr>)
      \<and> (k < 0 \<or> int (length universe) \<le> k \<longrightarrow>
           perpAssets (snd (fetchAssets now perpResp spotResp af)) k = perpAssets af k)
      \<and> ((\<forall>m. spotResp \<noteq> Response 200 (Some m)) \<longrightarrow>
           fst (fetchAssets now perpResp spotResp af) \<noteq> None
         \<and> spotAssets (snd (fetchAssets now perpResp spotResp af)) = spotAssets af
         \<and> lastUpdated (snd (fetchAssets now perpResp spotResp af)) = lastUpdated af
         \<and> (universe = before @ asset # after \<and> pm_name asset \<notin> pm_name ` set after \<longrightarrow>
              assetsByName (snd (fetchAssets now perpResp spotResp af)) (pm_name asset) =
                Some \<lparr>Index = int (length before), Name = pm_name asset,
                      SzDecimals = pm_szDecimals asset, MaxLeverage = pm_maxLeverage asset,
                      IsSpot = False, TokenIndex = 0\<rparr>)
         \<and> (n \<notin> pm_name ` set universe \<longrightarrow>
              assetsByName (snd (fetchAssets now perpResp spotResp af)) n = assetsByName af n))
      \<and> (spotResp = Response 200 (Some spotMeta) \<longrightarrow>
           fst (fetchAssets now perpResp spotResp af) = None
         \<and> lastUpdated (snd (fetchAssets now perpResp spotResp af)) = now
         \<and> (Universe spotMeta = sbefore @ pair # safter \<and>
            wrap64 (10000 + sp_index pair)
              \<notin> (\<lambda>p. wrap64 (10000 + sp_index p)) ` set safter \<longrightarrow>
              spotAssets (snd (fetchAssets now perpResp spotResp af))
                  (wrap64 (10000 + sp_index pair)) =
                Some \<lparr>Index = wrap64 (10000 + sp_index pair),
                      Name = spotAssetName (buildTokenMap (Tokens spotMeta) Map.empty) pair,
                      SzDecimals = 0, MaxLeverage = 0, IsSpot = True,
                      TokenIndex = sp_index pair\<rparr>)
         \<and> (k \<notin> (\<lambda>p. wrap64 (10000 + sp_index p)) ` set (Universe spotMeta) \<longrightarrow>
              spotAssets (snd (fetchAssets now perpResp spotResp af)) k = spotAssets af k)
         \<and> (Universe spotMeta = sbefore @ pair # safter \<and>
            spotAssetName (buildTokenMap (Tokens spotMeta) Map.empty) pair
              \<notin> spotAssetName (buildTokenMap (Tokens spotMeta) Map.empty) ` set safter \<longrightarrow>
              assetsByName (snd (fetchAssets now perpResp spotResp af))
                  (spotAssetName (buildTokenMap (Tokens spotMeta) Map.empty) pair) =
                Some \<lparr>Index = wrap64 (10000 + sp_index pair),
                      Name = spotAssetName (buildTokenMap (Tokens spotMeta) Map.empty) pair,
                      SzDecimals = 0, MaxLeverage = 0, IsSpot = True,
                      TokenIndex = sp_index pair\<rparr>)
         \<and> (universe = before @ asset # after \<and> pm_name asset \<notin> pm_name ` set after \<and>
            pm_name asset \<notin> spotAssetName (buildTokenMap (Tokens spotMeta) Map.empty) `
                               set (Universe spotMeta) \<longrightarrow>
              assetsByName (snd (fetchAssets now perpResp spotResp af)) (pm_name asset) =
                Some \<lparr>Index = int (length before), Name = pm_name asset,
                      SzDecimals = pm_szDecimals asset, MaxLeverage = pm_maxLeverage asset,
                      IsSpot = False, TokenIndex = 0\<rparr>)
         \<and> (n \<notin> pm_name ` set universe \<and>
            n \<notin> spotAssetName (buildTokenMap (Tokens spotMeta) Map.empty) `
                  set (Universe spotMeta) \<longrightarrow>
              assetsByName (snd (fetchAssets now perpResp spotResp af)) n = assetsByName af n)))
   \<and> (- (2 ^ 63) \<le> sp_index pair \<and> sp_index pair < 2 ^ 63 - 10000 \<longrightarrow>
        wrap64 (10000 + sp_index pair) = 10000 + sp_index pair)"
proof (intro conjI impI)
  assume "\<forall>u. perpResp \<noteq> Response 200 (Some u)"
  from fetchAssets_perp_fails [OF this, of now spotResp af]
  show "fst (fetchAssets now perpResp spotResp af) \<noteq> None"
    and "snd (fetchAssets now perpResp spotResp af) = af" by auto
next
  assume "perpResp = Response 200 (Some universe)" "universe = before @ asset # after"
  then show "perpAssets (snd (fetchAssets now perpResp spotResp af)) (int (length before)) =
             Some \<lparr>Index = int (length before), Name = pm_name asset,
                   SzDecimals = pm_szDecimals asset, MaxLeverage = pm_maxLeverage asset,
                   IsSpot = False, TokenIndex = 0\<rparr>"
    using storePerpetuals_perp_stored [of 0 before asset after af]
    by (simp add: fetchAssets_perp_table)
next
  assume "perpResp = Response 200 (Some universe)" "k < 0 \<or> int (length universe) \<le> k"
  then show "perpAssets (snd (fetchAssets now perpResp spotResp af)) k = perpAssets af k"
    using storePerpetuals_perp_other [of k 0 universe af]
    by (simp add: fetchAssets_perp_table)
next
  assume p: "perpResp = Response 200 (Some universe)"
    and s: "\<forall>m. spotResp \<noteq> Response 200 (Some m)"
  from fetchAssets_spot_fails [OF s, of now universe af] p obtain err where
    r: "fetchAssets now perpResp spotResp af = (Some err, storePerpetuals 0 universe af)"
    by auto
  show "fst (fetchAssets now perpResp spotResp af) \<noteq> None"
    and "spotAssets (snd (fetchAssets now perpResp spotResp af)) = spotAssets af"
    and "lastUpdated (snd (fetchAssets now perpResp spotResp af)) = lastUpdated af"
    by (simp_all add: r storePerpetuals_spot storePerpetuals_lastUpdated)
  {
    assume "universe = before @ asset # after \<and> pm_name asset \<notin> pm_name ` set after"
    then show "assetsByName (snd (fetchAssets now perpResp spotResp af)) (pm_name asset) =
                Some \<lparr>Index = int (length before), Name = pm_name asset,
                      SzDecimals = pm_szDecimals asset, MaxLeverage = pm_maxLeverage asset,
                      IsSpot = False, TokenIndex = 0\<rparr>"
      using storePerpetuals_name_stored [of asset after 0 before af] by (simp add: r)
  }
  {
    assume "n \<notin> pm_name ` set universe"
    then show "assetsByName (snd (fetchAssets now perpResp spotResp af)) n = assetsByName af n"
      by (simp add: r storePerpetuals_name_other)
  }
next
  assume p: "perpResp = Response 200 (Some universe)"
    and s: "spotResp = Response 200 (Some spotMeta)"
  let ?tm = "buildTokenMap (Tokens spotMeta) Map.empty"
  have r: "fetchAssets now perpResp spotResp af
             = (None, (storeSpotPairs ?tm (Universe spotMeta)
                         (storePerpetuals 0 universe af))\<lparr>lastUpdated := now\<rparr>)"
    unfolding p s by (rule fetchAssets_both)
  show "fst (fetchAssets now perpResp spotResp af) = None"
    and "lastUpdated (snd (fetchAssets now perpResp spotResp af)) = now"
    by (simp_all add: r)
  {
    assume "Universe spotMeta = sbefore @ pair # safter \<and>
            wrap64 (10000 + sp_index pair)
              \<notin> (\<lambda>p. wrap64 (10000 + sp_index p)) ` set safter"
    then show "spotAssets (snd (fetchAssets now perpResp spotResp af))
                  (wrap64 (10000 + sp_index pair)) =
                Some \<lparr>Index = wrap64 (10000 + sp_index pair),
                      Name = spotAssetName ?tm pair,
                      SzDecimals = 0, MaxLeverage = 0, IsSpot = True,
                      TokenIndex = sp_index pair\<rparr>"
      using storeSpotPairs_spot_stored
              [of pair safter ?tm sbefore "storePerpetuals 0 universe af"]
      by (simp add: r)
  }
  {
    assume "k \<notin> (\<lambda>p. wrap64 (10000 + sp_index p)) ` set (Universe spotMeta)"
    then show "spotAssets (snd (fetchAssets now perpResp spotResp af)) k = spotAssets af k"
      by (simp add: r storeSpotPairs_spot_other storePerpetuals_spot)
  }
  {
    assume "Universe spotMeta = sbefore @ pair # safter \<and>
            spotAssetName ?tm pair \<notin> spotAssetName ?tm ` set safter"
    then show "assetsByName (snd (fetchAssets now perpResp spotResp af))
                  (spotAssetName ?tm pair) =
                Some \<lparr>Index = wrap64 (10000 + sp_index pair),
                      Name = spotAssetName ?tm pair,
                      SzDecimals = 0, MaxLeverage = 0, IsSpot = True,
                      TokenIndex = sp_index pair\<rparr>"
      using storeSpotPairs_name_stored
              [of ?tm pair safter sbefore "storePerpetuals 0 universe af"]
      by (simp add: r)
  }
  {
    assume "universe = before @ asset # after \<and> pm_name asset \<notin> pm_name ` set after \<and>
            pm_name asset \<notin> spotAssetName ?tm ` set (Universe spotMeta)"
    then show "assetsByName (snd (fetchAssets now perpResp spotResp af)) (pm_name asset) =
                Some \<lparr>Index = int (length before), Name = pm_name asset,
                      SzDecimals = pm_szDecimals asset, MaxLeverage = pm_maxLeverage asset,
                      IsSpot = False, TokenIndex = 0\<rparr>"
      using storePerpetuals_name_stored [of asset after 0 before af]
      by (simp add: r storeSpotPairs_name_other)
  }
  {
    assume "n \<notin> pm_name ` set universe \<and> n \<notin> spotAssetName ?tm ` set (Universe spotMeta)"
    then show "assetsByName (snd (fetchAssets now perpResp spotResp af)) n = assetsByName af n"
      by (simp add: r storeSpotPairs_name_other storePerpetuals_name_other)
  }
next
  assume "- (2 ^ 63) \<le> sp_index pair \<and> sp_index pair < 2 ^ 63 - 10000"
  then show "wrap64 (10000 + sp_index pair) = 10000 + sp_index pair"
    by (simp add: wrap64_in_range)
qed

text \<open>
  The amended statement at concrete refreshes over the sample tables (BTC, ETH, and the
  spot pair 5): one whose perpetuals request is refused with status 429; one that answers
  SOL and then loses the spot request; one that answers SOL and the spot pair 7.
\<close>

theorem fetchAssets_merges_witness:
  "fst (fetchAssets 1 (Response 429 None) (Response 200 (Some sampleSpotMeta7)) sampleTables)
     \<noteq> None
   \<and> snd (fetchAssets 1 (Response 429 None) (Response 200 (Some sampleSpotMeta7)) sampleTables)
       = sampleTables
   \<and> fst (fetchAssets 1 (Response 200 (Some [sampleSOL])) NoResponse sampleTables) \<noteq> None
   \<and> perpAssets (snd (fetchAssets 1 (Response 200 (Some [sampleSOL])) NoResponse sampleTables)) 0
       = Some \<lparr>Index = 0, Name = ''SOL'', SzDecimals = 2, MaxLeverage = 20, IsSpot = False,
               TokenIndex = 0\<rparr>
   \<and> perpAssets (snd (fetchAssets 1 (Response 200 (Some [sampleSOL])) NoResponse sampleTables)) 1
       = perpAssets sampleTables 1
   \<and> spotAssets (snd (fetchAssets 1 (Response 200 (Some [sampleSOL])) NoResponse sampleTables))
       = spotAssets sampleTables
   \<and> lastUpdated (snd (fetchAssets 1 (Response 200 (Some [sampleSOL])) NoResponse sampleTables))
       = lastUpdated sampleTables
   \<and> assetsByName (snd (fetchAssets 1 (Response 200 (Some [sampleSOL])) NoResponse
                          sampleTables)) ''SOL''
       = Some \<lparr>Index = 0, Name = ''SOL'', SzDecimals = 2, MaxLeverage = 20, IsSpot = False,
               TokenIndex = 0\<rparr>
   \<and> assetsByName (snd (fetchAssets 1 (Response 200 (Some [sampleSOL])) NoResponse
                          sampleTables)) ''ETH''
       = assetsByName sampleTables ''ETH''
   \<and> fst (fetchAssets 1 (Response 200 (Some [sampleSOL])) (Response 200 (Some sampleSpotMeta7))
            sampleTables) = None
   \<and> lastUpdated (snd (fetchAssets 1 (Response 200 (Some [sampleSOL]))
                         (Response 200 (Some sampleSpotMeta7)) sampleTables)) = 1
   \<and> spotAssets (snd (fetchAssets 1 (Response 200 (Some [sampleSOL]))
                        (Response 200 (Some sampleSpotMeta7)) sampleTables)) 10007
       = Some \<lparr>Index = 10007, Name = ''@7'', SzDecimals = 0, MaxLeverage = 0, IsSpot = True,
               TokenIndex = 7\<rparr>
   \<and> spotAssets (snd (fetchAssets 1 (Response 200 (Some [sampleSOL]))
                        (Response 200 (Some sampleSpotMeta7)) sampleTables)) 10005
       = spotAssets sampleTables 10005
   \<and> assetsByName (snd (fetchAssets 1 (Response 200 (Some [sampleSOL]))
                          (Response 200 (Some sampleSpotMeta7)) sampleTables)) ''@7''
       = Some \<lparr>Index = 10007, Name = ''@7'', SzDecimals = 0, MaxLeverage = 0, IsSpot = True,
               TokenIndex = 7\<rparr>
   \<and> assetsByName (snd (fetchAssets 1 (Response 200 (Some [sampleSOL]))
                          (Response 200 (Some sampleSpotMeta7)) sampleTables)) ''SOL''
       = Some \<lparr>Index = 0, Name = ''SOL'', SzDecimals = 2, MaxLeverage = 20, IsSpot = False,
               TokenIndex = 0\<rparr>
   \<and> assetsByName (snd (fetchAssets 1 (Response 200 (Some [sampleSOL]))
                          (Response 200 (Some sampleSpotMeta7)) sampleTables)) ''ETH''
       = assetsByName sampleTables ''ETH''"
proof -
  let ?pair = "\<lparr>sp_name = ''HYPE/USDC'', sp_tokens = [150, 0], sp_index = 7\<rparr>"
  have u: "[sampleSOL] = [] @ sampleSOL # []" "pm_name sampleSOL \<notin> pm_name ` set []"
    "pm_name sampleSOL = ''SOL''" "pm_szDecimals sampleSOL = 2" "pm_maxLeverage sampleSOL = 20"
    "''ETH'' \<notin> pm_name ` set [sampleSOL]" "int (length [sampleSOL]) \<le> 1"
    by (simp_all add: sampleSOL_def)
  have s: "Universe sampleSpotMeta7 = [] @ ?pair # []"
    "spotAssetName (buildTokenMap (Tokens sampleSpotMeta7) Map.empty) ?pair = ''@7''"
    "wrap64 (10000 + sp_index ?pair) = 10007"
    "10005 \<notin> (\<lambda>p. wrap64 (10000 + sp_index p)) ` set (Universe sampleSpotMeta7)"
    "''SOL'' \<notin> spotAssetName (buildTokenMap (Tokens sampleSpotMeta7) Map.empty) `
                 set (Universe sampleSpotMeta7)"
    "''ETH'' \<notin> spotAssetName (buildTokenMap (Tokens sampleSpotMeta7) Map.empty) `
                 set (Universe sampleSpotMeta7)"
    by (simp_all add: sampleSpotMeta7_def spotAssetName_def wrap64_def Itoa_def digits.simps)
  have w: "wrap64 10007 = 10007" by (simp add: wrap64_def)
  note refused = fetchAssets_merges
    [where perpResp = "Response 429 None" and spotResp = "Response 200 (Some sampleSpotMeta7)"
       and now = 1 and af = sampleTables]
  note lost = fetchAssets_merges
    [where perpResp = "Response 200 (Some [sampleSOL])" and spotResp = NoResponse
       and now = 1 and af = sampleTables and universe = "[sampleSOL]" and before = "[]"
       and asset = sampleSOL and after = "[]" and k = 1 and n = "''ETH''"]
  note both = fetchAssets_merges
    [where perpResp = "Response 200 (Some [sampleSOL])"
       and spotResp = "Response 200 (Some sampleSpotMeta7)"
       and now = 1 and af = sampleTables and universe = "[sampleSOL]" and before = "[]"
       and asset = sampleSOL and after = "[]" and k = 10005 and n = "''ETH''"
       and spotMeta = sampleSpotMeta7 and sbefore = "[]" and pair = ?pair and safter = "[]"]
  from refused have 1:
    "fst (fetchAssets 1 (Response 429 None) (Response 200 (Some sampleSpotMeta7)) sampleTables)
       \<noteq> None
     \<and> snd (fetchAssets 1 (Response 429 None) (Response 200 (Some sampleSpotMeta7))
              sampleTables) = sampleTables"
    by simp
  from lost u have 2:
    "fst (fetchAssets 1 (Response 200 (Some [sampleSOL])) NoResponse sampleTables) \<noteq> None
     \<and> perpAssets (snd (fetchAssets 1 (Response 200 (Some [sampleSOL])) NoResponse
                          sampleTables)) 0
         = Some \<lparr>Index = 0, Name = ''SOL'', SzDecimals = 2, MaxLeverage = 20, IsSpot = False,
                 TokenIndex = 0\<rparr>
     \<and> perpAssets (snd (fetchAssets 1 (Response 200 (Some [sampleSOL])) NoResponse
                          sampleTables)) 1 = perpAssets sampleTables 1
     \<and> spotAssets (snd (fetchAssets 1 (Response 200 (Some [sampleSOL])) NoResponse
                          sampleTables)) = spotAssets sampleTables
     \<and> lastUpdated (snd (fetchAssets 1 (Response 200 (Some [sampleSOL])) NoResponse
                           sampleTables)) = lastUpdated sampleTables
     \<and> assetsByName (snd (fetchAssets 1 (Response 200 (Some [sampleSOL])) NoResponse
                            sampleTables)) ''SOL''
         = Some \<lparr>Index = 0, Name = ''SOL'', SzDecimals = 2, MaxLeverage = 20, IsSpot = False,
                 TokenIndex = 0\<rparr>
     \<and> assetsByName (snd (fetchAssets 1 (Response 200 (Some [sampleSOL])) NoResponse
                            sampleTables)) ''ETH'' = assetsByName sampleTables ''ETH''"
    by simp
  from both u s have 3:
    "fst (fetchAssets 1 (Response 200 (Some [sampleSOL])) (Response 200 (Some sampleSpotMeta7))
            sampleTables) = None
     \<and> lastUpdated (snd (fetchAssets 1 (Response 200 (Some [sampleSOL]))
                           (Response 200 (Some sampleSpotMeta7)) sampleTables)) = 1
     \<and> spotAssets (snd (fetchAssets 1 (Response 200 (Some [sampleSOL]))
                          (Response 200 (Some sampleSpotMeta7)) sampleTables)) 10007
         = Some \<lparr>Index = 10007, Name = ''@7'', SzDecimals = 0, MaxLeverage = 0, IsSpot = True,
                 TokenIndex = 7\<rparr>
     \<and> spotAssets (snd (fetchAssets 1 (Response 200 (Some [sampleSOL]))
                          (Response 200 (Some sampleSpotMeta7)) sampleTables)) 10005
         = spotAssets sampleTables 10005
     \<and> assetsByName (snd (fetchAssets 1 (Response 200 (Some [sampleSOL]))
                            (Response 200 (Some sampleSpotMeta7)) sampleTables)) ''@7''
         = Some \<lparr>Index = 10007, Name = ''@7'', SzDecimals = 0, MaxLeverage = 0, IsSpot = True,
                 TokenIndex = 7\<rparr>
     \<and> assetsByName (snd (fetchAssets 1 (Response 200 (Some [sampleSOL]))
                            (Response 200 (Some sampleSpotMeta7)) sampleTables)) ''SOL''
         = Some \<lparr>Index = 0, Name = ''SOL'', SzDecimals = 2, MaxLeverage = 20, IsSpot = False,
                 TokenIndex = 0\<rparr>
     \<and> assetsByName (snd (fetchAssets 1 (Response 200 (Some [sampleSOL]))
                            (Response 200 (Some sampleSpotMeta7)) sampleTables)) ''ETH''
         = assetsByName sampleTables ''ETH''"
    by (simp add: w)
  from 1 2 3 show ?thesis by simp
qed

section \<open>Resolving an asset id to a symbol\<close>

text \<open>
  C7, as the specification states it, fails. In the sample tables id 5 is a key of neither
  the non-spot table nor the spot table, and the resolver still answers the name of the
  spot pair stored under 10005, not one of its placeholders.
\<close>

theorem placeholder_counterexample:
  "perpAssets sampleTables 5 = None \<and> spotAssets sampleTables 5 = None
   \<and> GetAssetByID sampleTables 5 = None
   \<and> getAssetSymbol (NewLocalNodeReader (Some sampleTables)) 5 = ''PURR/USDC''"
  by (simp add: sample_asset_defs getAssetSymbol_def GetAssetByID_def NewLocalNodeReader_def)

text \<open>
  C7 as amended. \<^verbatim>\<open>GetAssetByID\<close> answers from the non-spot table when the id is
  there and from the spot table otherwise. \<^verbatim>\<open>getAssetSymbol\<close> answers the name of the
  record found under the id, non-spot table first. For an id that is in neither table it
  looks up 10000 + id (in 64-bit arithmetic, which is that sum for every id below
  \<open>2^63 - 10000\<close>) in the same order and answers the name of the record found there. Only
  for an id such that neither the id nor 10000 + id is in either table it answers a
  placeholder: \<open>@id\<close> when 0 < id < 1000 and \<open>ASSET_id\<close> otherwise, which is also
  its answer for every id when it has no fetcher. It has no failing branch: in each of
  these cases, which cover all states and ids, it answers a string.
\<close>

theorem symbol_lookup_order_and_placeholder:
  "GetAssetByID af i = (case perpAssets af i of Some a \<Rightarrow> Some a | None \<Rightarrow> spotAssets af i)
   \<and> (assetFetcher r = Some af \<and> perpAssets af i = Some a \<longrightarrow> getAssetSymbol r i = Name a)
   \<and> (assetFetcher r = Some af \<and> perpAssets af i = None \<and> spotAssets af i = Some b \<longrightarrow>
         getAssetSymbol r i = Name b)
   \<and> (assetFetcher r = Some af \<and> perpAssets af i = None \<and> spotAssets af i = None \<and>
       perpAssets af (wrap64 (10000 + i)) = Some c \<longrightarrow>
         getAssetSymbol r i = Name c)
   \<and> (assetFetcher r = Some af \<and> perpAssets af i = None \<and> spotAssets af i = None \<and>
       perpAssets af (wrap64 (10000 + i)) = None \<and>
       spotAssets af (wrap64 (10000 + i)) = Some d \<longrightarrow>
         getAssetSymbol r i = Name d)
   \<and> (assetFetcher r = Some af \<and> perpAssets af i = None \<and> spotAssets af i = None \<and>
       perpAssets af (wrap64 (10000 + i)) = None \<and>
       spotAssets af (wrap64 (10000 + i)) = None \<longrightarrow>
         getAssetSymbol r i =
           (if 0 < i \<and> i < 1000 then ''@'' @ Itoa i else ''ASSET_'' @ Itoa i))
   \<and> (assetFetcher r = None \<longrightarrow> getAssetSymbol r i = ''ASSET_'' @ Itoa i)
   \<and> (- (2 ^ 63) \<le> i \<and> i < 2 ^ 63 - 10000 \<longrightarrow> wrap64 (10000 + i) = 10000 + i)"
  by (auto simp: GetAssetByID_def getAssetSymbol_def wrap64_in_range split: option.splits)

text \<open>
  In the sample tables: id 1 is ETH in the non-spot table; id 10005 is the spot pair
  itself; id 5 is in neither table and resolves through 10005; ids 7 and 1234 resolve
  nowhere and get the two placeholders; without a fetcher id 7 gets the second one.
\<close>

theorem symbol_lookup_order_and_placeholder_witness:
  "getAssetSymbol (NewLocalNodeReader (Some sampleTables)) 1 = ''ETH''
   \<and> getAssetSymbol (NewLocalNodeReader (Some sampleTables)) 10005 = ''PURR/USDC''
   \<and> GetAssetByID sampleTables 5 = None
   \<and> getAssetSymbol (NewLocalNodeReader (Some sampleTables)) 5 = ''PURR/USDC''
   \<and> getAssetSymbol (NewLocalNodeReader (Some (sampleTables\<lparr>perpAssets :=
         (perpAssets sampleTables)(10005 \<mapsto> \<lparr>Index = 10005, Name = ''X'', SzDecimals = 0,
            MaxLeverage = 0, IsSpot = False, TokenIndex = 0\<rparr>)\<rparr>))) 5 = ''X''
   \<and> getAssetSymbol (NewLocalNodeReader (Some sampleTables)) 7 = ''@7''
   \<and> getAssetSymbol (NewLocalNodeReader (Some sampleTables)) 1234 = ''ASSET_1234''
   \<and> getAssetSymbol (NewLocalNodeReader None) 7 = ''ASSET_7''"
proof -
  let ?x = "\<lparr>Index = 10005, Name = ''X'', SzDecimals = 0, MaxLeverage = 0, IsSpot = False,
             TokenIndex = 0\<rparr>"
  let ?withX = "sampleTables\<lparr>perpAssets := (perpAssets sampleTables)(10005 \<mapsto> ?x)\<rparr>"
  let ?purr = "\<lparr>Index = 10005, Name = ''PURR/USDC'', SzDecimals = 0, MaxLeverage = 0,
                IsSpot = True, TokenIndex = 5\<rparr>"
  have w: "wrap64 (10000 + 5) = 10005" "wrap64 (10000 + 7) = 10007"
    "wrap64 (10000 + 1234) = 11234"
    by (simp_all add: wrap64_def)
  have eth: "perpAssets sampleTables 1 =
      Some \<lparr>Index = 1, Name = ''ETH'', SzDecimals = 4, MaxLeverage = 50, IsSpot = False,
            TokenIndex = 0\<rparr>"
    by (simp add: sample_asset_defs)
  have purr: "perpAssets sampleTables 10005 = None \<and> spotAssets sampleTables 10005 = Some ?purr"
    by (simp add: sample_asset_defs)
  have none5: "perpAssets sampleTables 5 = None \<and> spotAssets sampleTables 5 = None"
    by (simp add: sample_asset_defs)
  have x5: "perpAssets ?withX 5 = None \<and> spotAssets ?withX 5 = None
            \<and> perpAssets ?withX 10005 = Some ?x"
    by (simp add: sample_asset_defs)
  have none7: "perpAssets sampleTables 7 = None \<and> spotAssets sampleTables 7 = None \<and>
      perpAssets sampleTables 10007 = None \<and> spotAssets sampleTables 10007 = None"
    by (simp add: sample_asset_defs)
  have none1234: "perpAssets sampleTables 1234 = None \<and> spotAssets sampleTables 1234 = None \<and>
      perpAssets sampleTables 11234 = None \<and> spotAssets sampleTables 11234 = None"
    by (simp add: sample_asset_defs)
  have f: "assetFetcher (NewLocalNodeReader (Some sampleTables)) = Some sampleTables"
    "assetFetcher (NewLocalNodeReader (Some ?withX)) = Some ?withX"
    "assetFetcher (NewLocalNodeReader None) = None"
    by (simp_all add: NewLocalNodeReader_def)
  have d: "Itoa 7 = ''7''" "Itoa 1234 = ''1234''"
    by (simp_all add: Itoa_def digits.simps)
  note t = symbol_lookup_order_and_placeholder
  from t [where af = sampleTables and i = 1 and r = "NewLocalNodeReader (Some sampleTables)"
            and a = "\<lparr>Index = 1, Name = ''ETH'', SzDecimals = 4, MaxLeverage = 50,
                       IsSpot = False, TokenIndex = 0\<rparr>"] eth f
  have 1: "getAssetSymbol (NewLocalNodeReader (Some sampleTables)) 1 = ''ETH''" by simp
  from t [where af = sampleTables and i = 10005
            and r = "NewLocalNodeReader (Some sampleTables)" and b = ?purr] purr f
  have 2: "getAssetSymbol (NewLocalNodeReader (Some sampleTables)) 10005 = ''PURR/USDC''"
    by simp
  from t [where af = sampleTables and i = 5] none5
  have 3: "GetAssetByID sampleTables 5 = None" by simp
  from t [where af = sampleTables and i = 5 and r = "NewLocalNodeReader (Some sampleTables)"
            and d = ?purr] none5 purr f w
  have 4: "getAssetSymbol (NewLocalNodeReader (Some sampleTables)) 5 = ''PURR/USDC''" by simp
  from t [where af = ?withX and i = 5 and r = "NewLocalNodeReader (Some ?withX)" and c = ?x]
    x5 f w
  have 5: "getAssetSymbol (NewLocalNodeReader (Some ?withX)) 5 = ''X''" by simp
  from t [where af = sampleTables and i = 7 and r = "NewLocalNodeReader (Some sampleTables)"]
    none7 f w d
  have 6: "getAssetSymbol (NewLocalNodeReader (Some sampleTables)) 7 = ''@7''" by simp
  from t [where af = sampleTables and i = 1234
            and r = "NewLocalNodeReader (Some sampleTables)"] none1234 f w d
  have 7: "getAssetSymbol (NewLocalNodeReader (Some sampleTables)) 1234 = ''ASSET_1234''"
    by simp
  from t [where i = 7 and r = "NewLocalNodeReader None"] f d
  have 8: "getAssetSymbol (NewLocalNodeReader None) 7 = ''ASSET_7''" by simp
  from 1 2 3 4 5 6 7 8 show ?thesis by simp
qed

section \<open>Orders become synthetic trades\<close>

lemma processOrder_assetFetcher:
  "assetFetcher (processOrder parseTime now blockTime userAddress order r) = assetFetcher r"
  by (simp add: processOrder_def Let_def)

lemma fold_processOrder_assetFetcher:
  "assetFetcher (fold (processOrder parseTime now blockTime userAddress) orders r)
     = assetFetcher r"
  by (induction orders arbitrary: r) (simp_all add: processOrder_assetFetcher)

lemma getAssetSymbol_cong:
  "assetFetcher r1 = assetFetcher r2 \<Longrightarrow> getAssetSymbol r1 a = getAssetSymbol r2 a"
  by (simp add: getAssetSymbol_def)

lemma ordersOf_cong: "assetFetcher r1 = assetFetcher r2 \<Longrightarrow> ordersOf r1 = ordersOf r2"
  by (intro ext) (simp add: ordersOf_def getAssetSymbol_cong [of r1 r2])

lemma ordersOf_simps:
  "ordersOf r coin [] = []"
  "ordersOf r coin (xs @ ys) = ordersOf r coin xs @ ordersOf r coin ys"
  "ordersOf r coin (order # ys) =
     (if getAssetSymbol r (Asset order) = coin then order # ordersOf r coin ys
      else ordersOf r coin ys)"
  by (simp_all add: ordersOf_def)

text \<open>Keeping the last 1000 after each append keeps the last 1000 of the whole.\<close>

lemma keep_last_step:
  "drop (length (drop (length ys - 1000) ys @ [t]) - 1000) (drop (length ys - 1000) ys @ [t])
     = drop (length (ys @ [t]) - 1000) (ys @ [t])"
proof (cases "length ys \<le> 1000")
  case True
  then show ?thesis by simp
next
  case False
  then have "Suc (length ys - 1000) = length ys - 999" by arith
  with False show ?thesis by simp
qed

text \<open>One order: its trade goes to the end of the ring of its symbol, and its price
  becomes the latest price of the symbol; other symbols are not touched.\<close>

lemma processOrder_ring:
  "ringOf (processOrder parseTime now blockTime userAddress order r) coin =
     (if getAssetSymbol r (Asset order) = coin
      then drop (Suc (length (ringOf r coin)) - 1000)
             (ringOf r coin @
                [\<lparr>trade_Coin = coin, Side = (if IsBuy order then ''buy'' else ''sell''),
                  Px = Price order, Sz = Size order, Hash = ClientOrderID order,
                  Time = parseBlockTime parseTime now blockTime, TID = now,
                  Users = (userAddress, [])\<rparr>])
      else ringOf r coin)"
  by (simp add: processOrder_def ringOf_def Let_def)

lemma processOrder_latestPrices:
  "latestPrices (processOrder parseTime now blockTime userAddress order r) coin =
     (if getAssetSymbol r (Asset order) = coin then Some (Price order)
      else latestPrices r coin)"
  by (simp add: processOrder_def Let_def)

lemma fold_processOrder_ring:
  "ringOf (fold (processOrder parseTime now blockTime userAddress) orders r) coin =
     (if ordersOf r coin orders = [] then ringOf r coin
      else drop (length (ringOf r coin) + length (ordersOf r coin orders) - 1000)
             (ringOf r coin @
                map (\<lambda>order.
                       \<lparr>trade_Coin = coin, Side = (if IsBuy order then ''buy'' else ''sell''),
                        Px = Price order, Sz = Size order, Hash = ClientOrderID order,
                        Time = parseBlockTime parseTime now blockTime, TID = now,
                        Users = (userAddress, [])\<rparr>)
                  (ordersOf r coin orders)))"
proof (induction orders rule: rev_induct)
  case Nil
  show ?case by (simp add: ordersOf_simps)
next
  case (snoc order orders)
  let ?step = "processOrder parseTime now blockTime userAddress"
  let ?r1 = "fold ?step orders r"
  let ?T = "\<lambda>order.
              \<lparr>trade_Coin = coin, Side = (if IsBuy order then ''buy'' else ''sell''),
               Px = Price order, Sz = Size order, Hash = ClientOrderID order,
               Time = parseBlockTime parseTime now blockTime, TID = now,
               Users = (userAddress, [])\<rparr>"
  have af: "assetFetcher ?r1 = assetFetcher r" by (rule fold_processOrder_assetFetcher)
  have s: "getAssetSymbol ?r1 (Asset order) = getAssetSymbol r (Asset order)"
    using af by (rule getAssetSymbol_cong)
  have run: "fold ?step (orders @ [order]) r = ?step order ?r1" by simp
  show ?case
  proof (cases "getAssetSymbol r (Asset order) = coin")
    case False
    with s have "ringOf (?step order ?r1) coin = ringOf ?r1 coin"
      by (simp add: processOrder_ring)
    with False snoc.IH show ?thesis unfolding run by (simp add: ordersOf_simps)
  next
    case True
    with s have step: "ringOf (?step order ?r1) coin =
        drop (length (ringOf ?r1 coin @ [?T order]) - 1000) (ringOf ?r1 coin @ [?T order])"
      by (simp add: processOrder_ring)
    show ?thesis
    proof (cases "ordersOf r coin orders = []")
      case True
      with snoc.IH have "ringOf ?r1 coin = ringOf r coin" by simp
      with step \<open>getAssetSymbol r (Asset order) = coin\<close> True show ?thesis
        unfolding run by (simp add: ordersOf_simps)
    next
      case False
      let ?ys = "ringOf r coin @ map ?T (ordersOf r coin orders)"
      from False snoc.IH have "ringOf ?r1 coin = drop (length ?ys - 1000) ?ys" by simp
      with step have "ringOf (?step order ?r1) coin =
          drop (length (?ys @ [?T order]) - 1000) (?ys @ [?T order])"
        using keep_last_step [of ?ys "?T order"] by simp
      with \<open>getAssetSymbol r (Asset order) = coin\<close> show ?thesis
        unfolding run by (simp add: ordersOf_simps)
    qed
  qed
qed

lemma fold_processOrder_latestPrices:
  "latestPrices (fold (processOrder parseTime now blockTime userAddress) orders r) coin =
     (if ordersOf r coin orders = [] then latestPrices r coin
      else Some (Price (last (ordersOf r coin orders))))"
proof (induction orders rule: rev_induct)
  case Nil
  show ?case by (simp add: ordersOf_simps)
next
  case (snoc order orders)
  let ?step = "processOrder parseTime now blockTime userAddress"
  have "assetFetcher (fold ?step orders r) = assetFetcher r"
    by (rule fold_processOrder_assetFetcher)
  then have "getAssetSymbol (fold ?step orders r) (Asset order) = getAssetSymbol r (Asset order)"
    by (rule getAssetSymbol_cong)
  with snoc.IH show ?case
    by (simp add: processOrder_latestPrices ordersOf_simps)
qed

lemma processOrder_latestTrades_other:
  "getAssetSymbol r (Asset order) \<noteq> coin \<Longrightarrow>
   latestTrades (processOrder parseTime now blockTime userAddress order r) coin
     = latestTrades r coin"
  by (simp add: processOrder_def Let_def)

lemma fold_processOrder_latestTrades_other:
  "ordersOf r coin orders = [] \<Longrightarrow>
   latestTrades (fold (processOrder parseTime now blockTime userAddress) orders r) coin
     = latestTrades r coin"
proof (induction orders rule: rev_induct)
  case Nil
  show ?case by simp
next
  case (snoc order orders)
  let ?step = "processOrder parseTime now blockTime userAddress"
  have "assetFetcher (fold ?step orders r) = assetFetcher r"
    by (rule fold_processOrder_assetFetcher)
  then have "getAssetSymbol (fold ?step orders r) (Asset order) = getAssetSymbol r (Asset order)"
    by (rule getAssetSymbol_cong)
  moreover from snoc.prems have "ordersOf r coin orders = []"
    and "getAssetSymbol r (Asset order) \<noteq> coin"
    by (simp_all add: ordersOf_simps split: if_splits)
  ultimately show ?case
    using snoc.IH by (simp add: processOrder_latestTrades_other)
qed

lemma processSignedAction_order:
  "action_Type (Action action) = ''order'' \<Longrightarrow>
   processSignedAction parseTime now action blockTime r
     = fold (processOrder parseTime now blockTime (VaultAddress action))
         (Orders (Action action)) r"
  by (simp add: processSignedAction_def processOrders_def)

text \<open>
  C5. When an action of type "order" is processed, every one of its orders is converted.
  For each symbol c, the ring of c after the action is the ring before it followed by one
  trade for each order of the action whose asset id the resolver maps to c, in the order
  of the action, cut to its last 1000 trades; each of these trades has coin c, side "buy"
  when the buy flag of its order is true and "sell" when it is false, and px and sz equal
  to the price and size strings of its order as they are. In particular, for an order of
  the action with fewer than 1000 orders of the same symbol after it, its trade stands in
  the ring, as many places from the end as there are such later orders. The latest price
  of c is the price string of the last order of c. An action of another type converts
  nothing.
\<close>

theorem order_action_yields_trade:
  "(action_Type (Action action) = ''order'' \<longrightarrow>
      (ordersOf r coin (Orders (Action action)) \<noteq> [] \<longrightarrow>
         map (\<lambda>t. (trade_Coin t, Side t, Px t, Sz t))
             (ringOf (processSignedAction parseTime now action blockTime r) coin)
           = drop (length (ringOf r coin)
                     + length (ordersOf r coin (Orders (Action action))) - 1000)
               (map (\<lambda>t. (trade_Coin t, Side t, Px t, Sz t)) (ringOf r coin) @
                map (\<lambda>order. (coin, if IsBuy order then ''buy'' else ''sell'',
                               Price order, Size order))
                  (ordersOf r coin (Orders (Action action))))
         \<and> latestPrices (processSignedAction parseTime now action blockTime r) coin
             = Some (Price (last (ordersOf r coin (Orders (Action action))))))
    \<and> (ordersOf r coin (Orders (Action action)) = [] \<longrightarrow>
         latestTrades (processSignedAction parseTime now action blockTime r) coin
           = latestTrades r coin
         \<and> latestPrices (processSignedAction parseTime now action blockTime r) coin
             = latestPrices r coin)
    \<and> (Orders (Action action) = earlier @ order # later
         \<and> getAssetSymbol r (Asset order) = coin
         \<and> length (ordersOf r coin later) < 1000 \<longrightarrow>
         (\<exists>ts t us. latestTrades (processSignedAction parseTime now action blockTime r) coin
                       = Some (ts @ t # us)
                   \<and> length us = length (ordersOf r coin later)
                   \<and> trade_Coin t = coin
                   \<and> Side t = (if IsBuy order then ''buy'' else ''sell'')
                   \<and> Px t = Price order \<and> Sz t = Size order)))
   \<and> (action_Type (Action action) \<noteq> ''order'' \<longrightarrow>
        processSignedAction parseTime now action blockTime r = r)"
proof (intro conjI impI)
  let ?T = "\<lambda>order.
              \<lparr>trade_Coin = coin, Side = (if IsBuy order then ''buy'' else ''sell''),
               Px = Price order, Sz = Size order, Hash = ClientOrderID order,
               Time = parseBlockTime parseTime now blockTime, TID = now,
               Users = (VaultAddress action, [])\<rparr>"
  let ?after = "processSignedAction parseTime now action blockTime r"
  let ?os = "ordersOf r coin (Orders (Action action))"
  {
    assume a: "action_Type (Action action) = ''order''" and ne: "?os \<noteq> []"
    have ring: "ringOf ?after coin
                  = drop (length (ringOf r coin) + length ?os - 1000)
                      (ringOf r coin @ map ?T ?os)"
      using ne by (simp add: processSignedAction_order [OF a] fold_processOrder_ring)
    show "map (\<lambda>t. (trade_Coin t, Side t, Px t, Sz t)) (ringOf ?after coin)
           = drop (length (ringOf r coin) + length ?os - 1000)
               (map (\<lambda>t. (trade_Coin t, Side t, Px t, Sz t)) (ringOf r coin) @
                map (\<lambda>order. (coin, if IsBuy order then ''buy'' else ''sell'',
                               Price order, Size order)) ?os)"
      unfolding ring by (simp add: drop_map o_def)
    show "latestPrices ?after coin = Some (Price (last ?os))"
      using ne by (simp add: processSignedAction_order [OF a] fold_processOrder_latestPrices)
  }
  {
    assume a: "action_Type (Action action) = ''order''" and e: "?os = []"
    show "latestTrades ?after coin = latestTrades r coin"
      using e
      by (simp add: processSignedAction_order [OF a] fold_processOrder_latestTrades_other)
    show "latestPrices ?after coin = latestPrices r coin"
      using e by (simp add: processSignedAction_order [OF a] fold_processOrder_latestPrices)
  }
  {
    assume a: "action_Type (Action action) = ''order''"
      and o: "Orders (Action action) = earlier @ order # later
              \<and> getAssetSymbol r (Asset order) = coin
              \<and> length (ordersOf r coin later) < 1000"
    let ?A = "ringOf r coin @ map ?T (ordersOf r coin earlier)"
    let ?us = "map ?T (ordersOf r coin later)"
    from o have os: "?os = ordersOf r coin earlier @ order # ordersOf r coin later"
      by (simp add: ordersOf_simps)
    then have ne: "?os \<noteq> []" by simp
    define n where "n = length (ringOf r coin) + length ?os - 1000"
    from o have lt: "length (ordersOf r coin later) < 1000" by simp
    have len: "length ?os
                 = length (ordersOf r coin earlier) + 1 + length (ordersOf r coin later)"
      unfolding os by simp
    have le: "n \<le> length ?A" unfolding n_def len using lt by simp
    have "ringOf ?after coin = drop n (ringOf r coin @ map ?T ?os)"
      using ne unfolding n_def
      by (simp add: processSignedAction_order [OF a] fold_processOrder_ring)
    also have "ringOf r coin @ map ?T ?os = ?A @ ?T order # ?us"
      by (simp add: os)
    also have "drop n (?A @ ?T order # ?us) = drop n ?A @ ?T order # ?us"
      using le by simp
    finally have ring: "ringOf ?after coin = drop n ?A @ ?T order # ?us" .
    then have "latestTrades ?after coin = Some (drop n ?A @ ?T order # ?us)"
      by (cases "latestTrades ?after coin") (simp_all add: ringOf_def)
    then show "\<exists>ts t us. latestTrades ?after coin = Some (ts @ t # us)
                   \<and> length us = length (ordersOf r coin later)
                   \<and> trade_Coin t = coin
                   \<and> Side t = (if IsBuy order then ''buy'' else ''sell'')
                   \<and> Px t = Price order \<and> Sz t = Size order"
      by (intro exI [of _ "drop n ?A"] exI [of _ "?T order"] exI [of _ ?us]) simp
  }
  {
    assume "action_Type (Action action) \<noteq> ''order''"
    then show "?after = r"
      by (simp add: processSignedAction_def processCancellations_def)
  }
qed

text \<open>
  The example of the specification, in an action of two orders: asset 0 is BTC and asset 1
  is ETH in the sample tables. The purchase of BTC and the sale of ETH both become trades.
\<close>

theorem order_action_yields_trade_witness:
  "(\<exists>ts t us. latestTrades (processSignedAction (\<lambda>s. None) 0 sampleAction2 []
                               (NewLocalNodeReader (Some sampleTables))) ''BTC''
                = Some (ts @ t # us)
         \<and> length us = 0 \<and> trade_Coin t = ''BTC'' \<and> Side t = ''buy''
         \<and> Px t = ''100.5'' \<and> Sz t = ''2.0'')
   \<and> (\<exists>ts t us. latestTrades (processSignedAction (\<lambda>s. None) 0 sampleAction2 []
                                 (NewLocalNodeReader (Some sampleTables))) ''ETH''
                  = Some (ts @ t # us)
           \<and> length us = 0 \<and> trade_Coin t = ''ETH'' \<and> Side t = ''sell''
           \<and> Px t = ''3000'' \<and> Sz t = ''0.1'')
   \<and> map (\<lambda>t. (trade_Coin t, Side t, Px t, Sz t))
        (ringOf (processSignedAction (\<lambda>s. None) 0 sampleAction2 []
                   (NewLocalNodeReader (Some sampleTables))) ''BTC'')
       = [(''BTC'', ''buy'', ''100.5'', ''2.0'')]
   \<and> latestPrices (processSignedAction (\<lambda>s. None) 0 sampleAction2 []
                      (NewLocalNodeReader (Some sampleTables))) ''ETH'' = Some ''3000''
   \<and> latestTrades (processSignedAction (\<lambda>s. None) 0 sampleAction2 []
                      (NewLocalNodeReader (Some sampleTables))) ''SOL'' = None
   \<and> processSignedAction (\<lambda>s. None) 0
        (sampleAction2\<lparr>Action := (Action sampleAction2)\<lparr>action_Type := ''noop''\<rparr>\<rparr>) []
        (NewLocalNodeReader (Some sampleTables))
       = NewLocalNodeReader (Some sampleTables)"
proof -
  let ?r = "NewLocalNodeReader (Some sampleTables)"
  let ?noop = "sampleAction2\<lparr>Action := (Action sampleAction2)\<lparr>action_Type := ''noop''\<rparr>\<rparr>"
  have a: "action_Type (Action sampleAction2) = ''order''"
    "Orders (Action sampleAction2) = [] @ sampleOrder # [sampleSell]"
    "Orders (Action sampleAction2) = [sampleOrder] @ sampleSell # []"
    "action_Type (Action ?noop) \<noteq> ''order''"
    by (simp_all add: sampleAction2_def)
  have s: "getAssetSymbol ?r (Asset sampleOrder) = ''BTC''"
    "getAssetSymbol ?r (Asset sampleSell) = ''ETH''"
    by (simp_all add: sample_asset_defs getAssetSymbol_def GetAssetByID_def
          NewLocalNodeReader_def sampleOrder_def sampleSell_def)
  have o: "ordersOf ?r ''BTC'' (Orders (Action sampleAction2)) = [sampleOrder]"
    "ordersOf ?r ''ETH'' (Orders (Action sampleAction2)) = [sampleSell]"
    "ordersOf ?r ''SOL'' (Orders (Action sampleAction2)) = []"
    "ordersOf ?r ''BTC'' [sampleSell] = []" "ordersOf ?r ''ETH'' [] = []"
    using s by (simp_all add: ordersOf_simps sampleAction2_def)
  have r0: "ringOf ?r ''BTC'' = []" "latestTrades ?r ''SOL'' = None"
    by (simp_all add: ringOf_def NewLocalNodeReader_def)
  have f: "IsBuy sampleOrder" "Price sampleOrder = ''100.5''" "Size sampleOrder = ''2.0''"
    "\<not> IsBuy sampleSell" "Price sampleSell = ''3000''" "Size sampleSell = ''0.1''"
    by (simp_all add: sampleOrder_def sampleSell_def)
  note t = order_action_yields_trade
  from t [where action = sampleAction2 and r = ?r and coin = "''BTC''" and earlier = "[]"
            and order = sampleOrder and later = "[sampleSell]" and parseTime = "\<lambda>s. None"
            and now = 0 and blockTime = "[]"] a s o r0 f
  have 1: "(\<exists>ts t us. latestTrades (processSignedAction (\<lambda>s. None) 0 sampleAction2 [] ?r)
                          ''BTC'' = Some (ts @ t # us)
         \<and> length us = 0 \<and> trade_Coin t = ''BTC'' \<and> Side t = ''buy''
         \<and> Px t = ''100.5'' \<and> Sz t = ''2.0'')
      \<and> map (\<lambda>t. (trade_Coin t, Side t, Px t, Sz t))
           (ringOf (processSignedAction (\<lambda>s. None) 0 sampleAction2 [] ?r) ''BTC'')
          = [(''BTC'', ''buy'', ''100.5'', ''2.0'')]"
    by simp
  from t [where action = sampleAction2 and r = ?r and coin = "''ETH''"
            and earlier = "[sampleOrder]" and order = sampleSell and later = "[]"
            and parseTime = "\<lambda>s. None" and now = 0 and blockTime = "[]"] a s o f
  have 2: "(\<exists>ts t us. latestTrades (processSignedAction (\<lambda>s. None) 0 sampleAction2 [] ?r)
                          ''ETH'' = Some (ts @ t # us)
         \<and> length us = 0 \<and> trade_Coin t = ''ETH'' \<and> Side t = ''sell''
         \<and> Px t = ''3000'' \<and> Sz t = ''0.1'')
      \<and> latestPrices (processSignedAction (\<lambda>s. None) 0 sampleAction2 [] ?r) ''ETH''
          = Some ''3000''"
    by simp
  from t [where action = sampleAction2 and r = ?r and coin = "''SOL''"
            and parseTime = "\<lambda>s. None" and now = 0 and blockTime = "[]"] a o r0
  have 3: "latestTrades (processSignedAction (\<lambda>s. None) 0 sampleAction2 [] ?r) ''SOL'' = None"
    by simp
  from t [where action = ?noop and r = ?r and parseTime = "\<lambda>s. None" and now = 0
            and blockTime = "[]"] a
  have 4: "processSignedAction (\<lambda>s. None) 0 ?noop [] ?r = ?r" by simp
  from 1 2 3 4 show ?thesis by simp
qed

section \<open>File offsets of the incremental reader\<close>

























subsection \<open>The lines of a chunk\<close>






subsection \<open>The last line of a read\<close>









lemmas sample_reader_defs =
  sampleReader_def NewLocalNodeReader_def sampleUnmarshal_def lastReadPos_def
  readBlockFile_def bytesRead_def remainingSize_def chunkRead_def capHit_def
  TrimSpace_def TrimRightSpace_def asciiSpace_def space2_def space3_def
  processBlock_def scanBlockFiles_def scanFile_def Let_def


text \<open>
  A line that starts with a no-break space (the bytes C2 A0): its trimmed text decodes, so
  its block is processed, and the offset stored is 3 in a file of 5 bytes.
\<close>

lemma no_break_space_line:
  "lastReadPos (readBlockFile sampleUnmarshal (\<lambda>s. None) 0 ''d/0''
                  ([CHR 0xC2, CHR 0xA0] @ ''{}\<newline>'') 100 0 sampleReader) ''d/0'' = 3
   \<and> length (latestBlocks (readBlockFile sampleUnmarshal (\<lambda>s. None) 0 ''d/0''
                  ([CHR 0xC2, CHR 0xA0] @ ''{}\<newline>'') 100 0 sampleReader)) = 1"
  by (simp add: sample_reader_defs)


section \<open>Request ids and response slots of the connector\<close>

lemma handlePostResponse_fields:
  "nextRequestID (handlePostResponse i parsed c) = nextRequestID c"
  "isConnected (handlePostResponse i parsed c) = isConnected c"
  "outgoingMessages (handlePostResponse i parsed c) = outgoingMessages c"
  "dom (postRequests (handlePostResponse i parsed c)) = dom (postRequests c)"
  by (auto simp: handlePostResponse_def split: option.splits)

lemma readPumpPosts_Nil: "readPumpPosts [] c = c"
  by (simp add: readPumpPosts_def)

lemma readPumpPosts_Cons:
  "readPumpPosts ((i, parsed) # frames) c = readPumpPosts frames (handlePostResponse i parsed c)"
  by (simp add: readPumpPosts_def)

lemma readPumpPosts_append:
  "readPumpPosts (xs @ ys) c = readPumpPosts ys (readPumpPosts xs c)"
  by (simp add: readPumpPosts_def)

lemma readPumpPosts_fields:
  "nextRequestID (readPumpPosts frames c) = nextRequestID c"
  "isConnected (readPumpPosts frames c) = isConnected c"
  "outgoingMessages (readPumpPosts frames c) = outgoingMessages c"
  "dom (postRequests (readPumpPosts frames c)) = dom (postRequests c)"
  by (induction frames arbitrary: c)
     (simp_all add: readPumpPosts_Nil readPumpPosts_Cons handlePostResponse_fields split_paired_all)

text \<open>What the read pump does to the slots depends on the slots alone.\<close>

lemma handlePostResponse_slots_cong:
  "postRequests c = postRequests c' \<Longrightarrow>
   postRequests (handlePostResponse i parsed c) = postRequests (handlePostResponse i parsed c')"
  by (simp add: handlePostResponse_def split: option.splits)

lemma readPumpPosts_slots_cong:
  "postRequests c = postRequests c' \<Longrightarrow>
   postRequests (readPumpPosts frames c) = postRequests (readPumpPosts frames c')"
proof (induction frames arbitrary: c c')
  case Nil
  then show ?case by (simp add: readPumpPosts_Nil)
next
  case (Cons frame frames)
  obtain i parsed where f: "frame = (i, parsed)" by (cases frame)
  from Cons.prems have "postRequests (handlePostResponse i parsed c)
                          = postRequests (handlePostResponse i parsed c')"
    by (rule handlePostResponse_slots_cong)
  then show ?case unfolding f readPumpPosts_Cons by (rule Cons.IH)
qed

text \<open>A slot that holds a response keeps it; an empty slot takes the first response for
  its id that decodes.\<close>

lemma readPumpPosts_full:
  "postRequests c k = Some [r] \<Longrightarrow> postRequests (readPumpPosts frames c) k = Some [r]"
proof (induction frames arbitrary: c)
  case Nil
  then show ?case by (simp add: readPumpPosts_Nil)
next
  case (Cons frame frames)
  obtain i parsed where f: "frame = (i, parsed)" by (cases frame)
  from Cons.prems have "postRequests (handlePostResponse i parsed c) k = Some [r]"
    by (auto simp: handlePostResponse_def split: option.splits)
  then show ?case unfolding f readPumpPosts_Cons by (rule Cons.IH)
qed

lemma readPumpPosts_unanswered:
  "postRequests c k = Some [] \<Longrightarrow> \<forall>(i, parsed)\<in>set frames. i = k \<longrightarrow> parsed = None \<Longrightarrow>
   postRequests (readPumpPosts frames c) k = Some []"
proof (induction frames arbitrary: c)
  case Nil
  then show ?case by (simp add: readPumpPosts_Nil)
next
  case (Cons frame frames)
  obtain i parsed where f: "frame = (i, parsed)" by (cases frame)
  from Cons.prems f have "postRequests (handlePostResponse i parsed c) k = Some []"
    by (auto simp: handlePostResponse_def split: option.splits)
  moreover from Cons.prems have "\<forall>(i, parsed)\<in>set frames. i = k \<longrightarrow> parsed = None" by simp
  ultimately show ?case unfolding f readPumpPosts_Cons by (rule Cons.IH)
qed

lemma readPumpPosts_answered:
  assumes "postRequests c k = Some []"
    and "frames = before @ (k, Some r) # after"
    and "\<forall>(i, parsed)\<in>set before. i = k \<longrightarrow> parsed = None"
  shows "postRequests (readPumpPosts frames c) k = Some [r]"
proof -
  have "postRequests (readPumpPosts before c) k = Some []"
    using assms(1,3) by (rule readPumpPosts_unanswered)
  then have "postRequests (handlePostResponse k (Some r) (readPumpPosts before c)) k = Some [r]"
    by (simp add: handlePostResponse_def)
  then show ?thesis
    unfolding assms(2) readPumpPosts_append readPumpPosts_Cons by (rule readPumpPosts_full)
qed

lemma sendMessage_cases:
  "sendMessage drained message c =
     (if length (outgoingMessages c) < 1000 \<or> drained
      then (None, c\<lparr>outgoingMessages :=
                      (if length (outgoingMessages c) < 1000 then outgoingMessages c
                       else tl (outgoingMessages c)) @ [message]\<rparr>)
      else (Some SendTimeout, c))"
  by (simp add: sendMessage_def)

text \<open>
  The call on a connected connector, in two cases. \<open>slots\<close> are the slots at the time
  of the final select: the new slot over those of before, after the read pump has handled
  all the frames.
\<close>

lemma PostRequest_send_timeout:
  assumes "isConnected c" and "1000 \<le> length (outgoingMessages c)" and "\<not> drained"
  shows "PostRequest drained arrivals requestType payload c =
           (Inl SendTimeout,
            postCleanup (nextRequestID c) (readPumpPosts (fst arrivals) (snd (postRegister c))))"
  using assms
  by (simp add: PostRequest_def postRegister_def Let_def sendMessage_cases
        readPumpPosts_fields)

lemma PostRequest_sent:
  assumes "isConnected c" and "length (outgoingMessages c) < 1000 \<or> drained"
  shows "\<exists>c'. PostRequest drained arrivals requestType payload c =
           ((case postRequests c' (nextRequestID c) of
               Some (response # queued) \<Rightarrow> Inr response
             | other \<Rightarrow> Inl RequestTimeout),
            postCleanup (nextRequestID c) c')
         \<and> postRequests c'
             = postRequests (readPumpPosts (fst arrivals @ snd arrivals) (snd (postRegister c)))
         \<and> nextRequestID c' = wrap64 (nextRequestID c + 1)
         \<and> isConnected c'
         \<and> outgoingMessages c' =
             (if length (outgoingMessages c) < 1000 then outgoingMessages c
              else tl (outgoingMessages c)) @ [postMessage (nextRequestID c) requestType payload]"
proof -
  let ?c1 = "snd (postRegister c)"
  let ?c2 = "readPumpPosts (fst arrivals) ?c1"
  let ?msg = "postMessage (nextRequestID c) requestType payload"
  let ?c3 = "?c2\<lparr>outgoingMessages :=
               (if length (outgoingMessages ?c2) < 1000 then outgoingMessages ?c2
                else tl (outgoingMessages ?c2)) @ [?msg]\<rparr>"
  let ?c4 = "readPumpPosts (snd arrivals) ?c3"
  have out: "outgoingMessages ?c2 = outgoingMessages c"
    by (simp add: readPumpPosts_fields postRegister_def Let_def)
  have send: "sendMessage drained ?msg ?c2 = (None, ?c3)"
    using assms(2) by (simp add: sendMessage_cases out)
  have run: "PostRequest drained arrivals requestType payload c =
           ((case postRequests ?c4 (nextRequestID c) of
               Some (response # queued) \<Rightarrow> Inr response
             | other \<Rightarrow> Inl RequestTimeout),
            postCleanup (nextRequestID c) ?c4)"
    using assms(1) send
    by (simp add: PostRequest_def postRegister_def Let_def split: option.splits list.splits)
  have "postRequests ?c3 = postRequests ?c2" by simp
  then have "postRequests ?c4 = postRequests (readPumpPosts (snd arrivals) ?c2)"
    by (rule readPumpPosts_slots_cong)
  then have slots: "postRequests ?c4
                      = postRequests (readPumpPosts (fst arrivals @ snd arrivals) ?c1)"
    by (simp add: readPumpPosts_append)
  have fields: "nextRequestID ?c4 = wrap64 (nextRequestID c + 1)" "isConnected ?c4"
    "outgoingMessages ?c4 =
       (if length (outgoingMessages c) < 1000 then outgoingMessages c
        else tl (outgoingMessages c)) @ [?msg]"
    using assms(1) by (simp_all add: readPumpPosts_fields out postRegister_def Let_def)
  from run slots fields show ?thesis by (intro exI [of _ ?c4] conjI)
qed

lemma postRegister_slot: "postRequests (snd (postRegister c)) (nextRequestID c) = Some []"
  by (simp add: postRegister_def Let_def)

lemma postCleanup_fields:
  "nextRequestID (postCleanup k c) = nextRequestID c"
  "isConnected (postCleanup k c) = isConnected c"
  "outgoingMessages (postCleanup k c) = outgoingMessages c"
  "postRequests (postCleanup k c) k = None"
  "dom (postRequests (postCleanup k c)) = dom (postRequests c) - {k}"
  by (auto simp: postCleanup_def)

lemma PostRequest_disconnected:
  "\<not> isConnected c \<Longrightarrow> PostRequest drained arrivals t p c = (Inl NotConnected, c)"
  by (simp add: PostRequest_def)

text \<open>What every call on a connected connector leaves behind.\<close>

lemma PostRequest_state:
  assumes "isConnected c"
  shows "nextRequestID (snd (PostRequest drained arrivals t p c)) = wrap64 (nextRequestID c + 1)
      \<and> isConnected (snd (PostRequest drained arrivals t p c))
      \<and> postRequests (snd (PostRequest drained arrivals t p c)) (nextRequestID c) = None
      \<and> dom (postRequests (snd (PostRequest drained arrivals t p c)))
           = dom (postRequests c) - {nextRequestID c}"
proof -
  let ?k = "nextRequestID c"
  have reg: "dom (postRequests (snd (postRegister c))) = insert ?k (dom (postRequests c))"
    "nextRequestID (snd (postRegister c)) = wrap64 (?k + 1)"
    "isConnected (snd (postRegister c))"
    using assms by (auto simp: postRegister_def Let_def)
  show ?thesis
  proof (cases "length (outgoingMessages c) < 1000 \<or> drained")
    case True
    from PostRequest_sent [OF assms True, of arrivals t p] obtain c' where
      r: "snd (PostRequest drained arrivals t p c) = postCleanup ?k c'"
      and s: "postRequests c'
                = postRequests (readPumpPosts (fst arrivals @ snd arrivals) (snd (postRegister c)))"
      and f: "nextRequestID c' = wrap64 (?k + 1)" "isConnected c'"
      by auto
    have "dom (postRequests c') = insert ?k (dom (postRequests c))"
      unfolding s by (simp add: readPumpPosts_fields reg)
    with f show ?thesis unfolding r by (simp add: postCleanup_fields)
  next
    case False
    then have "1000 \<le> length (outgoingMessages c)" "\<not> drained" by simp_all
    from PostRequest_send_timeout [OF assms this, of arrivals t p]
    have r: "snd (PostRequest drained arrivals t p c)
               = postCleanup ?k (readPumpPosts (fst arrivals) (snd (postRegister c)))" by simp
    show ?thesis unfolding r by (simp add: postCleanup_fields readPumpPosts_fields reg)
  qed
qed

lemma wrap64_succ: "- (2 ^ 63) \<le> n \<Longrightarrow> n + 1 < 2 ^ 63 \<Longrightarrow> wrap64 (n + 1) = n + 1"
  by (simp add: wrap64_def)

lemma postCalls_increasing:
  "- (2 ^ 63) \<le> nextRequestID c \<Longrightarrow> nextRequestID c + int (length calls) < 2 ^ 63 \<Longrightarrow>
   sorted_wrt (<) (fst (postCalls calls c)) \<and> (\<forall>i\<in>set (fst (postCalls calls c)). nextRequestID c \<le> i)"
proof (induction calls arbitrary: c)
  case Nil
  then show ?case by simp
next
  case (Cons call calls)
  obtain drained arrivals t p where call: "call = (drained, arrivals, t, p)" by (cases call)
  let ?c1 = "snd (PostRequest drained arrivals t p c)"
  show ?case
  proof (cases "isConnected c")
    case False
    then have "?c1 = c" by (simp add: PostRequest_disconnected)
    with Cons call False show ?thesis by (simp add: split_def)
  next
    case True
    have n1: "nextRequestID ?c1 = nextRequestID c + 1"
      using PostRequest_state [OF True, THEN conjunct1] Cons.prems wrap64_succ [of "nextRequestID c"]
      by simp
    with Cons.prems have "- (2 ^ 63) \<le> nextRequestID ?c1"
      "nextRequestID ?c1 + int (length calls) < 2 ^ 63" by simp_all
    from Cons.IH [OF this] n1
    have ih: "sorted_wrt (<) (fst (postCalls calls ?c1))"
      "\<forall>i\<in>set (fst (postCalls calls ?c1)). nextRequestID c + 1 \<le> i" by simp_all
    have "fst (postCalls (call # calls) c) = nextRequestID c # fst (postCalls calls ?c1)"
      using True call by (simp add: split_def postRegister_def Let_def)
    with ih show ?thesis by auto
  qed
qed

text \<open>
  C9. In a run of POST requests that stays inside the \<^verbatim>\<open>int64\<close> range the assigned
  ids are strictly increasing, so each is greater than every id assigned before. For one
  call on a connected connector, whose id is the value of \<^verbatim>\<open>nextRequestID\<close> when it
  starts:

  \<^item> the next id is one more (in 64-bit arithmetic);
  \<^item> when the outgoing queue is full and is not drained within the send timeout, the
    call returns the send timeout and the queue is as before;
  \<^item> otherwise the request, carrying the id, the type and the payload, is put at the end
    of the outgoing queue, and the slot of the id exists from before that moment: the
    first response for the id that decodes, among those that the read pump handles
    before the request has entered the queue and those it handles afterwards, is what the
    call returns; when there is none, the call returns the request timeout;
  \<^item> in each of these cases, which are all, the call returns, and in the connector it
    leaves the slot of the id is gone and the slots are those of before the call without
    that id.

  A call on a disconnected connector returns at once and changes nothing.
\<close>

theorem post_request_correlation:
  "(- (2 ^ 63) \<le> nextRequestID c \<and> nextRequestID c + int (length calls) < 2 ^ 63 \<longrightarrow>
      sorted_wrt (<) (fst (postCalls calls c)))
   \<and> (isConnected c \<longrightarrow>
        nextRequestID (snd (PostRequest drained arrivals requestType payload c))
          = wrap64 (nextRequestID c + 1)
      \<and> postRequests (snd (PostRequest drained arrivals requestType payload c))
           (nextRequestID c) = None
      \<and> dom (postRequests (snd (PostRequest drained arrivals requestType payload c)))
          = dom (postRequests c) - {nextRequestID c}
      \<and> (1000 \<le> length (outgoingMessages c) \<and> \<not> drained \<longrightarrow>
           fst (PostRequest drained arrivals requestType payload c) = Inl SendTimeout
         \<and> outgoingMessages (snd (PostRequest drained arrivals requestType payload c))
             = outgoingMessages c)
      \<and> (length (outgoingMessages c) < 1000 \<or> drained \<longrightarrow>
           outgoingMessages (snd (PostRequest drained arrivals requestType payload c))
             = (if length (outgoingMessages c) < 1000 then outgoingMessages c
                else tl (outgoingMessages c))
               @ [\<lparr>Method = ''post'', msg_Subscription = None, Channel = [], Data = NoData,
                   ID = Some (nextRequestID c),
                   Request = Some \<lparr>post_Type = requestType, Payload = payload\<rparr>\<rparr>]
         \<and> (fst arrivals @ snd arrivals = before @ (nextRequestID c, Some response) # after
              \<and> (\<forall>(i, parsed)\<in>set before. i = nextRequestID c \<longrightarrow> parsed = None) \<longrightarrow>
              fst (PostRequest drained arrivals requestType payload c) = Inr response)
         \<and> ((\<forall>(i, parsed)\<in>set (fst arrivals @ snd arrivals).
                 i = nextRequestID c \<longrightarrow> parsed = None) \<longrightarrow>
              fst (PostRequest drained arrivals requestType payload c) = Inl RequestTimeout)))
   \<and> (\<not> isConnected c \<longrightarrow>
        PostRequest drained arrivals requestType payload c = (Inl NotConnected, c))"
proof (intro conjI impI)
  assume "- (2 ^ 63) \<le> nextRequestID c \<and> nextRequestID c + int (length calls) < 2 ^ 63"
  then show "sorted_wrt (<) (fst (postCalls calls c))"
    using postCalls_increasing [of c calls] by simp
next
  assume con: "isConnected c"
  note st = PostRequest_state [OF con, of drained arrivals requestType payload]
  from st show "nextRequestID (snd (PostRequest drained arrivals requestType payload c))
          = wrap64 (nextRequestID c + 1)" by simp
  from st show "postRequests (snd (PostRequest drained arrivals requestType payload c))
           (nextRequestID c) = None" by simp
  from st show "dom (postRequests (snd (PostRequest drained arrivals requestType payload c)))
          = dom (postRequests c) - {nextRequestID c}" by simp
  {
    assume "1000 \<le> length (outgoingMessages c) \<and> \<not> drained"
    then have full: "1000 \<le> length (outgoingMessages c)" and nd: "\<not> drained" by simp_all
    note r = PostRequest_send_timeout [OF con full nd, of arrivals requestType payload]
    show "fst (PostRequest drained arrivals requestType payload c) = Inl SendTimeout"
      unfolding r by simp
    show "outgoingMessages (snd (PostRequest drained arrivals requestType payload c))
             = outgoingMessages c"
      unfolding r
      by (simp add: postCleanup_fields readPumpPosts_fields postRegister_def Let_def)
  }
  {
    assume room: "length (outgoingMessages c) < 1000 \<or> drained"
    from PostRequest_sent [OF con room, of arrivals requestType payload] obtain c' where
      r: "PostRequest drained arrivals requestType payload c =
           ((case postRequests c' (nextRequestID c) of
               Some (response # queued) \<Rightarrow> Inr response
             | other \<Rightarrow> Inl RequestTimeout),
            postCleanup (nextRequestID c) c')"
      and s: "postRequests c'
                = postRequests (readPumpPosts (fst arrivals @ snd arrivals)
                                  (snd (postRegister c)))"
      and out: "outgoingMessages c' =
             (if length (outgoingMessages c) < 1000 then outgoingMessages c
              else tl (outgoingMessages c)) @ [postMessage (nextRequestID c) requestType payload]"
      by auto
    show "outgoingMessages (snd (PostRequest drained arrivals requestType payload c))
             = (if length (outgoingMessages c) < 1000 then outgoingMessages c
                else tl (outgoingMessages c))
               @ [\<lparr>Method = ''post'', msg_Subscription = None, Channel = [], Data = NoData,
                   ID = Some (nextRequestID c),
                   Request = Some \<lparr>post_Type = requestType, Payload = payload\<rparr>\<rparr>]"
      unfolding r by (simp add: postCleanup_fields out postMessage_def)
    {
      assume "fst arrivals @ snd arrivals = before @ (nextRequestID c, Some response) # after
              \<and> (\<forall>(i, parsed)\<in>set before. i = nextRequestID c \<longrightarrow> parsed = None)"
      then have "postRequests c' (nextRequestID c) = Some [response]"
        unfolding s using readPumpPosts_answered [OF postRegister_slot [of c]] by blast
      then show "fst (PostRequest drained arrivals requestType payload c) = Inr response"
        unfolding r by simp
    }
    {
      assume "\<forall>(i, parsed)\<in>set (fst arrivals @ snd arrivals).
                 i = nextRequestID c \<longrightarrow> parsed = None"
      then have "postRequests c' (nextRequestID c) = Some []"
        unfolding s using readPumpPosts_unanswered [OF postRegister_slot [of c]] by blast
      then show "fst (PostRequest drained arrivals requestType payload c) = Inl RequestTimeout"
        unfolding r by simp
    }
  }
next
  assume "\<not> isConnected c"
  then show "PostRequest drained arrivals requestType payload c = (Inl NotConnected, c)"
    by (rule PostRequest_disconnected)
qed

text \<open>
  On a freshly connected connector: three calls, the second answered while it waits, get
  the ids 1, 2, 3. A call whose answer the read pump handles after the request was queued
  returns that answer, and leaves the request with id 1 in the outgoing queue and no
  slot. A call for which the read pump handles a frame that does not decode and then the
  answer, both before the request has entered the queue, and another answer afterwards,
  returns the first answer. A call that nothing answers returns the request timeout. With
  1000 messages waiting in the outgoing queue and no drain the call returns the send
  timeout. A call on the new, still disconnected connector returns the error and the
  connector unchanged.
\<close>

theorem post_request_correlation_witness:
  "fst (postCalls [(False, ([], []), ''info'', ''{}''),
                   (False, ([], [(2, Some sampleAnswer)]), ''info'', ''{}''),
                   (False, ([], []), ''info'', ''{}'')] sampleConnected) = [1, 2, 3]
   \<and> sorted_wrt (<) (fst (postCalls [(False, ([], []), ''info'', ''{}''),
                   (False, ([], [(2, Some sampleAnswer)]), ''info'', ''{}''),
                   (False, ([], []), ''info'', ''{}'')] sampleConnected))
   \<and> fst (PostRequest False ([], [(1, Some sampleAnswer)]) ''info'' ''{}'' sampleConnected)
       = Inr sampleAnswer
   \<and> outgoingMessages (snd (PostRequest False ([], [(1, Some sampleAnswer)]) ''info'' ''{}''
                               sampleConnected))
       = [\<lparr>Method = ''post'', msg_Subscription = None, Channel = [], Data = NoData,
           ID = Some 1, Request = Some \<lparr>post_Type = ''info'', Payload = ''{}''\<rparr>\<rparr>]
   \<and> nextRequestID (snd (PostRequest False ([], [(1, Some sampleAnswer)]) ''info'' ''{}''
                            sampleConnected)) = 2
   \<and> dom (postRequests (snd (PostRequest False ([], [(1, Some sampleAnswer)]) ''info'' ''{}''
                               sampleConnected))) = {}
   \<and> fst (PostRequest False ([(1, None), (1, Some sampleAnswer)], [(1, Some sampleLateAnswer)])
            ''info'' ''{}'' sampleConnected) = Inr sampleAnswer
   \<and> fst (PostRequest False ([(2, Some sampleAnswer)], [(1, None)]) ''info'' ''{}''
            sampleConnected) = Inl RequestTimeout
   \<and> postRequests (snd (PostRequest False ([(2, Some sampleAnswer)], [(1, None)]) ''info''
                          ''{}'' sampleConnected)) 1 = None
   \<and> fst (PostRequest False ([], [(1, Some sampleAnswer)]) ''info'' ''{}''
            (sampleConnected\<lparr>outgoingMessages :=
               replicate 1000 (postMessage 0 ''info'' ''{}'')\<rparr>)) = Inl SendTimeout
   \<and> dom (postRequests (snd (PostRequest False ([], [(1, Some sampleAnswer)]) ''info'' ''{}''
            (sampleConnected\<lparr>outgoingMessages :=
               replicate 1000 (postMessage 0 ''info'' ''{}'')\<rparr>)))) = {}
   \<and> PostRequest False ([], []) ''info'' ''{}'' NewConnector = (Inl NotConnected, NewConnector)"
proof -
  let ?calls = "[(False, ([], []), ''info'', ''{}''),
                 (False, ([], [(2, Some sampleAnswer)]), ''info'', ''{}''),
                 (False, ([], []), ''info'', ''{}'')]"
  let ?full = "sampleConnected\<lparr>outgoingMessages := replicate 1000 (postMessage 0 ''info'' ''{}'')\<rparr>"
  have ids: "fst (postCalls ?calls sampleConnected) = [1, 2, 3]"
    by (simp add: sampleConnected_def NewConnector_def PostRequest_def postRegister_def
          sendMessage_def postMessage_def postCleanup_def handlePostResponse_def
          readPumpPosts_def wrap64_def Let_def)
  have c: "isConnected sampleConnected" "\<not> isConnected NewConnector"
    "nextRequestID sampleConnected = 1" "dom (postRequests sampleConnected) = {}"
    "outgoingMessages sampleConnected = []"
    "isConnected ?full" "nextRequestID ?full = 1" "dom (postRequests ?full) = {}"
    "length (outgoingMessages ?full) = 1000"
    by (simp_all add: sampleConnected_def NewConnector_def)
  have w: "wrap64 (1 + 1) = 2" by (simp add: wrap64_def)
  note t = post_request_correlation
  from t [where c = sampleConnected and calls = ?calls] c ids
  have 1: "fst (postCalls ?calls sampleConnected) = [1, 2, 3]
           \<and> sorted_wrt (<) (fst (postCalls ?calls sampleConnected))" by simp
  from t [where c = sampleConnected and drained = False
            and arrivals = "([], [(1, Some sampleAnswer)])" and requestType = "''info''"
            and payload = "''{}''" and before = "[]" and response = sampleAnswer
            and after = "[]"] c w
  have 2: "fst (PostRequest False ([], [(1, Some sampleAnswer)]) ''info'' ''{}''
                  sampleConnected) = Inr sampleAnswer
     \<and> outgoingMessages (snd (PostRequest False ([], [(1, Some sampleAnswer)]) ''info'' ''{}''
                                 sampleConnected))
         = [\<lparr>Method = ''post'', msg_Subscription = None, Channel = [], Data = NoData,
             ID = Some 1, Request = Some \<lparr>post_Type = ''info'', Payload = ''{}''\<rparr>\<rparr>]
     \<and> nextRequestID (snd (PostRequest False ([], [(1, Some sampleAnswer)]) ''info'' ''{}''
                              sampleConnected)) = 2
     \<and> dom (postRequests (snd (PostRequest False ([], [(1, Some sampleAnswer)]) ''info''
                                 ''{}'' sampleConnected))) = {}"
    by simp
  from t [where c = sampleConnected and drained = False
            and arrivals = "([(1, None), (1, Some sampleAnswer)], [(1, Some sampleLateAnswer)])"
            and requestType = "''info''" and payload = "''{}''" and before = "[(1, None)]"
            and response = sampleAnswer and after = "[(1, Some sampleLateAnswer)]"] c
  have 3: "fst (PostRequest False
                  ([(1, None), (1, Some sampleAnswer)], [(1, Some sampleLateAnswer)])
                  ''info'' ''{}'' sampleConnected) = Inr sampleAnswer"
    by simp
  from t [where c = sampleConnected and drained = False
            and arrivals = "([(2, Some sampleAnswer)], [(1, None)])"
            and requestType = "''info''" and payload = "''{}''"] c
  have 4: "fst (PostRequest False ([(2, Some sampleAnswer)], [(1, None)]) ''info'' ''{}''
                  sampleConnected) = Inl RequestTimeout
     \<and> postRequests (snd (PostRequest False ([(2, Some sampleAnswer)], [(1, None)]) ''info''
                            ''{}'' sampleConnected)) 1 = None"
    by simp
  from t [where c = ?full and drained = False
            and arrivals = "([], [(1, Some sampleAnswer)])"
            and requestType = "''info''" and payload = "''{}''"] c
  have 5: "fst (PostRequest False ([], [(1, Some sampleAnswer)]) ''info'' ''{}'' ?full)
             = Inl SendTimeout
     \<and> dom (postRequests (snd (PostRequest False ([], [(1, Some sampleAnswer)]) ''info''
                                 ''{}'' ?full))) = {}"
    by simp
  from t [where c = NewConnector and drained = False and arrivals = "([], [])"
            and requestType = "''info''" and payload = "''{}''"] c
  have 6: "PostRequest False ([], []) ''info'' ''{}'' NewConnector
             = (Inl NotConnected, NewConnector)"
    by simp
  from 1 2 3 4 5 6 show ?thesis by simp
qed

section \<open>The registry under unsubscribe and clean-up\<close>

lemma dropClient_map_of:
  "map_of (dropClient c key reg) k =
     (if k = key
      then (case map_of reg key of
              None \<Rightarrow> None
            | Some i \<Rightarrow> if removeAll c (Clients i) = [] then None
                        else Some (i\<lparr>Clients := removeAll c (Clients i)\<rparr>))
      else map_of reg k)"
  by (auto simp: dropClient_def Let_def AList.update_conv' AList.delete_conv'
        split: option.splits)

lemma dropClient_distinct:
  "distinct (map fst reg) \<Longrightarrow> distinct (map fst (dropClient c key reg))"
  by (auto simp: dropClient_def Let_def AList.distinct_update AList.distinct_delete
        split: option.splits)

lemma noEmptyEntry_map_of:
  "noEmptyEntry reg \<longleftrightarrow>
     distinct (map fst reg) \<and> (\<forall>k i. map_of reg k = Some i \<longrightarrow> Clients i \<noteq> [])"
proof -
  have "distinct (map fst reg) \<Longrightarrow>
        list_all (\<lambda>(key, subInfo). Clients subInfo \<noteq> []) reg
          \<longleftrightarrow> (\<forall>k i. map_of reg k = Some i \<longrightarrow> Clients i \<noteq> [])"
    by (auto simp: list_all_iff dest: map_of_SomeD)
  then show ?thesis by (auto simp: noEmptyEntry_def)
qed

lemma dropClient_noEmpty: "noEmptyEntry reg \<Longrightarrow> noEmptyEntry (dropClient c key reg)"
  unfolding noEmptyEntry_map_of
  by (auto simp: dropClient_map_of dropClient_distinct split: option.splits if_splits)

lemma fold_dropClient_noEmpty:
  "noEmptyEntry r \<Longrightarrow> noEmptyEntry (fold (dropClient c) ks r)"
proof (induction ks arbitrary: r)
  case Nil
  then show ?case by simp
next
  case (Cons k ks)
  have "noEmptyEntry (dropClient c k r)" using Cons.prems by (rule dropClient_noEmpty)
  then have "noEmptyEntry (fold (dropClient c) ks (dropClient c k r))" by (rule Cons.IH)
  then show ?case by simp
qed

lemma cleanUp_noEmpty: "noEmptyEntry reg \<Longrightarrow> noEmptyEntry (cleanUp rem reg)"
proof (induction rem arbitrary: reg)
  case Nil
  then show ?case by (simp add: cleanUp_def)
next
  case (Cons a rem)
  obtain c ks where a: "a = (c, ks)" by (cases a)
  have "noEmptyEntry (fold (dropClient c) ks reg)"
    using Cons.prems by (rule fold_dropClient_noEmpty)
  then have "noEmptyEntry (cleanUp rem (fold (dropClient c) ks reg))" by (rule Cons.IH)
  with a show ?case by (simp add: cleanUp_def)
qed








section \<open>The delivery loops of the publisher\<close>

lemma trySend_cases:
  "trySend c d store =
     (if SendClosed (store c) then Inl SendOnClosedChannel
      else if queueFull (store c) \<or> 256 < length (Send (store c)) then Inr (False, store)
      else Inr (True, store(c := (store c)\<lparr>Send := Send (store c) @ [d]\<rparr>)))"
  by (auto simp: trySend_def queueFull_def)


lemma markedPairs_Cons:
  "markedPairs ((c, ks) # rem) = {(c, k) |k. k \<in> set ks} \<union> markedPairs rem"
  by (auto simp: markedPairs_def)

lemma markedPairs_append:
  "markedPairs (rem @ [(c, ks)]) = {(c, k) |k. k \<in> set ks} \<union> markedPairs rem"
  by (auto simp: markedPairs_def)

lemma markedPairs_update:
  "map_of rem c = Some keys \<Longrightarrow>
   markedPairs (AList.update c (keys @ [key]) rem) = insert (c, key) (markedPairs rem)"
proof (induction rem)
  case Nil
  then show ?case by simp
next
  case (Cons a rem)
  obtain c' ks where a: "a = (c', ks)" by (cases a)
  show ?case
  proof (cases "c' = c")
    case True
    with Cons.prems a have ks: "ks = keys" by simp
    have "AList.update c (keys @ [key]) (a # rem) = (c, keys @ [key]) # rem"
      using True a by simp
    then show ?thesis
      using True a ks by (auto simp: markedPairs_Cons)
  next
    case False
    with Cons.prems a have "map_of rem c = Some keys" by simp
    then have ih: "markedPairs (AList.update c (keys @ [key]) rem)
                     = insert (c, key) (markedPairs rem)"
      by (rule Cons.IH)
    have "AList.update c (keys @ [key]) (a # rem)
            = (c', ks) # AList.update c (keys @ [key]) rem"
      using False a by simp
    then show ?thesis
      using a ih by (auto simp: markedPairs_Cons)
  qed
qed

lemma markForRemoval_pairs:
  "markedPairs (markForRemoval c key rem) = insert (c, key) (markedPairs rem)"
proof (cases "map_of rem c")
  case None
  then show ?thesis by (auto simp: markForRemoval_def markedPairs_append)
next
  case (Some keys)
  then show ?thesis by (simp add: markForRemoval_def markedPairs_update)
qed


lemma forwardToClients_effect:
  "forwardToClients key d cs (store, n, rem) = Inr (store', n', rem') \<Longrightarrow>
   (\<forall>x. SendClosed (store' x) = SendClosed (store x))
   \<and> (\<forall>x. Subscriptions (store' x) = Subscriptions (store x))
   \<and> markedPairs rem \<subseteq> markedPairs rem'
   \<and> markedPairs rem' \<subseteq> markedPairs rem \<union> {(c, key) |c. c \<in> set cs}
   \<and> (\<forall>c. queueFull (store c) \<longrightarrow>
          store' c = store c \<and> (c \<in> set cs \<longrightarrow> (c, key) \<in> markedPairs rem'))"
proof (induction cs arbitrary: store n rem)
  case Nil
  then show ?case by simp
next
  case (Cons c cs)
  show ?case
  proof (cases "SendClosed (store c)")
    case True
    with Cons.prems show ?thesis by (simp add: trySend_cases)
  next
    case opened: False
    show ?thesis
    proof (cases "queueFull (store c) \<or> 256 < length (Send (store c))")
      case True
      with opened Cons.prems
      have run: "forwardToClients key d cs (store, n, markForRemoval c key rem)
                   = Inr (store', n', rem')"
        by (simp add: trySend_cases)
      from Cons.IH [OF run] show ?thesis
        by (auto simp: markForRemoval_pairs)
    next
      case False
      let ?store1 = "store(c := (store c)\<lparr>Send := Send (store c) @ [d]\<rparr>)"
      from False opened Cons.prems
      have run: "forwardToClients key d cs (?store1, n + 1, rem) = Inr (store', n', rem')"
        by (simp add: trySend_cases)
      have full: "queueFull (store x) \<Longrightarrow> x \<noteq> c \<and> queueFull (?store1 x)" for x
        using False by auto
      from Cons.IH [OF run] full show ?thesis
        by (auto simp: queueFull_def)
    qed
  qed
qed


lemma deliveries_Nil: "deliveries ch [] = {}"
  by (simp add: deliveries_def)

lemma deliveries_Cons:
  "deliveries ch ((k, i) # reg) =
     (if Type (Subscription i) = ch then {(c, k) |c. c \<in> set (Clients i)} else {})
       \<union> deliveries ch reg"
  by (auto simp: deliveries_def)


lemma forwardToEntries_effect:
  "forwardToEntries ch d now reg (store, n, rem) = Inr (reg', store', n', rem') \<Longrightarrow>
   reg' = withLastMessage ch d now reg
   \<and> (\<forall>x. SendClosed (store' x) = SendClosed (store x))
   \<and> (\<forall>x. Subscriptions (store' x) = Subscriptions (store x))
   \<and> markedPairs rem \<subseteq> markedPairs rem'
   \<and> markedPairs rem' \<subseteq> markedPairs rem \<union> deliveries ch reg
   \<and> (\<forall>c. queueFull (store c) \<longrightarrow>
          store' c = store c \<and> (\<forall>k. (c, k) \<in> deliveries ch reg \<longrightarrow> (c, k) \<in> markedPairs rem'))"
proof (induction reg arbitrary: store n rem reg' store' n' rem')
  case Nil
  then show ?case by (simp add: withLastMessage_def deliveries_Nil)
next
  case (Cons a reg)
  obtain k i where a: "a = (k, i)" by (cases a)
  show ?case
  proof (cases "Type (Subscription i) = ch")
    case False
    from Cons.prems a False obtain rest where
      run: "forwardToEntries ch d now reg (store, n, rem) = Inr (rest, store', n', rem')"
      and reg': "reg' = (k, i) # rest"
      by (auto split: sum.splits)
    from Cons.IH [OF run] reg' a False show ?thesis
      by (simp add: withLastMessage_def deliveries_Cons)
  next
    case True
    from Cons.prems a True obtain store1 n1 rem1 rest where
      inner: "forwardToClients k d (Clients i) (store, n, rem) = Inr (store1, n1, rem1)"
      and run: "forwardToEntries ch d now reg (store1, n1, rem1) = Inr (rest, store', n', rem')"
      and reg': "reg' = (k, i\<lparr>LastMessage := Some d, LastUpdate := now\<rparr>) # rest"
      by (auto split: sum.splits)
    note e1 = forwardToClients_effect [OF inner]
    note e2 = Cons.IH [OF run]
    have r: "reg' = withLastMessage ch d now (a # reg)"
      using e2 reg' a True by (simp add: withLastMessage_def)
    have closed: "\<forall>x. SendClosed (store' x) = SendClosed (store x)"
      using e1 e2 by simp
    have subs: "\<forall>x. Subscriptions (store' x) = Subscriptions (store x)"
      using e1 e2 by simp
    have lower: "markedPairs rem \<subseteq> markedPairs rem'"
      using e1 e2 by blast
    have upper: "markedPairs rem' \<subseteq> markedPairs rem \<union> deliveries ch (a # reg)"
      using e1 e2 a True by (auto simp: deliveries_Cons)
    have full: "store' c = store c \<and>
                (\<forall>k'. (c, k') \<in> deliveries ch (a # reg) \<longrightarrow> (c, k') \<in> markedPairs rem')"
      if f: "queueFull (store c)" for c
    proof -
      from e1 f have s1: "store1 c = store c"
        and m1: "c \<in> set (Clients i) \<longrightarrow> (c, k) \<in> markedPairs rem1" by simp_all
      from s1 f have "queueFull (store1 c)" by simp
      with e2 have s2: "store' c = store1 c"
        and m2: "\<forall>k'. (c, k') \<in> deliveries ch reg \<longrightarrow> (c, k') \<in> markedPairs rem'" by simp_all
      from e2 have "markedPairs rem1 \<subseteq> markedPairs rem'" by simp
      with m1 m2 s1 s2 a True show ?thesis by (auto simp: deliveries_Cons)
    qed
    from r closed subs lower upper full show ?thesis by blast
  qed
qed


lemma withLastMessage_Nil: "withLastMessage ch d now [] = []"
  by (simp add: withLastMessage_def)

lemma withLastMessage_Cons:
  "withLastMessage ch d now ((k, i) # reg) =
     (k, if Type (Subscription i) = ch then i\<lparr>LastMessage := Some d, LastUpdate := now\<rparr>
         else i) # withLastMessage ch d now reg"
  by (simp add: withLastMessage_def)

lemma withLastMessage_keys: "map fst (withLastMessage ch d now reg) = map fst reg"
proof (induction reg)
  case Nil
  then show ?case by (simp add: withLastMessage_Nil)
next
  case (Cons a reg)
  obtain k i where "a = (k, i)" by (cases a)
  with Cons show ?case by (simp add: withLastMessage_Cons)
qed

lemma withLastMessage_map_of:
  "map_of (withLastMessage ch d now reg) k =
     map_option (\<lambda>i. if Type (Subscription i) = ch
                      then i\<lparr>LastMessage := Some d, LastUpdate := now\<rparr> else i)
       (map_of reg k)"
proof (induction reg)
  case Nil
  then show ?case by (simp add: withLastMessage_Nil)
next
  case (Cons a reg)
  obtain k' i where "a = (k', i)" by (cases a)
  with Cons show ?case by (simp add: withLastMessage_Cons)
qed

lemma withLastMessage_noEmpty:
  assumes "noEmptyEntry reg"
  shows "noEmptyEntry (withLastMessage ch d now reg)"
proof -
  have "Clients i' \<noteq> []" if "map_of (withLastMessage ch d now reg) k = Some i'" for k i'
  proof -
    from that obtain i where "map_of reg k = Some i" "Clients i' = Clients i"
      by (auto simp: withLastMessage_map_of split: if_splits)
    with assms show ?thesis by (auto simp: noEmptyEntry_map_of)
  qed
  with assms show ?thesis
    by (simp add: noEmptyEntry_map_of withLastMessage_keys)
qed

lemma dropClient_shrinks:
  "map_of (dropClient c k reg) k' = Some i' \<Longrightarrow>
   \<exists>i. map_of reg k' = Some i \<and> Subscription i' = Subscription i
       \<and> set (Clients i') \<subseteq> set (Clients i)"
  by (cases "k' = k"; cases "map_of reg k") (auto simp: dropClient_map_of split: if_splits)

lemma fold_dropClient_shrinks:
  "map_of (fold (dropClient c) ks reg) k' = Some i' \<Longrightarrow>
   \<exists>i. map_of reg k' = Some i \<and> Subscription i' = Subscription i
       \<and> set (Clients i') \<subseteq> set (Clients i)"
proof (induction ks arbitrary: reg)
  case Nil
  then show ?case by simp
next
  case (Cons k ks)
  from Cons.prems have "map_of (fold (dropClient c) ks (dropClient c k reg)) k' = Some i'"
    by simp
  from Cons.IH [OF this] obtain i1 where
    i1: "map_of (dropClient c k reg) k' = Some i1" "Subscription i' = Subscription i1"
      "set (Clients i') \<subseteq> set (Clients i1)" by blast
  from dropClient_shrinks [OF i1(1)] obtain i where
    "map_of reg k' = Some i" "Subscription i1 = Subscription i"
    "set (Clients i1) \<subseteq> set (Clients i)" by blast
  with i1 show ?case by auto
qed

lemma cleanUp_shrinks:
  "map_of (cleanUp rem reg) k' = Some i' \<Longrightarrow>
   \<exists>i. map_of reg k' = Some i \<and> Subscription i' = Subscription i
       \<and> set (Clients i') \<subseteq> set (Clients i)"
proof (induction rem arbitrary: reg)
  case Nil
  then show ?case by (simp add: cleanUp_def)
next
  case (Cons a rem)
  obtain c ks where a: "a = (c, ks)" by (cases a)
  from Cons.prems a have "map_of (cleanUp rem (fold (dropClient c) ks reg)) k' = Some i'"
    by (simp add: cleanUp_def)
  from Cons.IH [OF this] obtain i1 where
    i1: "map_of (fold (dropClient c) ks reg) k' = Some i1" "Subscription i' = Subscription i1"
      "set (Clients i') \<subseteq> set (Clients i1)" by blast
  from fold_dropClient_shrinks [OF i1(1)] obtain i where
    "map_of reg k' = Some i" "Subscription i1 = Subscription i"
    "set (Clients i1) \<subseteq> set (Clients i)" by blast
  with i1 show ?case by auto
qed

lemma forwardMessageToClients_Inr:
  assumes "forwardMessageToClients now ch d p = Inr p'"
  obtains store' n' rem' where
    "forwardToEntries ch d now (globalSubscriptions p) (clients p, 0, [])
       = Inr (withLastMessage ch d now (globalSubscriptions p), store', n', rem')"
    and "p' = p\<lparr>globalSubscriptions :=
                    cleanUp rem' (withLastMessage ch d now (globalSubscriptions p)),
                 clients := store',
                 MessagesForwarded := wrap64 (MessagesForwarded p + int n')\<rparr>"
proof -
  from assms obtain reg' store' n' rem' where
    run: "forwardToEntries ch d now (globalSubscriptions p) (clients p, 0, [])
            = Inr (reg', store', n', rem')"
    and p': "p' = p\<lparr>globalSubscriptions := cleanUp rem' reg', clients := store',
                    MessagesForwarded := wrap64 (MessagesForwarded p + int n')\<rparr>"
    by (auto simp: forwardMessageToClients_def split: sum.splits)
  from forwardToEntries_effect [OF run] have "reg' = withLastMessage ch d now (globalSubscriptions p)"
    by simp
  with run p' that show thesis by simp
qed



lemma publish_noEmpty:
  assumes "forwardMessageToClients now ch d p = Inr p'"
    and "noEmptyEntry (globalSubscriptions p)"
  shows "noEmptyEntry (globalSubscriptions p')"
  using assms(1)
proof (cases rule: forwardMessageToClients_Inr)
  case (1 store' n' rem')
  then show ?thesis
    using assms(2) by (simp add: cleanUp_noEmpty withLastMessage_noEmpty)
qed




section \<open>Publishing to sessions with a full queue\<close>

lemmas sample_proxy_defs =
  sampleFullProxy_def NewProxy_def NewClient_def NewConnector_def sampleTradesBTC_def
  sampleAllMids_def forwardMessageToClients_def trySend_def markForRemoval_def cleanUp_def
  dropClient_def queueFull_def Let_def




section \<open>Replies touch one queue\<close>

lemma sameButQueue_refl: "sameButQueue c p p"
proof -
  have "p = p\<lparr>clients := (clients p)(c := (clients p c)\<lparr>Send := Send (clients p c)\<rparr>)\<rparr>"
    by simp
  then show ?thesis unfolding sameButQueue_def by (rule exI)
qed

lemma sameButQueue_trans:
  assumes "sameButQueue c p p1" and "sameButQueue c p1 p2"
  shows "sameButQueue c p p2"
proof -
  from assms(1) obtain q1 where
    p1: "p1 = p\<lparr>clients := (clients p)(c := (clients p c)\<lparr>Send := q1\<rparr>)\<rparr>"
    unfolding sameButQueue_def by blast
  from assms(2) obtain q2 where
    p2: "p2 = p1\<lparr>clients := (clients p1)(c := (clients p1 c)\<lparr>Send := q2\<rparr>)\<rparr>"
    unfolding sameButQueue_def by blast
  have "p2 = p\<lparr>clients := (clients p)(c := (clients p c)\<lparr>Send := q2\<rparr>)\<rparr>"
    unfolding p2 p1 by simp
  then show ?thesis unfolding sameButQueue_def by (rule exI)
qed

lemma sameButQueue_fields:
  assumes "sameButQueue c p p'"
  shows "globalSubscriptions p' = globalSubscriptions p"
    and "hubClients p' = hubClients p"
    and "goroutines p' = goroutines p"
    and "hlConnector p' = hlConnector p"
    and "allocated p' = allocated p"
    and "useLocalNode p' = useLocalNode p"
    and "localNodeReader p' = localNodeReader p"
    and "Subscriptions (clients p' x) = Subscriptions (clients p x)"
    and "SendClosed (clients p' x) = SendClosed (clients p x)"
    and "x \<noteq> c \<Longrightarrow> clients p' x = clients p x"
proof -
  from assms obtain q where
    p': "p' = p\<lparr>clients := (clients p)(c := (clients p c)\<lparr>Send := q\<rparr>)\<rparr>"
    unfolding sameButQueue_def by blast
  show "globalSubscriptions p' = globalSubscriptions p" "hubClients p' = hubClients p"
    "goroutines p' = goroutines p" "hlConnector p' = hlConnector p"
    "allocated p' = allocated p" "useLocalNode p' = useLocalNode p"
    "localNodeReader p' = localNodeReader p"
    "Subscriptions (clients p' x) = Subscriptions (clients p x)"
    "SendClosed (clients p' x) = SendClosed (clients p x)"
    "x \<noteq> c \<Longrightarrow> clients p' x = clients p x"
    unfolding p' by simp_all
qed

lemma SendMessage_cases:
  "SendMessage c m p =
     (if SendClosed (clients p c) then Inl SendOnClosedChannel
      else if length (Send (clients p c)) < 256
      then Inr (p\<lparr>clients := (clients p)(c := (clients p c)\<lparr>Send := Send (clients p c) @ [m]\<rparr>)\<rparr>)
      else Inr p)"
  by (simp add: SendMessage_def trySend_def)

lemma SendMessage_same:
  "SendMessage c m p = Inr p' \<Longrightarrow> sameButQueue c p p'"
  by (auto simp: SendMessage_cases sameButQueue_def sameButQueue_refl [unfolded sameButQueue_def]
        split: if_splits)

lemma SendMessage_fault:
  "SendMessage c m p = Inl e \<Longrightarrow> e = SendOnClosedChannel \<and> SendClosed (clients p c)"
  by (auto simp: SendMessage_cases split: if_splits)

lemma blockingSend_same:
  "blockingSend c m (clients p) = Inr store \<Longrightarrow> sameButQueue c p (p\<lparr>clients := store\<rparr>)"
  by (auto simp: blockingSend_def sameButQueue_def split: if_splits)

lemma sendTrades_same: "sendTrades c trades p = Inr p' \<Longrightarrow> sameButQueue c p p'"
proof (induction trades arbitrary: p)
  case Nil
  then show ?case by (simp add: sameButQueue_refl)
next
  case (Cons t trades)
  from Cons.prems obtain store where
    s: "blockingSend c (tradesMessage t) (clients p) = Inr store"
    and r: "sendTrades c trades (p\<lparr>clients := store\<rparr>) = Inr p'"
    by (auto split: sum.splits)
  from blockingSend_same [OF s] Cons.IH [OF r] show ?case by (rule sameButQueue_trans)
qed

lemma sendInitialLocalNodeData_same:
  "sendInitialLocalNodeData r c sub p = Inr p' \<Longrightarrow> sameButQueue c p p'"
  by (auto simp: sendInitialLocalNodeData_def sameButQueue_refl
        dest: SendMessage_same sendTrades_same split: if_splits)

lemma sendErrorToClient_same:
  "sendErrorToClient now c msg p = Inr p' \<Longrightarrow> sameButQueue c p p'"
  by (simp add: sendErrorToClient_def SendMessage_same)

lemma sendPostErrorToClient_same:
  "sendPostErrorToClient c requestID msg p = Inr p' \<Longrightarrow> sameButQueue c p p'"
  by (simp add: sendPostErrorToClient_def SendMessage_same)

section \<open>Keys that collide, and frames that do not decode\<close>

text \<open>
  C10. The subscription of user "a-b" without a coin and the subscription of user "a" with
  coin "b" differ and have the same key; when session 0 subscribes to the first and
  session 1 to the second, the registry holds one entry, under that key, with the first
  subscription and both sessions.
\<close>

theorem distinct_specs_share_key_and_entry:
  "sampleDashedUser \<noteq> sampleUserAndCoin
   \<and> createSubscriptionKey sampleDashedUser = ''userFills-a-b''
   \<and> createSubscriptionKey sampleUserAndCoin = ''userFills-a-b''
   \<and> (case bindF (handleSubscribe 0 0 (Some sampleDashedUser)
                    (ServeWS (ServeWS (NewProxy False))))
              (handleSubscribe 0 1 (Some sampleUserAndCoin)) of
         Inl e \<Rightarrow> False
       | Inr p \<Rightarrow>
           map (\<lambda>(key, subInfo). (key, Subscription subInfo, Clients subInfo))
             (globalSubscriptions p)
           = [(''userFills-a-b'', sampleDashedUser, [0, 1])])"
  by (simp add: sampleDashedUser_def sampleUserAndCoin_def createSubscriptionKey_def
        handleSubscribe_def registerSubscription_def sendInitialData_def SendMessage_def
        trySend_def bindF_def ServeWS_def NewProxy_def NewClient_def NewConnector_def
        subscriptionResponse_def Let_def)





section \<open>What each handler does to the registry\<close>

lemma shrinksTo_refl: "shrinksTo reg reg"
  by (simp add: shrinksTo_def)

lemma shrinksTo_dropClient: "shrinksTo reg (dropClient c k reg)"
  unfolding shrinksTo_def using dropClient_shrinks by blast

lemma shrinksTo_delete: "shrinksTo reg (AList.delete k reg)"
  unfolding shrinksTo_def by (auto simp: AList.delete_conv' split: if_splits)

lemma shrinksTo_publish: "shrinksTo reg (cleanUp rem (withLastMessage ch d now reg))"
  unfolding shrinksTo_def
proof (intro allI impI)
  fix key i'
  assume "map_of (cleanUp rem (withLastMessage ch d now reg)) key = Some i'"
  from cleanUp_shrinks [OF this] obtain i1 where
    i1: "map_of (withLastMessage ch d now reg) key = Some i1"
      "Subscription i' = Subscription i1" "set (Clients i') \<subseteq> set (Clients i1)" by blast
  from i1(1) obtain i where "map_of reg key = Some i" "Subscription i1 = Subscription i"
    "Clients i1 = Clients i"
    by (auto simp: withLastMessage_map_of split: if_splits)
  with i1 show "\<exists>i. map_of reg key = Some i \<and> Subscription i' = Subscription i
                  \<and> set (Clients i') \<subseteq> set (Clients i)" by auto
qed

lemma shrinksTo_onlyClient:
  "shrinksTo reg reg' \<Longrightarrow> onlyClient c key reg \<Longrightarrow> onlyClient c key reg'"
  unfolding shrinksTo_def onlyClient_def
  by (cases "map_of reg' key") (fastforce split: option.splits)+

lemma delete_noEmpty: "noEmptyEntry reg \<Longrightarrow> noEmptyEntry (AList.delete k reg)"
  unfolding noEmptyEntry_map_of
  by (auto simp: AList.delete_conv' AList.distinct_delete split: if_splits)

lemma update_noEmpty:
  "noEmptyEntry reg \<Longrightarrow> Clients i \<noteq> [] \<Longrightarrow> noEmptyEntry (AList.update k i reg)"
  unfolding noEmptyEntry_map_of
  by (auto simp: AList.update_conv' AList.distinct_update split: if_splits)

subsection \<open>Subscribe\<close>

lemma registerSubscription_registry:
  "\<exists>i. globalSubscriptions (registerSubscription now c sub p)
          = AList.update (createSubscriptionKey sub) i (globalSubscriptions p)
       \<and> c \<in> set (Clients i)
       \<and> (case map_of (globalSubscriptions p) (createSubscriptionKey sub) of
             None \<Rightarrow> Clients i = [c] \<and> Subscription i = sub
           | Some found \<Rightarrow> set (Clients i) = insert c (set (Clients found))
                            \<and> Subscription i = Subscription found)"
  by (cases "map_of (globalSubscriptions p) (createSubscriptionKey sub)")
     (auto simp: registerSubscription_def Let_def)

lemma registerSubscription_noEmpty:
  assumes "noEmptyEntry (globalSubscriptions p)"
  shows "noEmptyEntry (globalSubscriptions (registerSubscription now c sub p))"
proof -
  from registerSubscription_registry [of now c sub p] obtain i where
    reg: "globalSubscriptions (registerSubscription now c sub p)
       = AList.update (createSubscriptionKey sub) i (globalSubscriptions p)"
    and c: "c \<in> set (Clients i)" by blast
  from c have "Clients i \<noteq> []" by auto
  with assms have "noEmptyEntry (AList.update (createSubscriptionKey sub) i
                                  (globalSubscriptions p))"
    by (rule update_noEmpty)
  with reg show ?thesis by simp
qed

lemma registerSubscription_onlyClient:
  assumes "onlyClient c key (globalSubscriptions p)"
    and "c' = c \<or> createSubscriptionKey sub \<noteq> key"
  shows "onlyClient c key (globalSubscriptions (registerSubscription now c' sub p))"
proof -
  from registerSubscription_registry [of now c' sub p] obtain i where
    reg: "globalSubscriptions (registerSubscription now c' sub p)
            = AList.update (createSubscriptionKey sub) i (globalSubscriptions p)"
    and cl: "case map_of (globalSubscriptions p) (createSubscriptionKey sub) of
               None \<Rightarrow> Clients i = [c'] \<and> Subscription i = sub
             | Some found \<Rightarrow> set (Clients i) = insert c' (set (Clients found))
                              \<and> Subscription i = Subscription found" by blast
  show ?thesis
  proof (cases "createSubscriptionKey sub = key")
    case False
    with assms(1) reg show ?thesis by (simp add: onlyClient_def AList.update_conv')
  next
    case True
    with assms(2) have "c' = c" by simp
    with True assms(1) reg cl show ?thesis
      by (cases "map_of (globalSubscriptions p) key")
         (auto simp: onlyClient_def AList.update_conv')
  qed
qed

lemma sendInitialData_same: "sendInitialData c sub p = Inr p' \<Longrightarrow> sameButQueue c p p'"
  unfolding sendInitialData_def
  by (auto simp: sameButQueue_refl
        dest: sendInitialLocalNodeData_same blockingSend_same
        split: bool.splits option.splits sum.splits)

lemma handleSubscribe_registry:
  assumes "handleSubscribe now c subscription p = Inr p'"
  shows "globalSubscriptions p' =
           (case subscription of
              None \<Rightarrow> globalSubscriptions p
            | Some sub \<Rightarrow> globalSubscriptions (registerSubscription now c sub p))"
proof (cases subscription)
  case None
  with assms have "sameButQueue c p p'"
    by (simp add: handleSubscribe_def sendErrorToClient_same)
  with None show ?thesis by (simp add: sameButQueue_fields)
next
  case (Some sub)
  with assms obtain p1 where
    s1: "SendMessage c (subscriptionResponse ''subscribe'' sub)
           (registerSubscription now c sub p) = Inr p1"
    and s2: "sendInitialData c sub p1 = Inr p'"
    by (auto simp: handleSubscribe_def bindF_def split: sum.splits)
  from SendMessage_same [OF s1] sendInitialData_same [OF s2]
  have "sameButQueue c (registerSubscription now c sub p) p'" by (rule sameButQueue_trans)
  with Some show ?thesis by (simp add: sameButQueue_fields)
qed

subsection \<open>Unsubscribe, POST, goroutines\<close>

lemma handleUnsubscribe_registry:
  assumes "handleUnsubscribe now c subscription p = Inr p'"
  shows "globalSubscriptions p' =
           (case subscription of
              None \<Rightarrow> globalSubscriptions p
            | Some sub \<Rightarrow> dropClient c (createSubscriptionKey sub) (globalSubscriptions p))"
proof (cases subscription)
  case None
  with assms have "sameButQueue c p p'"
    by (simp add: handleUnsubscribe_def sendErrorToClient_same)
  with None show ?thesis by (simp add: sameButQueue_fields)
next
  case (Some sub)
  with assms have "sameButQueue c (removeSubscription c sub p) p'"
    by (simp add: handleUnsubscribe_def SendMessage_same)
  then have "globalSubscriptions p' = globalSubscriptions (removeSubscription c sub p)"
    by (rule sameButQueue_fields)
  with Some show ?thesis by (simp add: removeSubscription_def Let_def)
qed

lemma handlePostRequest_registry:
  assumes "handlePostRequest drained arrivals now c msg p = Inr p'"
  shows "globalSubscriptions p' = globalSubscriptions p"
proof -
  have keep: "globalSubscriptions q' = globalSubscriptions q" if "sameButQueue c q q'" for q q'
    using that by (rule sameButQueue_fields)
  from assms show ?thesis
    unfolding handlePostRequest_def bindF_def
    by (auto split: prod.splits option.splits if_splits sum.splits
          dest!: sendErrorToClient_same sendPostErrorToClient_same SendMessage_same keep)
qed

lemma runGoroutine_registry:
  assumes "runGoroutine drained now g p = Inr p'"
  shows "globalSubscriptions p' = globalSubscriptions p
         \<or> (\<exists>k. globalSubscriptions p' = AList.delete k (globalSubscriptions p))"
proof -
  have keep: "globalSubscriptions q' = globalSubscriptions q" if "sameButQueue c q q'" for c q q'
    using that by (rule sameButQueue_fields)
  from assms show ?thesis
    unfolding runGoroutine_def bindF_def
    by (auto split: prod.splits option.splits goroutine.splits sum.splits
          dest!: sendErrorToClient_same keep)
qed

section \<open>Events and the registry\<close>

lemma handleClientMessage_registry:
  assumes "handleClientMessage unmarshal drained arrivals now c data p = Inr p'"
  shows "(\<exists>msg sub. unmarshal data = Some msg \<and> Method msg = ''subscribe''
            \<and> msg_Subscription msg = Some sub
            \<and> globalSubscriptions p' = globalSubscriptions (registerSubscription now c sub p))
         \<or> (shrinksTo (globalSubscriptions p) (globalSubscriptions p')
             \<and> (noEmptyEntry (globalSubscriptions p) \<longrightarrow> noEmptyEntry (globalSubscriptions p')))"
proof (cases "unmarshal data")
  case None
  with assms have "sameButQueue c p p'"
    by (simp add: handleClientMessage_def sendErrorToClient_same)
  then have "globalSubscriptions p' = globalSubscriptions p" by (rule sameButQueue_fields)
  then show ?thesis by (simp add: shrinksTo_refl)
next
  case (Some msg)
  consider (sub) "Method msg = ''subscribe''"
    | (unsub) "Method msg \<noteq> ''subscribe''" "Method msg = ''unsubscribe''"
    | (post) "Method msg \<noteq> ''subscribe''" "Method msg \<noteq> ''unsubscribe''"
        "Method msg = ''post''"
    | (unknown) "Method msg \<noteq> ''subscribe''" "Method msg \<noteq> ''unsubscribe''"
        "Method msg \<noteq> ''post''"
    by blast
  then show ?thesis
  proof cases
    case sub
    with assms Some have h: "handleSubscribe now c (msg_Subscription msg) p = Inr p'"
      by (simp add: handleClientMessage_def)
    show ?thesis
    proof (cases "msg_Subscription msg")
      case None
      with handleSubscribe_registry [OF h]
      have "globalSubscriptions p' = globalSubscriptions p" by simp
      then show ?thesis by (simp add: shrinksTo_refl)
    next
      case (Some s)
      with handleSubscribe_registry [OF h]
      have "globalSubscriptions p' = globalSubscriptions (registerSubscription now c s p)"
        by simp
      with sub Some \<open>unmarshal data = Some msg\<close> show ?thesis by blast
    qed
  next
    case unsub
    with assms Some have h: "handleUnsubscribe now c (msg_Subscription msg) p = Inr p'"
      by (simp add: handleClientMessage_def)
    show ?thesis
    proof (cases "msg_Subscription msg")
      case None
      with handleUnsubscribe_registry [OF h]
      have "globalSubscriptions p' = globalSubscriptions p" by simp
      then show ?thesis by (simp add: shrinksTo_refl)
    next
      case (Some s)
      with handleUnsubscribe_registry [OF h]
      have "globalSubscriptions p'
              = dropClient c (createSubscriptionKey s) (globalSubscriptions p)" by simp
      then show ?thesis by (simp add: shrinksTo_dropClient dropClient_noEmpty)
    qed
  next
    case post
    with assms Some have "handlePostRequest drained arrivals now c msg p = Inr p'"
      by (simp add: handleClientMessage_def)
    then have "globalSubscriptions p' = globalSubscriptions p"
      by (rule handlePostRequest_registry)
    then show ?thesis by (simp add: shrinksTo_refl)
  next
    case unknown
    with assms Some have "sameButQueue c p p'"
      by (simp add: handleClientMessage_def sendErrorToClient_same)
    then have "globalSubscriptions p' = globalSubscriptions p" by (rule sameButQueue_fields)
    then show ?thesis by (simp add: shrinksTo_refl)
  qed
qed

lemma step_registry:
  assumes "step unmarshal ev p = Inr p'"
  shows "(\<exists>c data now drained arrivals msg sub.
            ev = Frame c data now drained arrivals \<and> unmarshal data = Some msg
            \<and> Method msg = ''subscribe'' \<and> msg_Subscription msg = Some sub
            \<and> globalSubscriptions p' = globalSubscriptions (registerSubscription now c sub p))
         \<or> (shrinksTo (globalSubscriptions p) (globalSubscriptions p')
             \<and> (noEmptyEntry (globalSubscriptions p) \<longrightarrow> noEmptyEntry (globalSubscriptions p')))"
proof (cases ev)
  case Connects
  with assms have "globalSubscriptions p' = globalSubscriptions p"
    by (auto simp: step_def ServeWS_def Let_def)
  then show ?thesis by (simp add: shrinksTo_refl)
next
  case (Leaves c)
  with assms have "globalSubscriptions p' = globalSubscriptions p"
    by (auto simp: step_def hubUnregister_def)
  then show ?thesis by (simp add: shrinksTo_refl)
next
  case (Frame c data now drained arrivals)
  show ?thesis
  proof (cases "c < allocated p")
    case False
    with assms Frame have "p' = p" by (simp add: step_def)
    then show ?thesis by (simp add: shrinksTo_refl)
  next
    case True
    with assms Frame
    have "handleClientMessage unmarshal drained arrivals now c data p = Inr p'"
      by (simp add: step_def)
    from handleClientMessage_registry [OF this] Frame show ?thesis by blast
  qed
next
  case (Scheduled i drained now)
  show ?thesis
  proof (cases "i < length (goroutines p)")
    case False
    with assms Scheduled have "p' = p" by (simp add: step_def)
    then show ?thesis by (simp add: shrinksTo_refl)
  next
    case True
    let ?q = "p\<lparr>goroutines := take i (goroutines p) @ drop (Suc i) (goroutines p)\<rparr>"
    from assms Scheduled True
    have "runGoroutine drained now (goroutines p ! i) ?q = Inr p'"
      by (simp add: step_def)
    from runGoroutine_registry [OF this]
    have "globalSubscriptions p' = globalSubscriptions p
          \<or> (\<exists>k. globalSubscriptions p' = AList.delete k (globalSubscriptions p))"
      by simp
    then show ?thesis
      by (auto simp: shrinksTo_refl shrinksTo_delete delete_noEmpty)
  qed
next
  case (Publishes ch d now)
  with assms have r: "forwardMessageToClients now ch d p = Inr p'"
    by (simp add: step_def)
  then obtain store' n' rem' where
    "p' = p\<lparr>globalSubscriptions :=
                    cleanUp rem' (withLastMessage ch d now (globalSubscriptions p)),
                 clients := store',
                 MessagesForwarded := wrap64 (MessagesForwarded p + int n')\<rparr>"
    by (rule forwardMessageToClients_Inr)
  then have "shrinksTo (globalSubscriptions p) (globalSubscriptions p')"
    by (simp add: shrinksTo_publish)
  with publish_noEmpty [OF r] show ?thesis by blast
next
  case (Writes c)
  with assms have "globalSubscriptions p' = globalSubscriptions p"
    by (auto simp: step_def writePump_def)
  then show ?thesis by (simp add: shrinksTo_refl)
qed

lemma step_noEmpty:
  assumes "step unmarshal ev p = Inr p'" and "noEmptyEntry (globalSubscriptions p)"
  shows "noEmptyEntry (globalSubscriptions p')"
  using step_registry [OF assms(1)] assms(2)
  by (auto simp: registerSubscription_noEmpty)

lemma run_noEmpty:
  "run unmarshal events p = Inr p' \<Longrightarrow> noEmptyEntry (globalSubscriptions p) \<Longrightarrow>
   noEmptyEntry (globalSubscriptions p')"
proof (induction events arbitrary: p)
  case Nil
  then show ?case by simp
next
  case (Cons ev events)
  from Cons.prems(1) obtain p1 where
    s: "step unmarshal ev p = Inr p1" and r: "run unmarshal events p1 = Inr p'"
    by (auto split: sum.splits)
  from step_noEmpty [OF s Cons.prems(2)] have "noEmptyEntry (globalSubscriptions p1)" .
  with r show ?case by (rule Cons.IH)
qed

lemma step_onlyClient:
  assumes "step unmarshal ev p = Inr p'"
    and "\<not> subscribesOther unmarshal c key ev"
    and "onlyClient c key (globalSubscriptions p)"
  shows "onlyClient c key (globalSubscriptions p')"
  using step_registry [OF assms(1)]
proof
  assume "\<exists>c' data now drained arrivals msg sub.
            ev = Frame c' data now drained arrivals \<and> unmarshal data = Some msg
            \<and> Method msg = ''subscribe'' \<and> msg_Subscription msg = Some sub
            \<and> globalSubscriptions p' = globalSubscriptions (registerSubscription now c' sub p)"
  then obtain c' data now drained arrivals msg sub where
    ev: "ev = Frame c' data now drained arrivals" "unmarshal data = Some msg"
      "Method msg = ''subscribe''" "msg_Subscription msg = Some sub"
    and reg: "globalSubscriptions p' = globalSubscriptions (registerSubscription now c' sub p)"
    by blast
  from assms(2) ev have "c' = c \<or> createSubscriptionKey sub \<noteq> key"
    by (auto simp: subscribesOther_def)
  with assms(3) reg show ?thesis by (simp add: registerSubscription_onlyClient)
next
  assume "shrinksTo (globalSubscriptions p) (globalSubscriptions p')
          \<and> (noEmptyEntry (globalSubscriptions p) \<longrightarrow> noEmptyEntry (globalSubscriptions p'))"
  with assms(3) show ?thesis using shrinksTo_onlyClient by blast
qed

lemma run_onlyClient:
  "run unmarshal events p = Inr p' \<Longrightarrow>
   \<forall>ev\<in>set events. \<not> subscribesOther unmarshal c key ev \<Longrightarrow>
   onlyClient c key (globalSubscriptions p) \<Longrightarrow>
   onlyClient c key (globalSubscriptions p')"
proof (induction events arbitrary: p)
  case Nil
  then show ?case by simp
next
  case (Cons ev events)
  from Cons.prems(1) obtain p1 where
    s: "step unmarshal ev p = Inr p1" and r: "run unmarshal events p1 = Inr p'"
    by (auto split: sum.splits)
  from Cons.prems(2) have e: "\<not> subscribesOther unmarshal c key ev"
    and es: "\<forall>ev\<in>set events. \<not> subscribesOther unmarshal c key ev" by simp_all
  from step_onlyClient [OF s e Cons.prems(3)]
  have "onlyClient c key (globalSubscriptions p1)" .
  with r es show ?case using Cons.IH by blast
qed

lemma removeAll_only: "set xs \<subseteq> {c} \<Longrightarrow> removeAll c xs = []"
  by (induction xs) auto

lemma dropClient_onlyClient_gone:
  "onlyClient c key reg \<Longrightarrow> map_of (dropClient c key reg) key = None"
  by (cases "map_of reg key") (auto simp: onlyClient_def dropClient_map_of removeAll_only)

section \<open>Unregister, unsubscribe and the entries of the registry\<close>

lemma bindF_Inr: "bindF m f = Inr x \<Longrightarrow> \<exists>y. m = Inr y \<and> f y = Inr x"
  by (cases m) (simp_all add: bindF_def)

lemmas sample_run_defs =
  sample_proxy_defs sampleDecode_def step_def handleClientMessage_def handleSubscribe_def
  handleUnsubscribe_def registerSubscription_def removeSubscription_def sendInitialData_def
  sendInitialLocalNodeData_def sendErrorToClient_def SendMessage_def blockingSend_def
  subscriptionResponse_def runGoroutine_def Subscribe_def Unsubscribe_def sendMessage_def
  ServeWS_def hubUnregister_def writePump_def bindF_def createSubscriptionKey_def
  errorText_def forwardMessageToClients_def entryOf_def allPrices_def localCoins_def
  NewLocalNodeReader_def List.map_filter_def

lemma hubUnregister_registry:
  "globalSubscriptions (hubUnregister c p) = globalSubscriptions p"
  by (simp add: hubUnregister_def)

text \<open>
  C3. The unregister case of \<^verbatim>\<open>Hub.Run\<close> does not do what the claim says. From a new
  proxy a session connects, subscribes to all mids and leaves. Its teardown closes its
  outbound queue and drops it from the active set, and the registry is not touched: the
  entry of all mids still holds the session, where the claim has it removed and the entry
  pruned. The next publish on all mids delivers to that entry and sends on the closed
  queue, which in Go is a panic.
\<close>

theorem unregister_leaves_session_in_registry:
  "\<exists>q. run sampleDecode [Connects, Frame 0 ''S'' 1 False ([], []), Leaves 0] (NewProxy True) = Inr q
       \<and> SendClosed (clients q 0)
       \<and> hubClients q = []
       \<and> map (\<lambda>(key, subInfo). (key, Clients subInfo)) (globalSubscriptions q)
           = [(''allMids'', [0])]
       \<and> step sampleDecode (Publishes ''allMids'' (Bytes ''m'') 2) q
           = Inl SendOnClosedChannel"
  by (simp add: sample_run_defs)

section \<open>Subscribe followed by unsubscribe\<close>

text \<open>
  C6. From a registry with no entry under the key of a subscription s, session c
  subscribes to s, which creates the entry with c alone in it; then any events run, none
  of them a subscribe of another session under that key; then c unsubscribes from s.
  The registry has no entry under the key of s.
\<close>

theorem subscribe_unsubscribe_leaves_no_entry:
  assumes "entryOf p (createSubscriptionKey s) = None"
    and "handleSubscribe now c (Some s) p = Inr p1"
    and "\<forall>ev\<in>set events. \<not> subscribesOther unmarshal c (createSubscriptionKey s) ev"
    and "run unmarshal events p1 = Inr p2"
    and "handleUnsubscribe now' c (Some s) p2 = Inr p3"
  shows "(\<exists>subInfo. entryOf p1 (createSubscriptionKey s) = Some subInfo
            \<and> Clients subInfo = [c] \<and> Subscription subInfo = s)
         \<and> entryOf p3 (createSubscriptionKey s) = None"
proof -
  let ?key = "createSubscriptionKey s"
  from handleSubscribe_registry [OF assms(2)]
  have reg1: "globalSubscriptions p1 = globalSubscriptions (registerSubscription now c s p)"
    by simp
  from registerSubscription_registry [of now c s p] assms(1) obtain i where
    up: "globalSubscriptions (registerSubscription now c s p)
           = AList.update ?key i (globalSubscriptions p)"
    and i: "Clients i = [c]" "Subscription i = s"
    by (auto simp: entryOf_def)
  have e1: "entryOf p1 ?key = Some i"
    unfolding entryOf_def reg1 up by (simp add: AList.update_conv')
  then have "onlyClient c ?key (globalSubscriptions p1)"
    using i by (simp add: onlyClient_def entryOf_def)
  with assms(4,3) have "onlyClient c ?key (globalSubscriptions p2)"
    by (rule run_onlyClient)
  then have "map_of (dropClient c ?key (globalSubscriptions p2)) ?key = None"
    by (rule dropClient_onlyClient_gone)
  moreover from handleUnsubscribe_registry [OF assms(5)]
  have "globalSubscriptions p3 = dropClient c ?key (globalSubscriptions p2)" by simp
  ultimately have "entryOf p3 ?key = None" by (simp add: entryOf_def)
  with e1 i show ?thesis by simp
qed

text \<open>
  In upstream mode: session 0 subscribes to the trades of BTC; a trade is published and a
  second session connects, the entry still there; session 0 unsubscribes, and there is
  no entry.
\<close>

theorem subscribe_unsubscribe_leaves_no_entry_witness:
  "\<exists>p1 p2 p3.
     handleSubscribe 1 0 (Some sampleTradesBTC) (ServeWS (NewProxy False)) = Inr p1
     \<and> run sampleDecode [Publishes ''trades'' (Bytes ''t'') 2, Connects] p1
         = Inr p2
     \<and> handleUnsubscribe 4 0 (Some sampleTradesBTC) p2 = Inr p3
     \<and> entryOf p1 ''trades-BTC''
         = Some \<lparr>Subscription = sampleTradesBTC, Clients = [0], LastMessage = None,
                 LastUpdate = 1\<rparr>
     \<and> entryOf p2 ''trades-BTC'' \<noteq> None
     \<and> entryOf p3 ''trades-BTC'' = None"
proof -
  let ?events = "[Publishes ''trades'' (Bytes ''t'') 2, Connects]"
  have key: "createSubscriptionKey sampleTradesBTC = ''trades-BTC''"
    by (simp add: createSubscriptionKey_def sampleTradesBTC_def)
  have none: "entryOf (ServeWS (NewProxy False)) (createSubscriptionKey sampleTradesBTC) = None"
    by (simp add: entryOf_def ServeWS_def NewProxy_def Let_def)
  have others: "\<forall>ev\<in>set ?events.
                  \<not> subscribesOther sampleDecode 0 (createSubscriptionKey sampleTradesBTC) ev"
    by (simp add: subscribesOther_def)
  have "\<exists>p3. bindF (bindF (handleSubscribe 1 0 (Some sampleTradesBTC) (ServeWS (NewProxy False)))
                       (run sampleDecode ?events))
                (handleUnsubscribe 4 0 (Some sampleTradesBTC)) = Inr p3"
    by (simp add: sample_run_defs)
  then obtain p3 where
    "bindF (bindF (handleSubscribe 1 0 (Some sampleTradesBTC) (ServeWS (NewProxy False)))
              (run sampleDecode ?events))
       (handleUnsubscribe 4 0 (Some sampleTradesBTC)) = Inr p3" ..
  from bindF_Inr [OF this] obtain p2 where
    b: "bindF (handleSubscribe 1 0 (Some sampleTradesBTC) (ServeWS (NewProxy False)))
          (run sampleDecode ?events) = Inr p2"
    and u: "handleUnsubscribe 4 0 (Some sampleTradesBTC) p2 = Inr p3" by blast
  from bindF_Inr [OF b] obtain p1 where
    s: "handleSubscribe 1 0 (Some sampleTradesBTC) (ServeWS (NewProxy False)) = Inr p1"
    and r: "run sampleDecode ?events p1 = Inr p2" by blast
  have first: "entryOf p1 ''trades-BTC''
         = Some \<lparr>Subscription = sampleTradesBTC, Clients = [0], LastMessage = None,
                 LastUpdate = 1\<rparr>"
    using s by (auto simp: sample_run_defs)
  have "\<exists>p'. handleSubscribe 1 0 (Some sampleTradesBTC) (ServeWS (NewProxy False)) = Inr p'
          \<and> (\<exists>p''. run sampleDecode ?events p' = Inr p'' \<and> entryOf p'' ''trades-BTC'' \<noteq> None)"
    by (simp add: sample_run_defs)
  with s r have second: "entryOf p2 ''trades-BTC'' \<noteq> None" by auto
  from subscribe_unsubscribe_leaves_no_entry [OF none s others r u] key
  have "entryOf p3 ''trades-BTC'' = None" by simp
  with s r u first second show ?thesis by blast
qed

end
